(* ===== verification/Prelude.thy ===== *)
theory Prelude
  imports Main "HOL-Library.Word" "HOL-Library.Monad_Syntax"
begin

unbundle bit_operations_syntax

text \<open>
  Shared ground of the development: the machine integers of the C sources, the
  object memory that pointers refer to, and the lemmas on lists, options and words
  the component theories use.

  A C pointer is \<open>Null\<close> or a pair of an object number and a byte offset; the
  memory gives the bytes of every object. Reading or writing outside an object is
  undefined behaviour in C and is the value \<open>None\<close> here: an operation that
  returns \<open>Some\<close> made no such access. Multi-byte fields of packed structures are
  little endian, as on every target the SDK builds for.
\<close>

section \<open>Machine integers\<close>

type_synonym u8 = "8 word"
type_synonym u16 = "16 word"
type_synonym u32 = "32 word"
type_synonym u64 = "64 word"

named_theorems mem_defs \<open>definitions of the memory accesses\<close>
named_theorems mem_simps \<open>equations of memory accesses that stay inside their object\<close>
named_theorems wf_intros \<open>preservation of well-formedness, one fact per operation\<close>

definition u16_of :: "u8 \<Rightarrow> u8 \<Rightarrow> u16" where
  "u16_of lo hi = push_bit 8 (ucast hi) OR ucast lo"

definition lo8 :: "u16 \<Rightarrow> u8" where
  "lo8 w = ucast w"

definition hi8 :: "u16 \<Rightarrow> u8" where
  "hi8 w = ucast (drop_bit 8 w)"

definition u16_bytes :: "u16 \<Rightarrow> u8 list" where
  "u16_bytes w = [lo8 w, hi8 w]"

lemma lo8_u16_of [simp]: "lo8 (u16_of a b) = a"
  by (rule bit_word_eqI) (auto simp: lo8_def u16_of_def bit_simps)

lemma hi8_u16_of [simp]: "hi8 (u16_of a b) = b"
  by (rule bit_word_eqI) (auto simp: hi8_def u16_of_def bit_simps dest: bit_imp_le_length)

lemma u16_of_lo8_hi8 [simp]: "u16_of (lo8 w) (hi8 w) = w"
  by (rule bit_word_eqI) (auto simp: lo8_def hi8_def u16_of_def bit_simps)

lemma u16_of_inject [simp]: "u16_of a b = u16_of c d \<longleftrightarrow> a = c \<and> b = d"
  by (metis lo8_u16_of hi8_u16_of)

lemma length_u16_bytes [simp]: "length (u16_bytes w) = 2"
  by (simp add: u16_bytes_def)

section \<open>Object memory\<close>

datatype cptr = Null | Ptr (ptr_obj: nat) (ptr_off: nat)

type_synonym cmem = "nat \<Rightarrow> u8 list"

definition ptr_add :: "cptr \<Rightarrow> nat \<Rightarrow> cptr" where
  "ptr_add p n = (case p of Null \<Rightarrow> Null | Ptr ob i \<Rightarrow> Ptr ob (i + n))"

definition rd_byte :: "cmem \<Rightarrow> nat \<Rightarrow> nat \<Rightarrow> u8 option" where
  [mem_defs]: "rd_byte m ob i = (if i < length (m ob) then Some (m ob ! i) else None)"

definition rd_bytes :: "cmem \<Rightarrow> nat \<Rightarrow> nat \<Rightarrow> nat \<Rightarrow> u8 list option" where
  [mem_defs]: "rd_bytes m ob i n =
     (if i + n \<le> length (m ob) then Some (take n (drop i (m ob))) else None)"

definition rd_u16 :: "cmem \<Rightarrow> nat \<Rightarrow> nat \<Rightarrow> u16 option" where
  [mem_defs]: "rd_u16 m ob i =
     do { a \<leftarrow> rd_byte m ob i; b \<leftarrow> rd_byte m ob (i + 1); Some (u16_of a b) }"

definition wr_bytes :: "cmem \<Rightarrow> nat \<Rightarrow> nat \<Rightarrow> u8 list \<Rightarrow> cmem option" where
  [mem_defs]: "wr_bytes m ob i bs =
     (if i + length bs \<le> length (m ob)
      then Some (m(ob := take i (m ob) @ bs @ drop (i + length bs) (m ob))) else None)"

definition wr_byte :: "cmem \<Rightarrow> nat \<Rightarrow> nat \<Rightarrow> u8 \<Rightarrow> cmem option" where
  [mem_defs]: "wr_byte m ob i v = wr_bytes m ob i [v]"

text \<open>\<open>memcpy\<close> and \<open>memmove\<close> between pointers. A copy of no bytes touches no memory,
  so its pointers may be null.\<close>

definition memcpy :: "cmem \<Rightarrow> cptr \<Rightarrow> cptr \<Rightarrow> nat \<Rightarrow> cmem option" where
  [mem_defs]: "memcpy m dst src n =
     (if n = 0 then Some m
      else case (dst, src) of
        (Ptr od i, Ptr os j) \<Rightarrow> do { bs \<leftarrow> rd_bytes m os j n; wr_bytes m od i bs }
      | _ \<Rightarrow> None)"

lemma rd_byte_Some [mem_simps]: "i < length (m ob) \<Longrightarrow> rd_byte m ob i = Some (m ob ! i)"
  by (simp add: rd_byte_def)

lemma rd_bytes_Some [mem_simps]:
  "i + n \<le> length (m ob) \<Longrightarrow> rd_bytes m ob i n = Some (take n (drop i (m ob)))"
  by (simp add: rd_bytes_def)

lemma rd_u16_Some [mem_simps]:
  "i + 1 < length (m ob) \<Longrightarrow> rd_u16 m ob i = Some (u16_of (m ob ! i) (m ob ! (i + 1)))"
  by (simp add: rd_u16_def rd_byte_def)

lemma rd_bytes_length: "rd_bytes m ob i n = Some bs \<Longrightarrow> length bs = n"
  by (auto simp: rd_bytes_def split: if_splits)

lemma wr_bytes_length:
  "wr_bytes m ob i bs = Some m' \<Longrightarrow> length (m' ob') = length (m ob')"
  by (auto simp: wr_bytes_def split: if_splits)

lemma wr_bytes_other: "wr_bytes m ob i bs = Some m' \<Longrightarrow> ob' \<noteq> ob \<Longrightarrow> m' ob' = m ob'"
  by (auto simp: wr_bytes_def split: if_splits)

lemma wr_bytes_Some:
  "i + length bs \<le> length (m ob) \<Longrightarrow> \<exists>m'. wr_bytes m ob i bs = Some m'"
  by (simp add: wr_bytes_def)

lemma rd_bytes_wr_bytes:
  "wr_bytes m ob i bs = Some m' \<Longrightarrow> rd_bytes m' ob i (length bs) = Some bs"
  by (auto simp: wr_bytes_def rd_bytes_def split: if_splits)

lemma memcpy_length: "memcpy m d s n = Some m' \<Longrightarrow> length (m' ob) = length (m ob)"
  by (auto simp: memcpy_def bind_eq_Some_conv wr_bytes_length split: if_splits cptr.splits)

section \<open>Single objects\<close>

text \<open>Copies out of and into one object. The length is a C \<open>int\<close>: converted to
  \<open>size_t\<close>, a negative one is larger than any object, hence out of bounds.\<close>

definition obj_rd :: "u8 list \<Rightarrow> nat \<Rightarrow> int \<Rightarrow> u8 list option" where
  [mem_defs]: "obj_rd mem p n =
     (if 0 \<le> n \<and> p + nat n \<le> length mem then Some (take (nat n) (drop p mem)) else None)"

definition obj_wr :: "u8 list \<Rightarrow> nat \<Rightarrow> u8 list \<Rightarrow> u8 list option" where
  [mem_defs]: "obj_wr mem p bs =
     (if p + length bs \<le> length mem
      then Some (take p mem @ bs @ drop (p + length bs) mem) else None)"

lemma obj_rd_Some [mem_simps]:
  "0 \<le> n \<Longrightarrow> p + nat n \<le> length mem \<Longrightarrow> obj_rd mem p n = Some (take (nat n) (drop p mem))"
  by (simp add: obj_rd_def)

lemma obj_wr_Some [mem_simps]:
  "p + length bs \<le> length mem \<Longrightarrow>
   obj_wr mem p bs = Some (take p mem @ bs @ drop (p + length bs) mem)"
  by (simp add: obj_wr_def)

lemma obj_wr_length: "obj_wr mem p bs = Some mem' \<Longrightarrow> length mem' = length mem"
  by (auto simp: obj_wr_def split: if_splits)

section \<open>Bits of words\<close>

lemma take_bit_selfD: "take_bit k x = x \<Longrightarrow> bit x n \<Longrightarrow> n < k" for x :: "'a::len word"
  by (metis bit_take_bit_iff)

lemma xor_left_cancel: "a XOR b = a XOR c \<Longrightarrow> b = c" for a b c :: "'a::len word"
  by (auto simp: bit_eq_iff bit_xor_iff)

lemma xor_right_cancel: "b XOR a = c XOR a \<Longrightarrow> b = c" for a b c :: "'a::len word"
  by (auto simp: bit_eq_iff bit_xor_iff)

end
