(* ===== verification/RingBuffer.thy ===== *)
theory RingBuffer
  imports Prelude
begin

text \<open>
  The byte ring buffer of \<^verbatim>\<open>ring_buffer.c\<close>. The pointers of \<^verbatim>\<open>ring_buf_t\<close> are byte
  offsets into the object that holds the buffer; \<open>mem\<close> is that object. Every
  operation that copies out of the object or into it returns \<open>None\<close> when a copy leaves
  it. \<open>contents\<close> is the queue the buffer stands for. The lemmas show that reading,
  peeking, searching, removing and clearing act on that queue, and what writing does to it
  on both sides of the wrap.
\<close>

record ring_buf_t =
  startPtr :: nat
  endPtr :: nat
  rdPtr :: nat
  wrPtr :: nat
  bufSize :: int
  wordByteSize :: int

section \<open>The operations\<close>

definition ringBufInit :: "nat \<Rightarrow> int \<Rightarrow> int \<Rightarrow> ring_buf_t" where
  "ringBufInit buf sz wordSize =
     \<lparr>startPtr = buf, endPtr = buf + nat sz, rdPtr = buf, wrPtr = buf,
      bufSize = sz, wordByteSize = wordSize\<rparr>"

definition ringBufUsed :: "ring_buf_t \<Rightarrow> int" where
  "ringBufUsed rbuf =
     (let bytesUsed = int (wrPtr rbuf) - int (rdPtr rbuf)
      in if bytesUsed < 0 then bytesUsed + bufSize rbuf else bytesUsed)"

definition ringBufFree :: "ring_buf_t \<Rightarrow> int" where
  "ringBufFree rbuf = bufSize rbuf - wordByteSize rbuf - ringBufUsed rbuf"

text \<open>The copy loop of \<^verbatim>\<open>ringBufWrite\<close>. The source pointer \<open>buf\<close> is the same in every
  round.\<close>

partial_function (option) ringBufWrite_loop ::
  "u8 list \<Rightarrow> ring_buf_t \<Rightarrow> u8 list \<Rightarrow> int \<Rightarrow> (u8 list \<times> ring_buf_t) option" where
  "ringBufWrite_loop mem rb buf numBytes =
     (if numBytes > 0 then
        (let bytesToEnd = int (endPtr rb) - int (wrPtr rb) in
         if numBytes \<ge> bytesToEnd then
           do { bs \<leftarrow> obj_rd buf 0 bytesToEnd;
                mem' \<leftarrow> obj_wr mem (wrPtr rb) bs;
                ringBufWrite_loop mem' (rb\<lparr>wrPtr := startPtr rb\<rparr>) buf (numBytes - bytesToEnd) }
         else
           do { bs \<leftarrow> obj_rd buf 0 numBytes;
                mem' \<leftarrow> obj_wr mem (wrPtr rb) bs;
                ringBufWrite_loop mem' (rb\<lparr>wrPtr := wrPtr rb + nat numBytes\<rparr>) buf 0 })
      else Some (mem, rb))"

definition ringBufWrite ::
  "u8 list \<Rightarrow> ring_buf_t \<Rightarrow> u8 list \<Rightarrow> int \<Rightarrow> (bool \<times> u8 list \<times> ring_buf_t) option" where
  "ringBufWrite mem rb buf numBytes =
     (if numBytes \<le> 0 then Some (False, mem, rb)
      else
        (let overflow = numBytes > ringBufFree rb in
         do { (mem', rb') \<leftarrow> ringBufWrite_loop mem rb buf numBytes;
              Some (if overflow then
                      (let rd = wrPtr rb' + nat (wordByteSize rb');
                           rd' = (if rd \<ge> endPtr rb' then startPtr rb' else rd)
                       in (overflow, mem', rb'\<lparr>rdPtr := rd'\<rparr>))
                    else (overflow, mem', rb')) }))"

definition ringBufRead ::
  "u8 list \<Rightarrow> ring_buf_t \<Rightarrow> int \<Rightarrow> (int \<times> u8 list \<times> ring_buf_t) option" where
  "ringBufRead mem rbuf len =
     (let bytesToRead = ringBufUsed rbuf in
      if bytesToRead \<le> 0 then Some (0, [], rbuf)
      else
        (let bytesToRead = (if len < bytesToRead then len else bytesToRead);
             toEnd = int (endPtr rbuf) - int (rdPtr rbuf) in
         if rdPtr rbuf > wrPtr rbuf \<and> bytesToRead > toEnd then
           (let bytesRead1 = toEnd; bytesRead2 = bytesToRead - bytesRead1 in
            do { b1 \<leftarrow> obj_rd mem (rdPtr rbuf) bytesRead1;
                 b2 \<leftarrow> obj_rd mem (startPtr rbuf) bytesRead2;
                 Some (bytesToRead, b1 @ b2, rbuf\<lparr>rdPtr := startPtr rbuf + nat bytesRead2\<rparr>) })
         else
           do { b \<leftarrow> obj_rd mem (rdPtr rbuf) bytesToRead;
                (let rd = rdPtr rbuf + nat bytesToRead in
                 Some (bytesToRead, b,
                       rbuf\<lparr>rdPtr := if rd \<ge> endPtr rbuf then startPtr rbuf else rd\<rparr>)) }))"

definition ringBufPeek ::
  "u8 list \<Rightarrow> ring_buf_t \<Rightarrow> int \<Rightarrow> int \<Rightarrow> (int \<times> u8 list) option" where
  "ringBufPeek mem rbuf len offs =
     (let bytesUsed = ringBufUsed rbuf in
      if bytesUsed \<le> 0 then Some (0, [])
      else if offs \<ge> bytesUsed then Some (0, [])
      else
        (let bytesToRead = (if len < bytesUsed then len else bytesUsed);
             rd0 = int (rdPtr rbuf) + offs;
             rd = (if rd0 \<ge> int (endPtr rbuf) then rd0 - bufSize rbuf else rd0);
             toEnd = int (endPtr rbuf) - rd in
         if rd < 0 then None
         else if rd > int (wrPtr rbuf) \<and> bytesToRead > toEnd then
           do { b1 \<leftarrow> obj_rd mem (nat rd) toEnd;
                b2 \<leftarrow> obj_rd mem (startPtr rbuf) (bytesToRead - toEnd);
                Some (bytesToRead, b1 @ b2) }
         else
           do { b \<leftarrow> obj_rd mem (nat rd) bytesToRead; Some (bytesToRead, b) }))"

text \<open>The searches return the offset one past the character, \<open>None\<close> inside the result for
  the null pointer.\<close>

function ringfindChar2 :: "u8 list \<Rightarrow> nat \<Rightarrow> nat \<Rightarrow> u8 \<Rightarrow> u8 \<Rightarrow> nat option option" where
  "ringfindChar2 mem bufPtr end' c1 c2 =
     (if bufPtr < end' then
        (if bufPtr < length mem then
           (if mem ! bufPtr = c1 \<or> mem ! bufPtr = c2 then Some (Some (bufPtr + 1))
            else ringfindChar2 mem (bufPtr + 1) end' c1 c2)
         else None)
      else Some None)"
  by pat_completeness auto
termination
  by (relation "measure (\<lambda>(mem, p, e, c1, c2). e - p)") auto

function ringfindChar :: "u8 list \<Rightarrow> nat \<Rightarrow> nat \<Rightarrow> u8 \<Rightarrow> nat option option" where
  "ringfindChar mem bufPtr end' c =
     (if bufPtr < end' then
        (if bufPtr < length mem then
           (if mem ! bufPtr = c then Some (Some (bufPtr + 1))
            else ringfindChar mem (bufPtr + 1) end' c)
         else None)
      else Some None)"
  by pat_completeness auto
termination
  by (relation "measure (\<lambda>(mem, p, e, c). e - p)") auto

declare ringfindChar2.simps [simp del] ringfindChar.simps [simp del]

text \<open>The common end of \<^verbatim>\<open>ringBufReadToChar2\<close>: character found, no wrap in the copy.\<close>

definition ringBufTakeTo ::
  "u8 list \<Rightarrow> ring_buf_t \<Rightarrow> nat \<Rightarrow> (int \<times> u8 list \<times> ring_buf_t) option" where
  "ringBufTakeTo mem rbuf fndPtr =
     (let bytesToRead = int fndPtr - int (rdPtr rbuf) in
      do { b \<leftarrow> obj_rd mem (rdPtr rbuf) bytesToRead;
           (let rd = rdPtr rbuf + nat bytesToRead in
            Some (bytesToRead, b,
                  rbuf\<lparr>rdPtr := if rd \<ge> endPtr rbuf then startPtr rbuf else rd\<rparr>)) })"

definition ringBufReadToChar2 ::
  "u8 list \<Rightarrow> ring_buf_t \<Rightarrow> int \<Rightarrow> u8 \<Rightarrow> u8 \<Rightarrow> (int \<times> u8 list \<times> ring_buf_t) option" where
  "ringBufReadToChar2 mem rbuf len c1 c2 =
     (let bytesToRead = ringBufUsed rbuf in
      if bytesToRead \<le> 0 then Some (0, [], rbuf)
      else
        (let bytesToRead = (if len < bytesToRead then len else bytesToRead);
             toEnd = int (endPtr rbuf) - int (rdPtr rbuf) in
         if rdPtr rbuf > wrPtr rbuf \<and> bytesToRead > toEnd then
           do { f \<leftarrow> ringfindChar2 mem (rdPtr rbuf) (endPtr rbuf) c1 c2;
                case f of
                  Some fndPtr \<Rightarrow> ringBufTakeTo mem rbuf fndPtr
                | None \<Rightarrow>
                    (let bytesRead1 = toEnd; bytesRead2 = bytesToRead - bytesRead1 in
                     do { g \<leftarrow> ringfindChar2 mem (startPtr rbuf)
                                 (startPtr rbuf + nat bytesRead2) c1 c2;
                          case g of
                            None \<Rightarrow> Some (0, [], rbuf)
                          | Some fndPtr \<Rightarrow>
                              (let bytesRead2 = int fndPtr - int (startPtr rbuf) in
                               do { b1 \<leftarrow> obj_rd mem (rdPtr rbuf) bytesRead1;
                                    b2 \<leftarrow> obj_rd mem (startPtr rbuf) bytesRead2;
                                    Some (bytesRead1 + bytesRead2, b1 @ b2,
                                          rbuf\<lparr>rdPtr := startPtr rbuf + nat bytesRead2\<rparr>) }) }) }
         else
           do { f \<leftarrow> ringfindChar2 mem (rdPtr rbuf) (nat (int (rdPtr rbuf) + bytesToRead)) c1 c2;
                case f of
                  None \<Rightarrow> Some (0, [], rbuf)
                | Some fndPtr \<Rightarrow> ringBufTakeTo mem rbuf fndPtr }))"

definition ringBufReadToChar ::
  "u8 list \<Rightarrow> ring_buf_t \<Rightarrow> int \<Rightarrow> u8 \<Rightarrow> (int \<times> u8 list \<times> ring_buf_t) option" where
  "ringBufReadToChar mem rbuf len c = ringBufReadToChar2 mem rbuf len c c"

text \<open>\<open>strncmp\<close> on two objects: true when the first \<open>n\<close> characters agree up to and including
  a terminating zero.\<close>

fun strncmp_eq :: "u8 list \<Rightarrow> nat \<Rightarrow> u8 list \<Rightarrow> nat \<Rightarrow> nat \<Rightarrow> bool option" where
  "strncmp_eq a i b j 0 = Some True"
| "strncmp_eq a i b j (Suc n) =
     (if i < length a \<and> j < length b then
        (if a ! i \<noteq> b ! j then Some False
         else if a ! i = 0 then Some True
         else strncmp_eq a (Suc i) b (Suc j) n)
      else None)"

fun ringBufFind_loop ::
  "u8 list \<Rightarrow> ring_buf_t \<Rightarrow> u8 list \<Rightarrow> nat \<Rightarrow> nat \<Rightarrow> nat \<Rightarrow> nat \<Rightarrow> int option" where
  "ringBufFind_loop mem rbuf str len i 0 buf = Some (- 1)"
| "ringBufFind_loop mem rbuf str len i (Suc n) buf =
     do { hit \<leftarrow>
            (if buf + len \<ge> endPtr rbuf then
               (let len1 = buf + len - endPtr rbuf; len2 = len - len1 in
                do { e1 \<leftarrow> strncmp_eq mem buf str 0 len1;
                     if e1 then strncmp_eq mem buf mem (startPtr rbuf) len2 else Some False })
             else strncmp_eq mem buf str 0 len);
          if hit then Some (int i)
          else ringBufFind_loop mem rbuf str len (Suc i) n
                 (if buf + 1 \<ge> endPtr rbuf then startPtr rbuf else buf + 1) }"

definition ringBufFind :: "u8 list \<Rightarrow> ring_buf_t \<Rightarrow> u8 list \<Rightarrow> nat \<Rightarrow> int option" where
  "ringBufFind mem rbuf str len =
     ringBufFind_loop mem rbuf str len 0 (nat (ringBufUsed rbuf)) (rdPtr rbuf)"

definition ringBufRemove :: "ring_buf_t \<Rightarrow> int \<Rightarrow> int \<times> ring_buf_t" where
  "ringBufRemove rbuf len =
     (let bytesToRemove = ringBufUsed rbuf in
      if bytesToRemove \<le> 0 then (0, rbuf)
      else if len \<ge> bytesToRemove then (bytesToRemove, rbuf\<lparr>rdPtr := wrPtr rbuf\<rparr>)
      else
        (let rd = int (rdPtr rbuf) + len;
             rd' = (if rd \<ge> int (endPtr rbuf) then rd - bufSize rbuf else rd)
         in (len, rbuf\<lparr>rdPtr := nat rd'\<rparr>)))"

definition ringBufClear :: "ring_buf_t \<Rightarrow> int \<times> ring_buf_t" where
  "ringBufClear rbuf =
     (ringBufUsed rbuf, rbuf\<lparr>rdPtr := startPtr rbuf, wrPtr := startPtr rbuf\<rparr>)"

definition ringBufEmpty :: "ring_buf_t \<Rightarrow> bool" where
  "ringBufEmpty rbuf \<longleftrightarrow> ringBufUsed rbuf = 0"

section \<open>The queue a buffer stands for\<close>

definition seg :: "u8 list \<Rightarrow> nat \<Rightarrow> nat \<Rightarrow> u8 list" where
  "seg mem a b = drop a (take b mem)"

definition contents :: "u8 list \<Rightarrow> ring_buf_t \<Rightarrow> u8 list" where
  "contents mem rb =
     (if rdPtr rb \<le> wrPtr rb then seg mem (rdPtr rb) (wrPtr rb)
      else seg mem (rdPtr rb) (endPtr rb) @ seg mem (startPtr rb) (wrPtr rb))"

definition rb_wf :: "u8 list \<Rightarrow> ring_buf_t \<Rightarrow> bool" where
  "rb_wf mem rb \<longleftrightarrow>
     startPtr rb \<le> rdPtr rb \<and> rdPtr rb < endPtr rb \<and>
     startPtr rb \<le> wrPtr rb \<and> wrPtr rb < endPtr rb \<and>
     bufSize rb = int (endPtr rb) - int (startPtr rb) \<and> endPtr rb \<le> length mem \<and>
     0 < wordByteSize rb"

lemma seg_empty [simp]: "b \<le> a \<Longrightarrow> seg mem a b = []"
  by (simp add: seg_def)

lemma length_seg [simp]: "b \<le> length mem \<Longrightarrow> length (seg mem a b) = b - a"
  by (simp add: seg_def)

lemma nth_seg: "b \<le> length mem \<Longrightarrow> i < b - a \<Longrightarrow> seg mem a b ! i = mem ! (a + i)"
  by (simp add: seg_def)

lemma seg_cong: "a = a' \<Longrightarrow> b = b' \<Longrightarrow> seg mem a b = seg mem a' b'"
  by simp

lemma take_seg: "take n (seg mem a b) = seg mem a (min b (a + n))"
  by (simp add: seg_def take_drop add.commute min.commute)

lemma drop_seg: "drop n (seg mem a b) = seg mem (a + n) b"
  by (simp add: seg_def add.commute)

lemma obj_rd_seg: "0 \<le> n \<Longrightarrow> a + nat n \<le> length mem \<Longrightarrow> obj_rd mem a n = Some (seg mem a (a + nat n))"
  by (simp add: obj_rd_def seg_def take_drop add.commute)

lemma obj_rd_int: "a + n \<le> length mem \<Longrightarrow> obj_rd mem a (int n) = Some (seg mem a (a + n))"
  by (simp add: obj_rd_seg)

lemma seg_append: "a \<le> b \<Longrightarrow> b \<le> c \<Longrightarrow> c \<le> length mem \<Longrightarrow> seg mem a b @ seg mem b c = seg mem a c"
  by (rule nth_equalityI) (auto simp: nth_append nth_seg add.commute)

lemma seg_wr:
  assumes "p + length bs \<le> length mem"
  shows "b \<le> p \<Longrightarrow> seg (take p mem @ bs @ drop (p + length bs) mem) a b = seg mem a b"
    and "p + length bs \<le> a \<Longrightarrow> b \<le> length mem \<Longrightarrow>
      seg (take p mem @ bs @ drop (p + length bs) mem) a b = seg mem a b"
    and "seg (take p mem @ bs @ drop (p + length bs) mem) p (p + length bs) = bs"
  using assms by (auto intro!: nth_equalityI simp: nth_append nth_seg)

lemma rb_used: "rb_wf mem rb \<Longrightarrow> ringBufUsed rb = int (length (contents mem rb))"
  by (auto simp: rb_wf_def ringBufUsed_def contents_def Let_def)

lemma rb_read:
  assumes wf: "rb_wf mem rb" and len: "0 \<le> len"
  defines "n \<equiv> min (nat len) (length (contents mem rb))"
  shows "\<exists>rb'. ringBufRead mem rb len = Some (int n, take n (contents mem rb), rb') \<and>
     rb_wf mem rb' \<and> contents mem rb' = drop n (contents mem rb)"
proof (cases "ringBufUsed rb \<le> 0")
  case True
  then have "contents mem rb = []" using rb_used [OF wf] by simp
  then show ?thesis using True wf by (simp add: ringBufRead_def n_def)
next
  case False
  let ?n = "if len < ringBufUsed rb then len else ringBufUsed rb"
  have n: "?n = int n" using len by (simp add: n_def rb_used [OF wf])
  have nle: "n \<le> length (contents mem rb)" by (simp add: n_def)
  show ?thesis
  proof (cases "rdPtr rb > wrPtr rb \<and> int n > int (endPtr rb) - int (rdPtr rb)")
    case True
    define n2 where "n2 = n - (endPtr rb - rdPtr rb)"
    have n2: "int n - (int (endPtr rb) - int (rdPtr rb)) = int n2" "startPtr rb + n2 \<le> wrPtr rb"
      "n = endPtr rb - rdPtr rb + n2"
      using True nle wf by (auto simp: n2_def rb_wf_def contents_def)
    have "ringBufRead mem rb len = Some (int n, seg mem (rdPtr rb) (endPtr rb) @
        seg mem (startPtr rb) (startPtr rb + n2), rb\<lparr>rdPtr := startPtr rb + n2\<rparr>)"
      using True False n n2(1,2) wf
      by (simp add: ringBufRead_def Let_def obj_rd_seg rb_wf_def nat_diff_distrib)
    then show ?thesis using True n2(2,3) wf
      by (auto simp: contents_def take_seg drop_seg rb_wf_def min_def)
  next
    case nowrap: False
    have "ringBufRead mem rb len = Some (int n, seg mem (rdPtr rb) (rdPtr rb + n),
        rb\<lparr>rdPtr := if rdPtr rb + n \<ge> endPtr rb then startPtr rb else rdPtr rb + n\<rparr>)"
      using nowrap False n nle wf
      by (auto simp: ringBufRead_def Let_def obj_rd_seg rb_wf_def contents_def)
    then show ?thesis using nowrap nle wf
      by (auto simp: contents_def take_seg drop_seg rb_wf_def min_def intro!: seg_cong)
  qed
qed


lemma ringBufPeek_nat:
  assumes "rb_wf mem rb"
  shows "ringBufPeek mem rb len (int offs) =
     (let bytesUsed = ringBufUsed rb in
      if bytesUsed \<le> 0 then Some (0, [])
      else if int offs \<ge> bytesUsed then Some (0, [])
      else
        (let bytesToRead = (if len < bytesUsed then len else bytesUsed);
             rd0 = rdPtr rb + offs;
             rd = (if rd0 \<ge> endPtr rb then rd0 - nat (bufSize rb) else rd0);
             toEnd = int (endPtr rb) - int rd in
         if rd > wrPtr rb \<and> bytesToRead > toEnd then
           do { b1 \<leftarrow> obj_rd mem rd toEnd;
                b2 \<leftarrow> obj_rd mem (startPtr rb) (bytesToRead - toEnd);
                Some (bytesToRead, b1 @ b2) }
         else
           do { b \<leftarrow> obj_rd mem rd bytesToRead; Some (bytesToRead, b) }))"
proof -
  have b: "bufSize rb = int (endPtr rb - startPtr rb)" using assms by (simp add: rb_wf_def)
  define rd where "rd = (if rdPtr rb + offs \<ge> endPtr rb then rdPtr rb + offs - nat (bufSize rb) else rdPtr rb + offs)"
  have "(if int (rdPtr rb) + int offs \<ge> int (endPtr rb) then int (rdPtr rb) + int offs - bufSize rb
      else int (rdPtr rb) + int offs) = int rd"
    using b by (auto simp: rd_def)
  then show ?thesis by (simp add: ringBufPeek_def Let_def flip: rd_def)
qed

lemma rb_peek:
  assumes wf: "rb_wf mem rb" and fit: "offs + n \<le> length (contents mem rb)"
  shows "ringBufPeek mem rb (int n) (int offs) =
     Some (if offs < length (contents mem rb) then int n else 0, take n (drop offs (contents mem rb)))"
proof (cases "offs < length (contents mem rb)")
  case False
  then show ?thesis using fit rb_used [OF wf] by (auto simp: ringBufPeek_nat [OF wf] Let_def)
next
  case True
  have u: "ringBufUsed rb = int (length (contents mem rb))" by (rule rb_used [OF wf])
  have le: "(if int n < ringBufUsed rb then int n else ringBufUsed rb) = int n"
    using fit by (simp add: u)
  have wf': "startPtr rb \<le> rdPtr rb" "rdPtr rb < endPtr rb" "wrPtr rb < endPtr rb"
    "startPtr rb \<le> wrPtr rb" "bufSize rb = int (endPtr rb - startPtr rb)" "endPtr rb \<le> length mem"
    using wf by (auto simp: rb_wf_def)
  have start: "\<not> ringBufUsed rb \<le> 0" "\<not> ringBufUsed rb \<le> int offs" using True by (auto simp: u)
  consider "rdPtr rb \<le> wrPtr rb"
    | "rdPtr rb > wrPtr rb" "rdPtr rb + offs \<ge> endPtr rb"
    | "rdPtr rb > wrPtr rb" "rdPtr rb + offs < endPtr rb" "rdPtr rb + offs + n \<le> endPtr rb"
    | "rdPtr rb > wrPtr rb" "rdPtr rb + offs < endPtr rb" "rdPtr rb + offs + n > endPtr rb"
    by linarith
  then show ?thesis
  proof cases
    case 1
    then have f: "rdPtr rb + offs + n \<le> wrPtr rb" using fit True wf' by (simp add: contents_def)
    then show ?thesis using 1 True start wf'
      by (simp add: ringBufPeek_nat [OF wf] Let_def le obj_rd_seg contents_def take_seg drop_seg min_def)
  next
    case 2
    define k where "k = rdPtr rb + offs - (endPtr rb - startPtr rb)"
    have k: "k + n \<le> wrPtr rb" "k \<ge> startPtr rb" "k = startPtr rb + (offs - (endPtr rb - rdPtr rb))"
      using fit 2 wf' by (auto simp: k_def contents_def)
    have rd: "(if endPtr rb \<le> rdPtr rb + offs then rdPtr rb + offs - nat (bufSize rb)
        else rdPtr rb + offs) = k" using 2 wf' by (simp add: k_def nat_diff_distrib)
    have "ringBufPeek mem rb (int n) (int offs) = Some (int n, seg mem k (k + n))"
      using 2 start wf' k(1,2) unfolding ringBufPeek_nat [OF wf] Let_def le rd
      by (simp add: obj_rd_seg)
    moreover have "take n (drop offs (contents mem rb)) = seg mem k (k + n)"
      using 2 wf' k by (simp add: contents_def take_seg drop_seg min_def)
    ultimately show ?thesis using True by simp
  next
    case 3
    then show ?thesis using start wf' True
      by (simp add: ringBufPeek_nat [OF wf] Let_def le obj_rd_seg contents_def take_seg drop_seg)
  next
    case 4
    define k where "k = endPtr rb - (rdPtr rb + offs)"
    have k: "endPtr rb = rdPtr rb + offs + k" "k < n" using 4 by (auto simp: k_def)
    have f: "startPtr rb + (n - k) \<le> wrPtr rb" using fit 4 wf' k by (simp add: contents_def)
    have e: "int (endPtr rb) - int (rdPtr rb + offs) = int k" "int n - int k = int (n - k)"
      using k by auto
    have rd: "(if endPtr rb \<le> rdPtr rb + offs then rdPtr rb + offs - nat (bufSize rb)
        else rdPtr rb + offs) = rdPtr rb + offs" using 4 by simp
    have g: "wrPtr rb < rdPtr rb + offs \<and> int k < int n" using 4 k(2) by simp
    have r: "obj_rd mem (rdPtr rb + offs) (int k) = Some (seg mem (rdPtr rb + offs) (endPtr rb))"
      "obj_rd mem (startPtr rb) (int (n - k)) = Some (seg mem (startPtr rb) (startPtr rb + (n - k)))"
      using k(1) f wf'(3,6) by (simp_all add: obj_rd_seg)
    have "ringBufPeek mem rb (int n) (int offs) =
        Some (int n, seg mem (rdPtr rb + offs) (endPtr rb) @ seg mem (startPtr rb) (startPtr rb + (n - k)))"
      unfolding ringBufPeek_nat [OF wf] Let_def le rd e r using start g by simp
    moreover have "n - (endPtr rb - (rdPtr rb + offs)) = n - k" "offs - (endPtr rb - rdPtr rb) = 0"
      using 4 by (auto simp: k_def)
    ultimately show ?thesis using 4 True wf'(6) f
      by (simp add: contents_def take_seg drop_seg)
  qed
qed

lemma rb_remove:
  assumes wf: "rb_wf mem rb" and "0 \<le> len"
  defines "n \<equiv> min (nat len) (length (contents mem rb))"
  shows "\<exists>rb'. ringBufRemove rb len = (int n, rb') \<and> rb_wf mem rb' \<and>
    contents mem rb' = drop n (contents mem rb)"
proof -
  have u: "ringBufUsed rb = int (length (contents mem rb))" by (rule rb_used [OF wf])
  consider "contents mem rb = []"
    | "contents mem rb \<noteq> []" "len \<ge> ringBufUsed rb"
    | "contents mem rb \<noteq> []" "len < ringBufUsed rb" by linarith
  then show ?thesis
  proof cases
    case 3
    then have n: "n = nat len" "n < length (contents mem rb)" using assms(2) by (auto simp: n_def u)
    have "ringBufRemove rb len = (int n, rb\<lparr>rdPtr := if rdPtr rb + n \<ge> endPtr rb
       then startPtr rb + (n - (endPtr rb - rdPtr rb)) else rdPtr rb + n\<rparr>)"
      using 3 n assms(2) wf by (auto simp: ringBufRemove_def Let_def rb_wf_def u)
    then show ?thesis using n(2) wf by (auto simp: contents_def drop_seg rb_wf_def intro!: seg_cong)
  qed (use wf u in \<open>auto simp: ringBufRemove_def n_def Let_def rb_wf_def contents_def\<close>)
qed

lemma rb_clear:
  assumes "rb_wf mem rb"
  shows "rb_wf mem (snd (ringBufClear rb))" "contents mem (snd (ringBufClear rb)) = []"
    "fst (ringBufClear rb) = int (length (contents mem rb))"
  using assms by (simp_all add: rb_used [OF assms] ringBufClear_def) (simp_all add: rb_wf_def contents_def)

definition hit_idx :: "u8 \<Rightarrow> u8 \<Rightarrow> u8 list \<Rightarrow> nat" where
  "hit_idx c1 c2 xs = length (takeWhile (\<lambda>x. x \<noteq> c1 \<and> x \<noteq> c2) xs)"

lemma seg_Cons: "a < b \<Longrightarrow> b \<le> length mem \<Longrightarrow> seg mem a b = mem ! a # seg mem (Suc a) b"
  by (simp add: seg_def Cons_nth_drop_Suc [symmetric])

lemma ringfindChar2_seg:
  "b \<le> length mem \<Longrightarrow> a \<le> b \<Longrightarrow> ringfindChar2 mem a b c1 c2 =
    Some (if hit_idx c1 c2 (seg mem a b) < b - a then Some (a + hit_idx c1 c2 (seg mem a b) + 1) else None)"
proof (induction mem a b c1 c2 rule: ringfindChar2.induct)
  case (1 mem a b c1 c2)
  show ?case
  proof (cases "a < b")
    case True
    have h: "hit_idx c1 c2 (seg mem a b) =
        (if mem ! a = c1 \<or> mem ! a = c2 then 0 else Suc (hit_idx c1 c2 (seg mem (Suc a) b)))"
      using True 1(2) by (simp add: hit_idx_def seg_Cons)
    have s: "a < length mem" "b - a = Suc (b - Suc a)" using True 1(2) by auto
    show ?thesis
    proof (cases "mem ! a = c1 \<or> mem ! a = c2")
      case hit: True
      then show ?thesis using True s h by (subst ringfindChar2.simps) simp
    next
      case miss: False
      then show ?thesis using 1(1) [OF True s(1) miss 1(2)] True s h
        by (subst ringfindChar2.simps) simp
    qed
  next
    case False
    then show ?thesis by (subst ringfindChar2.simps) simp
  qed
qed

lemma hit_idx_le: "hit_idx c1 c2 xs \<le> length xs"
  by (simp add: hit_idx_def length_takeWhile_le)

lemma hit_idx_append:
  "hit_idx c1 c2 (xs @ ys) =
     (if hit_idx c1 c2 xs < length xs then hit_idx c1 c2 xs else length xs + hit_idx c1 c2 ys)"
  by (induction xs) (auto simp: hit_idx_def)

lemma rb_take_to:
  assumes wf: "rb_wf mem rb" and k: "0 < k" "k \<le> length (contents mem rb)" "rdPtr rb + k \<le> endPtr rb"
  shows "\<exists>rb'. ringBufTakeTo mem rb (rdPtr rb + k) = Some (int k, take k (contents mem rb), rb') \<and>
     rb_wf mem rb' \<and> contents mem rb' = drop k (contents mem rb)"
proof -
  have "ringBufTakeTo mem rb (rdPtr rb + k) = Some (int k, seg mem (rdPtr rb) (rdPtr rb + k),
      rb\<lparr>rdPtr := if rdPtr rb + k \<ge> endPtr rb then startPtr rb else rdPtr rb + k\<rparr>)"
    using k wf by (simp add: ringBufTakeTo_def Let_def obj_rd_seg rb_wf_def)
  then show ?thesis using k wf
    by (auto simp: contents_def take_seg drop_seg rb_wf_def min_def intro!: seg_cong)
qed

lemma rb_readToChar2:
  fixes n :: nat and c1 c2 :: u8
  assumes wf: "rb_wf mem rb"
  defines "w \<equiv> take n (contents mem rb)"
  defines "i \<equiv> hit_idx c1 c2 w"
  shows "if i < length w
     then \<exists>rb'. ringBufReadToChar2 mem rb (int n) c1 c2 =
              Some (int (i + 1), take (i + 1) (contents mem rb), rb') \<and>
            rb_wf mem rb' \<and> contents mem rb' = drop (i + 1) (contents mem rb)
     else ringBufReadToChar2 mem rb (int n) c1 c2 = Some (0, [], rb)"
proof -
  have u: "ringBufUsed rb = int (length (contents mem rb))" by (rule rb_used [OF wf])
  define m where "m = min n (length (contents mem rb))"
  have lw: "length w = m" by (simp add: w_def m_def min.commute)
  have wf': "startPtr rb \<le> rdPtr rb" "rdPtr rb < endPtr rb" "wrPtr rb < endPtr rb"
    "startPtr rb \<le> wrPtr rb" "endPtr rb \<le> length mem"
    using wf by (auto simp: rb_wf_def)
  have le: "(if int n < ringBufUsed rb then int n else ringBufUsed rb) = int m"
    by (auto simp: u m_def)
  consider "contents mem rb = []"
    | "contents mem rb \<noteq> []" "rdPtr rb > wrPtr rb" "rdPtr rb + m > endPtr rb"
    | "contents mem rb \<noteq> []" "\<not> (rdPtr rb > wrPtr rb \<and> rdPtr rb + m > endPtr rb)" by blast
  then show ?thesis
  proof cases
    case 1
    then show ?thesis using u by (simp add: ringBufReadToChar2_def Let_def w_def)
  next
    case 2
    define a where "a = endPtr rb - rdPtr rb"
    have a: "endPtr rb = rdPtr rb + a" "a < m" using 2 wf' by (auto simp: a_def)
    have wa: "w = seg mem (rdPtr rb) (endPtr rb) @ seg mem (startPtr rb) (startPtr rb + (m - a))"
      "startPtr rb + (m - a) \<le> wrPtr rb"
      using 2 wf' a by (auto simp: w_def m_def contents_def take_seg min_def intro!: seg_cong)
    have e: "int (endPtr rb) - int (rdPtr rb) = int a" "int m - int a = int (m - a)"
      "nat (int (m - a)) = m - a" using a by auto
    have g: "rdPtr rb > wrPtr rb \<and> int m > int a" using 2 a by simp
    let ?s1 = "seg mem (rdPtr rb) (endPtr rb)"
    let ?s2 = "seg mem (startPtr rb) (startPtr rb + (m - a))"
    define i1 where "i1 = hit_idx c1 c2 ?s1"
    define i2 where "i2 = hit_idx c1 c2 ?s2"
    have f1: "ringfindChar2 mem (rdPtr rb) (endPtr rb) c1 c2 =
        Some (if i1 < a then Some (rdPtr rb + i1 + 1) else None)"
      using wf' by (simp add: ringfindChar2_seg i1_def a_def)
    have f2: "ringfindChar2 mem (startPtr rb) (startPtr rb + (m - a)) c1 c2 =
        Some (if i2 < m - a then Some (startPtr rb + i2 + 1) else None)"
      using wf' wa(2) ringfindChar2_seg [of "startPtr rb + (m - a)" mem "startPtr rb" c1 c2]
      unfolding i2_def by simp
    have len: "length ?s1 = a" using wf' by (simp add: a_def)
    have i: "i = (if i1 < a then i1 else a + i2)"
      by (simp add: i_def wa(1) hit_idx_append i1_def i2_def len)
    note unf = ringBufReadToChar2_def Let_def le e f1 f2
    have used: "\<not> ringBufUsed rb \<le> 0" using 2(1) u by simp
    show ?thesis
    proof (cases "i1 < a")
      case True
      then have "ringBufReadToChar2 mem rb (int n) c1 c2 = ringBufTakeTo mem rb (rdPtr rb + (i1 + 1))"
        using used g unfolding unf by simp
      then show ?thesis
        using rb_take_to [OF wf, of "i1 + 1"] True a lw by (simp add: i m_def)
    next
      case False
      show ?thesis
      proof (cases "i2 < m - a")
        case hit: True
        have r: "obj_rd mem (rdPtr rb) (int a) = Some ?s1"
          "obj_rd mem (startPtr rb) (int (i2 + 1)) = Some (seg mem (startPtr rb) (startPtr rb + (i2 + 1)))"
          using wf' wa(2) hit obj_rd_int [of "rdPtr rb" a mem]
            obj_rd_int [of "startPtr rb" "i2 + 1" mem] by (auto simp: a(1) [symmetric])
        have d: "int (startPtr rb + i2 + 1) - int (startPtr rb) = int (i2 + 1)" by simp
        have "ringBufReadToChar2 mem rb (int n) c1 c2 = Some (int a + int (i2 + 1),
            ?s1 @ seg mem (startPtr rb) (startPtr rb + (i2 + 1)), rb\<lparr>rdPtr := startPtr rb + (i2 + 1)\<rparr>)"
          using used g hit False unfolding unf by (simp add: r [simplified])
        moreover have "rb_wf mem (rb\<lparr>rdPtr := startPtr rb + (i2 + 1)\<rparr>)"
          using wf wf'(3) wa(2) hit unfolding rb_wf_def by simp linarith
        moreover have "take (a + (i2 + 1)) (contents mem rb) = ?s1 @ seg mem (startPtr rb) (startPtr rb + (i2 + 1))"
          "drop (a + (i2 + 1)) (contents mem rb) = seg mem (startPtr rb + (i2 + 1)) (wrPtr rb)"
          using g len wa(2) hit a(1)
          by (auto simp: contents_def take_seg drop_seg min_def intro!: seg_cong)
        ultimately show ?thesis using False hit lw a(2) wa(2)
          by (simp add: i contents_def)
      next
        case miss: False
        then show ?thesis using False used g lw unfolding unf by (simp add: i)
      qed
    qed
  next
    case 3
    have used: "\<not> ringBufUsed rb \<le> 0" using 3(1) u by simp
    have g: "\<not> (rdPtr rb > wrPtr rb \<and> int m > int (endPtr rb) - int (rdPtr rb))" using 3 by auto
    have b: "rdPtr rb + m \<le> endPtr rb" using 3 wf' by (auto simp: m_def contents_def)
    have w: "w = seg mem (rdPtr rb) (rdPtr rb + m)"
      using 3 wf' b by (auto simp: w_def m_def contents_def take_seg min_def intro!: seg_cong)
    have t: "nat (int (rdPtr rb) + int m) = rdPtr rb + m" by simp
    have f: "ringfindChar2 mem (rdPtr rb) (rdPtr rb + m) c1 c2 =
        Some (if i < m then Some (rdPtr rb + (i + 1)) else None)"
      using wf' b by (simp add: ringfindChar2_seg i_def w)
    have "ringBufReadToChar2 mem rb (int n) c1 c2 =
        (if i < m then ringBufTakeTo mem rb (rdPtr rb + (i + 1)) else Some (0, [], rb))"
      using used unfolding ringBufReadToChar2_def Let_def le t f if_not_P [OF g] by simp
    moreover have "m \<le> length (contents mem rb)" by (simp add: m_def)
    ultimately show ?thesis
      using rb_take_to [OF wf, of "i + 1"] b lw by (cases "i < m") simp_all
  qed
qed


lemma write_loop_done: "n \<le> 0 \<Longrightarrow> ringBufWrite_loop mem rb src n = Some (mem, rb)"
  by (subst ringBufWrite_loop.simps) simp

lemma write_loop_fits:
  assumes "int n < int (endPtr rb) - int (wrPtr rb)" "n \<le> length src" "endPtr rb \<le> length mem"
  shows "ringBufWrite_loop mem rb src (int n) =
    Some (take (wrPtr rb) mem @ take n src @ drop (wrPtr rb + n) mem, rb\<lparr>wrPtr := wrPtr rb + n\<rparr>)"
proof (cases "n = 0")
  case True
  then show ?thesis by (simp add: write_loop_done)
next
  case False
  have "obj_rd src 0 (int n) = Some (take n src)" using assms by (simp add: obj_rd_Some)
  moreover have "obj_wr mem (wrPtr rb) (take n src) =
      Some (take (wrPtr rb) mem @ take n src @ drop (wrPtr rb + n) mem)"
    using assms by (simp add: obj_wr_def min_def)
  ultimately show ?thesis using assms False
    by (subst ringBufWrite_loop.simps) (simp add: Let_def write_loop_done)
qed

lemma write_loop_wraps:
  assumes "k = endPtr rb - wrPtr rb" "k \<le> n" "wrPtr rb < endPtr rb" "n \<le> length src" "endPtr rb \<le> length mem"
  shows "ringBufWrite_loop mem rb src (int n) =
    ringBufWrite_loop (take (wrPtr rb) mem @ take k src @ drop (wrPtr rb + k) mem)
      (rb\<lparr>wrPtr := startPtr rb\<rparr>) src (int (n - k))"
proof -
  have k: "int (endPtr rb) - int (wrPtr rb) = int k" "int n - int k = int (n - k)" using assms by auto
  have "obj_rd src 0 (int k) = Some (take k src)"
    using assms obj_rd_int [of 0 k src] by (simp add: seg_def)
  moreover have "obj_wr mem (wrPtr rb) (take k src) =
      Some (take (wrPtr rb) mem @ take k src @ drop (wrPtr rb + k) mem)"
  proof -
    have "length (take k src) = k" "wrPtr rb + k \<le> length mem" using assms by auto
    then show ?thesis unfolding obj_wr_def by simp
  qed
  moreover have "0 < int n" "int k \<le> int n" using assms by auto
  ultimately show ?thesis
    by (subst ringBufWrite_loop.simps) (simp add: Let_def k del: of_nat_diff)
qed

lemma write_loop_returns:
  assumes "startPtr rb \<le> wrPtr rb" "wrPtr rb < endPtr rb" "n \<le> length src" "endPtr rb \<le> length mem"
  shows "\<exists>mem' w. ringBufWrite_loop mem rb src (int n) = Some (mem', rb\<lparr>wrPtr := w\<rparr>) \<and>
    length mem' = length mem \<and> startPtr rb \<le> w \<and> w < endPtr rb"
  using assms
proof (induction n arbitrary: mem rb rule: less_induct)
  case (less n)
  show ?case
  proof (cases "int n < int (endPtr rb) - int (wrPtr rb)")
    case True
    then show ?thesis using write_loop_fits [OF True] less.prems
      by (intro exI [of _ "take (wrPtr rb) mem @ take n src @ drop (wrPtr rb + n) mem"]
            exI [of _ "wrPtr rb + n"]) auto
  next
    case False
    define k where "k = endPtr rb - wrPtr rb"
    let ?mem = "take (wrPtr rb) mem @ take k src @ drop (wrPtr rb + k) mem"
    have "length ?mem = length mem" "n - k < n" using less.prems False by (auto simp: k_def)
    then show ?thesis
      using write_loop_wraps [OF k_def, of n src mem] less.prems False
        less.IH [of "n - k" "rb\<lparr>wrPtr := startPtr rb\<rparr>" ?mem] by (auto simp: k_def)
  qed
qed

lemma rb_write_returns:
  assumes wf: "rb_wf mem rb" and n: "n \<le> length src"
  shows "\<exists>mem' rb'. ringBufWrite mem rb src (int n) = Some (0 < n \<and> int n > ringBufFree rb, mem', rb') \<and>
    rb_wf mem' rb' \<and> length mem' = length mem"
proof (cases "n = 0")
  case True
  then show ?thesis using wf by (simp add: ringBufWrite_def)
next
  case False
  obtain mem' w where l: "ringBufWrite_loop mem rb src (int n) = Some (mem', rb\<lparr>wrPtr := w\<rparr>)"
    "length mem' = length mem" "startPtr rb \<le> w" "w < endPtr rb"
    using write_loop_returns [of rb n src mem] wf n by (auto simp: rb_wf_def)
  then show ?thesis using wf False by (auto simp: ringBufWrite_def Let_def rb_wf_def)
qed

lemma seg_wr':
  assumes "p + n \<le> length mem" "n \<le> length src"
  shows "b \<le> p \<Longrightarrow> seg (take p mem @ take n src @ drop (p + n) mem) a b = seg mem a b"
    and "p + n \<le> a \<Longrightarrow> b \<le> length mem \<Longrightarrow>
      seg (take p mem @ take n src @ drop (p + n) mem) a b = seg mem a b"
    and "seg (take p mem @ take n src @ drop (p + n) mem) p (p + n) = take n src"
    and "length (take p mem @ take n src @ drop (p + n) mem) = length mem"
  using seg_wr [of p "take n src" mem] assms by auto

lemma contents_grow:
  assumes wf: "rb_wf mem rb" and n: "n \<le> length src" "wrPtr rb + n < endPtr rb"
    and free: "wrPtr rb < rdPtr rb \<Longrightarrow> wrPtr rb + n < rdPtr rb"
  defines "mem' \<equiv> take (wrPtr rb) mem @ take n src @ drop (wrPtr rb + n) mem"
  shows "contents mem' (rb\<lparr>wrPtr := wrPtr rb + n\<rparr>) = contents mem rb @ take n src"
    "rb_wf mem' (rb\<lparr>wrPtr := wrPtr rb + n\<rparr>)"
proof -
  have b: "wrPtr rb + n \<le> length mem" using wf n(2) by (simp add: rb_wf_def)
  note sw = seg_wr' [OF b n(1), folded mem'_def]
  have app: "seg mem' a (wrPtr rb + n) = seg mem a (wrPtr rb) @ take n src" if "a \<le> wrPtr rb" for a
    using that seg_append [of a "wrPtr rb" "wrPtr rb + n" mem'] sw(1,3,4) b by simp
  show "contents mem' (rb\<lparr>wrPtr := wrPtr rb + n\<rparr>) = contents mem rb @ take n src"
  proof (cases "rdPtr rb \<le> wrPtr rb")
    case True
    then show ?thesis by (simp add: contents_def app)
  next
    case False
    then show ?thesis using wf free sw(2) by (simp add: contents_def app rb_wf_def)
  qed
  show "rb_wf mem' (rb\<lparr>wrPtr := wrPtr rb + n\<rparr>)" using wf n(2) sw(4) by (simp add: rb_wf_def)
qed

text \<open>Filling the object up to its end and wrapping the write pointer: the contents grow by
  what was copied, seen from a reader that is behind.\<close>

lemma contents_wrap:
  assumes wf: "rb_wf mem rb" and k: "k = endPtr rb - wrPtr rb" "k \<le> length src"
    and free: "rdPtr rb \<le> wrPtr rb" "startPtr rb < rdPtr rb"
  defines "mem' \<equiv> take (wrPtr rb) mem @ take k src @ drop (wrPtr rb + k) mem"
  shows "contents mem' (rb\<lparr>wrPtr := startPtr rb\<rparr>) = contents mem rb @ take k src"
    "rb_wf mem' (rb\<lparr>wrPtr := startPtr rb\<rparr>)"
proof -
  have b: "wrPtr rb + k = endPtr rb" "wrPtr rb + k \<le> length mem" using wf k(1) by (auto simp: rb_wf_def)
  note sw = seg_wr' [OF b(2) k(2), folded mem'_def]
  have "seg mem' (rdPtr rb) (endPtr rb) = seg mem (rdPtr rb) (wrPtr rb) @ take k src"
    using free(1) seg_append [of "rdPtr rb" "wrPtr rb" "wrPtr rb + k" mem'] sw(1,3,4) b by simp
  then show "contents mem' (rb\<lparr>wrPtr := startPtr rb\<rparr>) = contents mem rb @ take k src"
    using free by (simp add: contents_def)
  show "rb_wf mem' (rb\<lparr>wrPtr := startPtr rb\<rparr>)" using wf sw(4) by (simp add: rb_wf_def)
qed

lemma rb_write_contents:
  assumes wf: "rb_wf mem rb" and n: "n \<le> length src" "int n \<le> ringBufFree rb"
  defines "k \<equiv> min n (endPtr rb - wrPtr rb)"
  shows "\<exists>mem' rb'. ringBufWrite mem rb src (int n) = Some (False, mem', rb') \<and> rb_wf mem' rb' \<and>
    contents mem' rb' = contents mem rb @ take k src @ take (n - k) src"
proof -
  have wf': "startPtr rb \<le> rdPtr rb" "rdPtr rb < endPtr rb" "wrPtr rb < endPtr rb"
    "startPtr rb \<le> wrPtr rb" "endPtr rb \<le> length mem"
    using wf by (auto simp: rb_wf_def)
  have free: "n + length (contents mem rb) < endPtr rb - startPtr rb"
    using n(2) wf by (auto simp: ringBufFree_def rb_used [OF wf] rb_wf_def)
  have wr: "ringBufWrite mem rb src (int n) =
      map_option (\<lambda>(m, r). (False, m, r)) (ringBufWrite_loop mem rb src (int n))"
    using n(2) by (cases "ringBufWrite_loop mem rb src (int n)") (cases "n = 0"; auto simp: ringBufWrite_def Let_def write_loop_done)+
  show ?thesis
  proof (cases "n < endPtr rb - wrPtr rb")
    case True
    have "wrPtr rb < rdPtr rb \<Longrightarrow> wrPtr rb + n < rdPtr rb"
      using free wf' by (simp add: contents_def)
    then show ?thesis using wr contents_grow [OF wf n(1)] True write_loop_fits [of n rb src mem] n wf'
      by (simp add: k_def)
  next
    case False
    then have k: "k = endPtr rb - wrPtr rb" "k \<le> n" by (auto simp: k_def)
    let ?mem = "take (wrPtr rb) mem @ take k src @ drop (wrPtr rb + k) mem"
    have r: "rdPtr rb \<le> wrPtr rb" "startPtr rb < rdPtr rb" "startPtr rb + (n - k) < rdPtr rb"
      using free False wf' k by (auto simp: contents_def split: if_splits)
    note cw = contents_wrap [OF wf k(1) _ r(1,2)]
    have "ringBufWrite_loop mem rb src (int n) =
      ringBufWrite_loop ?mem (rb\<lparr>wrPtr := startPtr rb\<rparr>) src (int (n - k))"
      using k n wf' by (intro write_loop_wraps) auto
    moreover have "k \<le> length src" "n - k \<le> length src" using k(2) n(1) by auto
    moreover have "length ?mem = length mem" using k(2) n(1) wf' k(1) by auto
    ultimately show ?thesis
      using wr cw(1) contents_grow [OF cw(2), of src "n - k"] r wf'
        write_loop_fits [of "n - k" "rb\<lparr>wrPtr := startPtr rb\<rparr>" src ?mem]
      by simp
  qed
qed


section \<open>The reader's interface\<close>

text \<open>What a consumer of the buffer relies on: a queue, its length, and a read and a removal
  that take a prefix of it.\<close>

locale byte_fifo =
  fixes inv :: "'b \<Rightarrow> bool" and queue :: "'b \<Rightarrow> u8 list"
    and used :: "'b \<Rightarrow> int"
    and read :: "'b \<Rightarrow> int \<Rightarrow> (int \<times> u8 list \<times> 'b) option"
    and remove :: "'b \<Rightarrow> int \<Rightarrow> int \<times> 'b"
  assumes used_queue: "inv b \<Longrightarrow> used b = int (length (queue b))"
    and read_queue: "inv b \<Longrightarrow> \<exists>b'. read b (int n) =
        Some (int (min n (length (queue b))), take n (queue b), b') \<and>
        inv b' \<and> queue b' = drop n (queue b)"
    and remove_queue: "inv b \<Longrightarrow> \<exists>b'. remove b (int n) = (int (min n (length (queue b))), b') \<and>
        inv b' \<and> queue b' = drop n (queue b)"
begin

lemma read_split:
  assumes "inv b"
  shows "\<exists>b1 b2 xs ys. read b (int n) = Some (int (length xs), xs, b1) \<and>
     read b1 (int m) = Some (int (length ys), ys, b2) \<and>
     xs @ ys = take (n + m) (queue b) \<and> queue b2 = drop (n + m) (queue b) \<and> inv b2"
proof -
  obtain b1 where 1: "read b (int n) = Some (int (min n (length (queue b))), take n (queue b), b1)"
    "inv b1" "queue b1 = drop n (queue b)" using read_queue [OF assms] by blast
  obtain b2 where 2: "read b1 (int m) = Some (int (min m (length (queue b1))), take m (queue b1), b2)"
    "inv b2" "queue b2 = drop m (queue b1)" using read_queue [OF 1(2)] by blast
  show ?thesis
    by (rule exI [of _ b1], rule exI [of _ b2], rule exI [of _ "take n (queue b)"],
        rule exI [of _ "take m (drop n (queue b))"])
      (use 1 2 in \<open>simp add: min.commute take_add [of n m] add.commute [of m n]\<close>)
qed

lemma drain:
  assumes "inv b" "used b \<le> int n"
  shows "\<exists>b'. read b (int n) = Some (used b, queue b, b') \<and> used b' = 0"
  using read_queue [OF assms(1), of n] assms(2) used_queue by (fastforce simp: used_queue [OF assms(1)])

lemma read_removes:
  assumes "inv b"
  shows "\<exists>k xs b1 b2. read b (int n) = Some (k, xs, b1) \<and> remove b (int n) = (k, b2) \<and> queue b1 = queue b2"
  using read_queue [OF assms, of n] remove_queue [OF assms, of n] by fastforce

end

interpretation rb_fifo: byte_fifo "rb_wf mem" "contents mem" ringBufUsed "ringBufRead mem" ringBufRemove
  for mem
proof unfold_locales
  fix b n assume wf: "rb_wf mem b"
  show "ringBufUsed b = int (length (contents mem b))" by (rule rb_used [OF wf])
  show "\<exists>b'. ringBufRead mem b (int n) =
      Some (int (min n (length (contents mem b))), take n (contents mem b), b') \<and>
      rb_wf mem b' \<and> contents mem b' = drop n (contents mem b)"
    using rb_read [OF wf, of "int n"] by (simp add: min_def split: if_splits)
  show "\<exists>b'. ringBufRemove b (int n) = (int (min n (length (contents mem b))), b') \<and>
      rb_wf mem b' \<and> contents mem b' = drop n (contents mem b)"
    using rb_remove [OF wf, of "int n"] by (simp add: min_def split: if_splits)
qed

section \<open>Properties\<close>

text \<open>C22: \<^verbatim>\<open>ringBufWrite\<close> of \<open>n\<close> bytes that fit the free space does not overflow, keeps the
  buffer well formed, and the queue grows by the first \<open>k\<close> bytes of the source, \<open>k\<close> being
  what fits before the end of the object, followed by the first \<open>n - k\<close> bytes of the
  source again: the data is appended as given exactly when it does not cross the end.\<close>

theorem ringBufWrite_queue:
  assumes "rb_wf mem rb" "n \<le> length src" "int n \<le> ringBufFree rb"
  shows "\<exists>mem' rb'. ringBufWrite mem rb src (int n) = Some (False, mem', rb') \<and> rb_wf mem' rb' \<and>
    contents mem' rb' = contents mem rb @ take (min n (endPtr rb - wrPtr rb)) src @
      take (n - min n (endPtr rb - wrPtr rb)) src"
  by (rule rb_write_contents [OF assms])

lemma ringBufWrite_queue_witness:
  "\<exists>mem' rb'. ringBufWrite [1, 2, 3, 4]
      \<lparr>startPtr = 0, endPtr = 4, rdPtr = 2, wrPtr = 3, bufSize = 4, wordByteSize = 1\<rparr> [7, 8] (int 2) =
      Some (False, mem', rb') \<and> rb_wf mem' rb' \<and> contents mem' rb' = [3, 7, 7]"
  using ringBufWrite_queue [of "[1, 2, 3, 4]"
    "\<lparr>startPtr = 0, endPtr = 4, rdPtr = 2, wrPtr = 3, bufSize = 4, wordByteSize = 1\<rparr>" 2 "[7, 8]"]
  by (simp add: rb_wf_def contents_def seg_def ringBufFree_def ringBufUsed_def)

text \<open>C23: \<^verbatim>\<open>ringBufWrite\<close> of any number of source bytes returns, on every path of its copy
  loop stays inside the object and inside the source, reports an overflow exactly when the
  bytes exceed the free space, and leaves a well-formed buffer whatever the overflow.\<close>

theorem ringBufWrite_total:
  assumes "rb_wf mem rb" "n \<le> length src"
  shows "\<exists>mem' rb'. ringBufWrite mem rb src (int n) =
      Some (0 < n \<and> int n > ringBufFree rb, mem', rb') \<and> rb_wf mem' rb' \<and> length mem' = length mem"
  by (rule rb_write_returns [OF assms])

lemma ringBufWrite_total_witness:
  "\<exists>mem' rb'. ringBufWrite [1, 2, 3, 4] (ringBufInit 0 4 1) [5, 6, 7, 8, 9, 10] (int 6) =
      Some (True, mem', rb') \<and> rb_wf mem' rb' \<and> length mem' = length [1, 2, 3, 4 :: u8]"
  using ringBufWrite_total [of "[1, 2, 3, 4]" "ringBufInit 0 4 1" 6 "[5, 6, 7, 8, 9, 10]"]
  by (simp add: rb_wf_def ringBufInit_def ringBufFree_def ringBufUsed_def)

text \<open>C15: a sequence of \<^verbatim>\<open>ringBufRead\<close> calls takes consecutive pieces of the queue, across the
  wrap included: reading \<open>n\<close> and then \<open>m\<close> bytes gives the first \<open>n + m\<close> bytes in order,
  each call returns the number of bytes it gave, and what remains is the rest of the queue.\<close>

theorem ringBufRead_split:
  assumes "rb_wf mem rb"
  shows "\<exists>rb1 rb2 xs ys. ringBufRead mem rb (int n) = Some (int (length xs), xs, rb1) \<and>
     ringBufRead mem rb1 (int m) = Some (int (length ys), ys, rb2) \<and>
     xs @ ys = take (n + m) (contents mem rb) \<and>
     contents mem rb2 = drop (n + m) (contents mem rb) \<and> rb_wf mem rb2"
  by (rule rb_fifo.read_split [OF assms])

lemma ringBufRead_split_witness:
  "\<exists>rb1 rb2 xs ys. ringBufRead [1, 2, 3, 4]
      \<lparr>startPtr = 0, endPtr = 4, rdPtr = 2, wrPtr = 1, bufSize = 4, wordByteSize = 1\<rparr> (int 2) =
      Some (int (length xs), xs, rb1) \<and>
     ringBufRead [1, 2, 3, 4] rb1 (int 1) = Some (int (length ys), ys, rb2) \<and>
     xs @ ys = [3, 4, 1] \<and> contents [1, 2, 3, 4] rb2 = [] \<and> rb_wf [1, 2, 3, 4] rb2"
  using ringBufRead_split [of "[1, 2, 3, 4]"
    "\<lparr>startPtr = 0, endPtr = 4, rdPtr = 2, wrPtr = 1, bufSize = 4, wordByteSize = 1\<rparr>" 2 1]
  by (simp add: rb_wf_def contents_def seg_def)

text \<open>C24: \<^verbatim>\<open>ringBufReadToChar2\<close> searches the first \<open>n\<close> bytes of the queue for either
  character. On a hit it returns the queue up to and including the first one and removes
  exactly that; otherwise it returns 0 and leaves the buffer as it was, whether or not the
  bytes wrap.\<close>

theorem ringBufReadToChar2_queue:
  assumes "rb_wf mem rb"
  shows "(let w = take n (contents mem rb); i = hit_idx c1 c2 w in
    if i < length w
    then \<exists>rb'. ringBufReadToChar2 mem rb (int n) c1 c2 =
              Some (int (i + 1), take (i + 1) (contents mem rb), rb') \<and>
            rb_wf mem rb' \<and> contents mem rb' = drop (i + 1) (contents mem rb)
    else ringBufReadToChar2 mem rb (int n) c1 c2 = Some (0, [], rb))"
  unfolding Let_def by (rule rb_readToChar2 [OF assms])

lemma ringBufReadToChar2_queue_witness:
  "\<exists>rb'. ringBufReadToChar2 [10, 2, 3, 4]
      \<lparr>startPtr = 0, endPtr = 4, rdPtr = 2, wrPtr = 1, bufSize = 4, wordByteSize = 1\<rparr> (int 3) 10 13 =
      Some (3, [3, 4, 10], rb') \<and> contents [10, 2, 3, 4] rb' = []"
  using ringBufReadToChar2_queue [of "[10, 2, 3, 4]"
    "\<lparr>startPtr = 0, endPtr = 4, rdPtr = 2, wrPtr = 1, bufSize = 4, wordByteSize = 1\<rparr>" 3 10 13]
  by (auto simp: rb_wf_def contents_def seg_def hit_idx_def)

text \<open>\<^verbatim>\<open>ringBufPeek\<close> at an offset, asked for no more than the queue holds from there, returns
  the bytes a read would give after skipping the offset, and is refused when the offset is at
  the end of the queue.\<close>

theorem ringBufPeek_queue:
  assumes "rb_wf mem rb" "offs + n \<le> length (contents mem rb)"
  shows "ringBufPeek mem rb (int n) (int offs) =
     Some (if offs < length (contents mem rb) then int n else 0, take n (drop offs (contents mem rb)))"
  by (rule rb_peek [OF assms])

lemma ringBufPeek_queue_witness:
  "ringBufPeek [1, 2, 3, 4]
      \<lparr>startPtr = 0, endPtr = 4, rdPtr = 2, wrPtr = 1, bufSize = 4, wordByteSize = 1\<rparr> (int 2) 1 =
   Some (2, [4, 1])"
  using ringBufPeek_queue [of "[1, 2, 3, 4]"
    "\<lparr>startPtr = 0, endPtr = 4, rdPtr = 2, wrPtr = 1, bufSize = 4, wordByteSize = 1\<rparr>" 1 2]
  by (simp add: rb_wf_def contents_def seg_def)

end
