(* ===== verification/Checksums.thy ===== *)
theory Checksums
  imports Prelude "HOL-Library.Signed_Division"
begin

unbundle bit_operations_syntax

text \<open>
  The checksums and bit readers of the SDK: the 24-bit CRC of RTCM3, the Fletcher and
  XOR checksums of Inertial Sense binary and u-blox packets and the 4-bit CRC of SPARTN
  headers (\<^verbatim>\<open>ISComm.c\<close>), the bit-field readers of \<^verbatim>\<open>ISComm.c\<close> and \<^verbatim>\<open>data_sets.c\<close> and
  the flash checksums of \<^verbatim>\<open>data_sets.c\<close>. A buffer with a length is the list of the bytes
  read. The lemmas relate the table driven CRCs to the bit-serial definition, show what
  the checksums detect and that they can be computed piecewise.
\<close>

section \<open>The 24-bit CRC\<close>

definition TABLE_CRC24Q :: "u32 list" where
  "TABLE_CRC24Q = [
    0x000000, 0x864CFB, 0x8AD50D, 0x0C99F6, 0x93E6E1, 0x15AA1A, 0x1933EC, 0x9F7F17,
    0xA18139, 0x27CDC2, 0x2B5434, 0xAD18CF, 0x3267D8, 0xB42B23, 0xB8B2D5, 0x3EFE2E,
    0xC54E89, 0x430272, 0x4F9B84, 0xC9D77F, 0x56A868, 0xD0E493, 0xDC7D65, 0x5A319E,
    0x64CFB0, 0xE2834B, 0xEE1ABD, 0x685646, 0xF72951, 0x7165AA, 0x7DFC5C, 0xFBB0A7,
    0x0CD1E9, 0x8A9D12, 0x8604E4, 0x00481F, 0x9F3708, 0x197BF3, 0x15E205, 0x93AEFE,
    0xAD50D0, 0x2B1C2B, 0x2785DD, 0xA1C926, 0x3EB631, 0xB8FACA, 0xB4633C, 0x322FC7,
    0xC99F60, 0x4FD39B, 0x434A6D, 0xC50696, 0x5A7981, 0xDC357A, 0xD0AC8C, 0x56E077,
    0x681E59, 0xEE52A2, 0xE2CB54, 0x6487AF, 0xFBF8B8, 0x7DB443, 0x712DB5, 0xF7614E,
    0x19A3D2, 0x9FEF29, 0x9376DF, 0x153A24, 0x8A4533, 0x0C09C8, 0x00903E, 0x86DCC5,
    0xB822EB, 0x3E6E10, 0x32F7E6, 0xB4BB1D, 0x2BC40A, 0xAD88F1, 0xA11107, 0x275DFC,
    0xDCED5B, 0x5AA1A0, 0x563856, 0xD074AD, 0x4F0BBA, 0xC94741, 0xC5DEB7, 0x43924C,
    0x7D6C62, 0xFB2099, 0xF7B96F, 0x71F594, 0xEE8A83, 0x68C678, 0x645F8E, 0xE21375,
    0x15723B, 0x933EC0, 0x9FA736, 0x19EBCD, 0x8694DA, 0x00D821, 0x0C41D7, 0x8A0D2C,
    0xB4F302, 0x32BFF9, 0x3E260F, 0xB86AF4, 0x2715E3, 0xA15918, 0xADC0EE, 0x2B8C15,
    0xD03CB2, 0x567049, 0x5AE9BF, 0xDCA544, 0x43DA53, 0xC596A8, 0xC90F5E, 0x4F43A5,
    0x71BD8B, 0xF7F170, 0xFB6886, 0x7D247D, 0xE25B6A, 0x641791, 0x688E67, 0xEEC29C,
    0x3347A4, 0xB50B5F, 0xB992A9, 0x3FDE52, 0xA0A145, 0x26EDBE, 0x2A7448, 0xAC38B3,
    0x92C69D, 0x148A66, 0x181390, 0x9E5F6B, 0x01207C, 0x876C87, 0x8BF571, 0x0DB98A,
    0xF6092D, 0x7045D6, 0x7CDC20, 0xFA90DB, 0x65EFCC, 0xE3A337, 0xEF3AC1, 0x69763A,
    0x578814, 0xD1C4EF, 0xDD5D19, 0x5B11E2, 0xC46EF5, 0x42220E, 0x4EBBF8, 0xC8F703,
    0x3F964D, 0xB9DAB6, 0xB54340, 0x330FBB, 0xAC70AC, 0x2A3C57, 0x26A5A1, 0xA0E95A,
    0x9E1774, 0x185B8F, 0x14C279, 0x928E82, 0x0DF195, 0x8BBD6E, 0x872498, 0x016863,
    0xFAD8C4, 0x7C943F, 0x700DC9, 0xF64132, 0x693E25, 0xEF72DE, 0xE3EB28, 0x65A7D3,
    0x5B59FD, 0xDD1506, 0xD18CF0, 0x57C00B, 0xC8BF1C, 0x4EF3E7, 0x426A11, 0xC426EA,
    0x2AE476, 0xACA88D, 0xA0317B, 0x267D80, 0xB90297, 0x3F4E6C, 0x33D79A, 0xB59B61,
    0x8B654F, 0x0D29B4, 0x01B042, 0x87FCB9, 0x1883AE, 0x9ECF55, 0x9256A3, 0x141A58,
    0xEFAAFF, 0x69E604, 0x657FF2, 0xE33309, 0x7C4C1E, 0xFA00E5, 0xF69913, 0x70D5E8,
    0x4E2BC6, 0xC8673D, 0xC4FECB, 0x42B230, 0xDDCD27, 0x5B81DC, 0x57182A, 0xD154D1,
    0x26359F, 0xA07964, 0xACE092, 0x2AAC69, 0xB5D37E, 0x339F85, 0x3F0673, 0xB94A88,
    0x87B4A6, 0x01F85D, 0x0D61AB, 0x8B2D50, 0x145247, 0x921EBC, 0x9E874A, 0x18CBB1,
    0xE37B16, 0x6537ED, 0x69AE1B, 0xEFE2E0, 0x709DF7, 0xF6D10C, 0xFA48FA, 0x7C0401,
    0x42FA2F, 0xC4B6D4, 0xC82F22, 0x4E63D9, 0xD11CCE, 0x575035, 0x5BC9C3, 0xDD8538]"

fun crc24_loop :: "u32 \<Rightarrow> u8 list \<Rightarrow> u32" where
  "crc24_loop crc [] = crc"
| "crc24_loop crc (b # bs) =
     crc24_loop (((push_bit 8 crc) AND 0xFFFFFF) XOR
                 TABLE_CRC24Q ! unat (drop_bit 16 crc XOR ucast b)) bs"

definition calculate24BitCRCQ :: "u8 list \<Rightarrow> u32" where
  "calculate24BitCRCQ buffer = crc24_loop 0 buffer"

section \<open>Fletcher and XOR checksums\<close>

fun fletcher_loop :: "u8 \<times> u8 \<Rightarrow> u8 list \<Rightarrow> u8 \<times> u8" where
  "fletcher_loop (a, b) [] = (a, b)"
| "fletcher_loop (a, b) (x # xs) = fletcher_loop (a + x, b + (a + x)) xs"

definition is_comm_fletcher16 :: "u16 \<Rightarrow> u8 list \<Rightarrow> u16" where
  "is_comm_fletcher16 cksum_init dat =
     (let (a, b) = fletcher_loop (lo8 cksum_init, hi8 cksum_init) dat in u16_of a b)"

fun xor16_loop :: "u8 \<times> u8 \<Rightarrow> u8 list \<Rightarrow> u8 \<times> u8" where
  "xor16_loop (a, b) [] = (a, b)"
| "xor16_loop (a, b) (x # xs) = xor16_loop (a XOR x, b XOR (a XOR x)) xs"

definition is_comm_xor16 :: "u16 \<Rightarrow> u8 list \<Rightarrow> u16" where
  "is_comm_xor16 cksum_init dat =
     (let (a, b) = xor16_loop (lo8 cksum_init, hi8 cksum_init) dat in u16_of a b)"

text \<open>The header selects the Fletcher checksum for Inertial Sense binary packets.\<close>

abbreviation is_comm_isb_checksum16 :: "u16 \<Rightarrow> u8 list \<Rightarrow> u16" where
  "is_comm_isb_checksum16 \<equiv> is_comm_fletcher16"

section \<open>Bit fields\<close>

text \<open>The readers do no bounds check: \<open>None\<close> is a read outside the buffer. In
  \<^verbatim>\<open>getBitsAsUInt32\<close> the bound \<open>pos + len\<close> wraps at 32 bits and the index then stays below it;
  \<open>n\<close> counts the iterations that are left.\<close>

definition bit_at :: "u8 list \<Rightarrow> nat \<Rightarrow> u32 option" where
  "bit_at buffer i =
     (if i div 8 < length buffer
      then Some (ucast (drop_bit (7 - i mod 8) (buffer ! (i div 8))) AND 1) else None)"

fun getBits_loop :: "u8 list \<Rightarrow> nat \<Rightarrow> nat \<Rightarrow> u32 \<Rightarrow> u32 option" where
  "getBits_loop buffer i 0 bits = Some bits"
| "getBits_loop buffer i (Suc n) bits =
     do { b \<leftarrow> bit_at buffer i; getBits_loop buffer (Suc i) n (push_bit 1 bits + b) }"

definition getBitsAsUInt32 :: "u8 list \<Rightarrow> u32 \<Rightarrow> u32 \<Rightarrow> u32 option" where
  "getBitsAsUInt32 buffer pos len =
     getBits_loop buffer (unat pos) (unat (pos + len) - unat pos) 0"

text \<open>\<^verbatim>\<open>messageStatsGetbitu\<close> takes signed integers: \<open>pos\<close> and \<open>len\<close> are values of type
  \<open>int\<close>, an overflow of \<open>pos + len\<close> is undefined, and \<open>i / 8\<close> and \<open>i % 8\<close> round towards
  zero, so that for \<open>i\<close> from \<open>-7\<close> to \<open>-1\<close> the shift of the first byte exceeds 7.\<close>

definition int_bit_at :: "u8 list \<Rightarrow> int \<Rightarrow> u32 option" where
  "int_bit_at buff i =
     (let q = i sdiv 8; r = i smod 8 in
      if 0 \<le> q \<and> nat q < length buff
      then Some (ucast (drop_bit (nat (7 - r)) (buff ! nat q)) AND 1) else None)"

fun getbitu_loop :: "u8 list \<Rightarrow> int \<Rightarrow> nat \<Rightarrow> u32 \<Rightarrow> u32 option" where
  "getbitu_loop buff i 0 bits = Some bits"
| "getbitu_loop buff i (Suc n) bits =
     do { b \<leftarrow> int_bit_at buff i; getbitu_loop buff (i + 1) n (push_bit 1 bits + b) }"

definition messageStatsGetbitu :: "u8 list \<Rightarrow> int \<Rightarrow> int \<Rightarrow> u32 option" where
  "messageStatsGetbitu buff pos len =
     (if - (2 ^ 31) \<le> pos + len \<and> pos + len < 2 ^ 31
      then getbitu_loop buff pos (nat len) 0 else None)"

section \<open>The 4-bit CRC\<close>

definition u8CRC_4_TABLE :: "u8 list" where
  "u8CRC_4_TABLE = [
    0x00, 0x0B, 0x05, 0x0E, 0x0A, 0x01, 0x0F, 0x04, 0x07, 0x0C, 0x02, 0x09, 0x0D, 0x06, 0x08, 0x03,
    0x0E, 0x05, 0x0B, 0x00, 0x04, 0x0F, 0x01, 0x0A, 0x09, 0x02, 0x0C, 0x07, 0x03, 0x08, 0x06, 0x0D,
    0x0F, 0x04, 0x0A, 0x01, 0x05, 0x0E, 0x00, 0x0B, 0x08, 0x03, 0x0D, 0x06, 0x02, 0x09, 0x07, 0x0C,
    0x01, 0x0A, 0x04, 0x0F, 0x0B, 0x00, 0x0E, 0x05, 0x06, 0x0D, 0x03, 0x08, 0x0C, 0x07, 0x09, 0x02,
    0x0D, 0x06, 0x08, 0x03, 0x07, 0x0C, 0x02, 0x09, 0x0A, 0x01, 0x0F, 0x04, 0x00, 0x0B, 0x05, 0x0E,
    0x03, 0x08, 0x06, 0x0D, 0x09, 0x02, 0x0C, 0x07, 0x04, 0x0F, 0x01, 0x0A, 0x0E, 0x05, 0x0B, 0x00,
    0x02, 0x09, 0x07, 0x0C, 0x08, 0x03, 0x0D, 0x06, 0x05, 0x0E, 0x00, 0x0B, 0x0F, 0x04, 0x0A, 0x01,
    0x0C, 0x07, 0x09, 0x02, 0x06, 0x0D, 0x03, 0x08, 0x0B, 0x00, 0x0E, 0x05, 0x01, 0x0A, 0x04, 0x0F,
    0x09, 0x02, 0x0C, 0x07, 0x03, 0x08, 0x06, 0x0D, 0x0E, 0x05, 0x0B, 0x00, 0x04, 0x0F, 0x01, 0x0A,
    0x07, 0x0C, 0x02, 0x09, 0x0D, 0x06, 0x08, 0x03, 0x00, 0x0B, 0x05, 0x0E, 0x0A, 0x01, 0x0F, 0x04,
    0x06, 0x0D, 0x03, 0x08, 0x0C, 0x07, 0x09, 0x02, 0x01, 0x0A, 0x04, 0x0F, 0x0B, 0x00, 0x0E, 0x05,
    0x08, 0x03, 0x0D, 0x06, 0x02, 0x09, 0x07, 0x0C, 0x0F, 0x04, 0x0A, 0x01, 0x05, 0x0E, 0x00, 0x0B,
    0x04, 0x0F, 0x01, 0x0A, 0x0E, 0x05, 0x0B, 0x00, 0x03, 0x08, 0x06, 0x0D, 0x09, 0x02, 0x0C, 0x07,
    0x0A, 0x01, 0x0F, 0x04, 0x00, 0x0B, 0x05, 0x0E, 0x0D, 0x06, 0x08, 0x03, 0x07, 0x0C, 0x02, 0x09,
    0x0B, 0x00, 0x0E, 0x05, 0x01, 0x0A, 0x04, 0x0F, 0x0C, 0x07, 0x09, 0x02, 0x06, 0x0D, 0x03, 0x08,
    0x05, 0x0E, 0x00, 0x0B, 0x0F, 0x04, 0x0A, 0x01, 0x02, 0x09, 0x07, 0x0C, 0x08, 0x03, 0x0D, 0x06]"

definition computeCrc4Ccitt :: "u8 list \<Rightarrow> u8" where
  "computeCrc4Ccitt buf =
     fold (\<lambda>b remainder. u8CRC_4_TABLE ! unat (b XOR remainder)) buf 0 AND 0x0F"

section \<open>Flash checksums\<close>

definition u32_of :: "u8 \<Rightarrow> u8 \<Rightarrow> u8 \<Rightarrow> u8 \<Rightarrow> u32" where
  "u32_of a b c d =
     push_bit 24 (ucast d) OR push_bit 16 (ucast c) OR push_bit 8 (ucast b) OR ucast a"

fun words32 :: "u8 list \<Rightarrow> u32 list" where
  "words32 (a # b # c # d # xs) = u32_of a b c d # words32 xs"
| "words32 _ = []"

definition checksum32 :: "u8 list \<Rightarrow> int \<Rightarrow> u32 option" where
  "checksum32 dat count =
     (if count < 1 \<or> count mod 4 \<noteq> 0 then Some 0
      else if nat count \<le> length dat
      then Some (fold (\<lambda>w checksum. checksum XOR w) (words32 (take (nat count) dat)) 0)
      else None)"

definition serialNumChecksum32 :: "u8 list \<Rightarrow> int \<Rightarrow> u32 option" where
  "serialNumChecksum32 dat sz = checksum32 (drop 4 dat) (sz - 4)"

definition flashChecksum32 :: "u8 list \<Rightarrow> int \<Rightarrow> u32 option" where
  "flashChecksum32 dat sz = checksum32 (drop 8 dat) (sz - 8)"

section \<open>Bit-serial reference and linearity of the 24-bit CRC\<close>

definition crc24_bit :: "u32 \<Rightarrow> u32" where
  "crc24_bit x = (push_bit 1 x AND 0xFFFFFF) XOR (if bit x 23 then 0x864CFB else 0)"

definition crc24_bits8 :: "u32 \<Rightarrow> u32" where
  "crc24_bits8 x = crc24_bit (crc24_bit (crc24_bit (crc24_bit (crc24_bit (crc24_bit (crc24_bit (crc24_bit x)))))))"

definition crc24_step :: "u32 \<Rightarrow> u8 \<Rightarrow> u32" where
  "crc24_step crc b = crc24_bits8 (crc XOR push_bit 16 (ucast b))"

definition crc24_ref :: "u8 list \<Rightarrow> u32" where
  "crc24_ref bs = foldl crc24_step 0 bs"

lemma crc24_bit_xor: "crc24_bit (x XOR y) = crc24_bit x XOR crc24_bit y"
  by (rule bit_word_eqI) (auto simp: crc24_bit_def bit_simps)

lemma crc24_bits8_xor: "crc24_bits8 (x XOR y) = crc24_bits8 x XOR crc24_bits8 y"
  by (simp add: crc24_bits8_def crc24_bit_xor)

lemma mask24: "(0xFFFFFF :: u32) = mask 24"
  by (simp add: mask_eq_exp_minus_1)

lemma bit_mask24: "bit (0xFFFFFF :: u32) n \<longleftrightarrow> n < 24"
  unfolding mask24 bit_mask_iff by auto

lemma crc24_bits8_low:
  assumes "take_bit 16 x = x" shows "crc24_bits8 x = push_bit 8 x"
proof -
  note nb = take_bit_selfD [OF assms]
  have step: "crc24_bit (push_bit k x) = push_bit (Suc k) x" if "k \<le> 7" for k
  proof (rule bit_word_eqI)
    fix n assume n: "n < LENGTH(32)"
    have "n < 24" if "bit x (n - Suc k)" using nb [OF that] \<open>k \<le> 7\<close> by arith
    moreover have "\<not> bit (push_bit k x) 23" using nb [of "23 - k"] that by (auto simp: bit_push_bit_iff)
    ultimately show "bit (crc24_bit (push_bit k x)) n = bit (push_bit (Suc k) x) n"
      using n
      unfolding crc24_bit_def push_bit_push_bit bit_xor_iff bit_and_iff bit_mask24
      by (auto simp: bit_push_bit_iff simp del: push_bit_Suc)
  qed
  show ?thesis using step[of 0] step[of 1] step[of 2] step[of 3] step[of 4] step[of 5] step[of 6] step[of 7]
    by (simp add: crc24_bits8_def eval_nat_numeral del: push_bit_Suc)
qed

fun crc24_tab_from :: "u32 \<Rightarrow> u32 list \<Rightarrow> bool" where
  "crc24_tab_from x [] \<longleftrightarrow> True"
| "crc24_tab_from x (t # ts) \<longleftrightarrow> crc24_bits8 x = t \<and> crc24_tab_from (x + 0x10000) ts"

lemma crc24_tab_from_nth:
  "crc24_tab_from x ts \<Longrightarrow> i < length ts \<Longrightarrow> ts ! i = crc24_bits8 (x + word_of_nat i * 0x10000)"
proof (induction x ts arbitrary: i rule: crc24_tab_from.induct)
  case (2 x t ts)
  then show ?case by (cases i) (auto simp: algebra_simps)
qed simp

lemma crc24_tab_ok: "crc24_tab_from 0 TABLE_CRC24Q"
  by (simp add: TABLE_CRC24Q_def crc24_bits8_def[of 0] crc24_bits8_def[of "numeral n" for n] crc24_bit_def[of 0]
    crc24_bit_def[of "numeral n" for n])

lemma length_TABLE_CRC24Q [simp]: "length TABLE_CRC24Q = 256"
  by (simp add: TABLE_CRC24Q_def)

lemma TABLE_CRC24Q_nth: "i < 256 \<Longrightarrow> TABLE_CRC24Q ! i = crc24_bits8 (push_bit 16 (word_of_nat i))"
  using crc24_tab_from_nth [OF crc24_tab_ok, of i] by (simp add: push_bit_eq_mult mult.commute)


lemma crc24_bit_24: "bit (crc24_bit x) n \<Longrightarrow> n < 24"
proof -
  have "(0x864CFB :: u32) = take_bit 24 0x864CFB" by simp
  then have c: "bit (0x864CFB :: u32) n \<Longrightarrow> n < 24" by (metis bit_take_bit_iff)
  show "bit (crc24_bit x) n \<Longrightarrow> n < 24"
    using c unfolding crc24_bit_def bit_xor_iff bit_and_iff bit_mask24
    by (auto split: if_splits)
qed

lemma take_bit_24_crc24_bit [simp]: "take_bit 24 (crc24_bit x) = crc24_bit x"
  by (rule bit_word_eqI) (auto simp: bit_take_bit_iff dest: crc24_bit_24)

lemma take_bit_24_crc24_step [simp]: "take_bit 24 (crc24_step c b) = crc24_step c b"
  by (simp add: crc24_step_def crc24_bits8_def)


lemma crc24_table_step:
  assumes c: "take_bit 24 crc = crc"
  shows "((push_bit 8 crc) AND 0xFFFFFF) XOR TABLE_CRC24Q ! unat (drop_bit 16 crc XOR ucast b)
    = crc24_step crc b"
proof -
  define hi where "hi = drop_bit 16 crc XOR (ucast b :: u32)"
  note cb = take_bit_selfD [OF c]
  have "n < 8" if "bit hi n" for n
    using that cb [of "16 + n"] by (auto simp: hi_def bit_simps dest: bit_imp_le_length)
  then have "take_bit 8 hi = hi" by (auto intro!: bit_word_eqI simp: bit_take_bit_iff)
  then have "unat hi = take_bit 8 (unat hi)" by (metis unsigned_take_bit_eq)
  then have hi8: "unat hi < 256" using take_bit_nat_less_exp [of 8 "unat hi"] by simp
  have x: "crc XOR push_bit 16 (ucast b) = push_bit 16 hi XOR take_bit 16 crc"
    by (rule bit_word_eqI) (auto simp: hi_def bit_simps)
  have lo: "push_bit 8 (take_bit 16 crc) = push_bit 8 crc AND 0xFFFFFF"
    unfolding mask24 by (rule bit_word_eqI)
      (auto simp: bit_and_iff bit_push_bit_iff bit_take_bit_iff bit_mask_iff simp del: mask_numeral)
  have "crc24_step crc b = crc24_bits8 (push_bit 16 hi) XOR crc24_bits8 (take_bit 16 crc)"
    by (simp add: crc24_step_def x crc24_bits8_xor)
  also have "\<dots> = TABLE_CRC24Q ! unat hi XOR (push_bit 8 crc AND 0xFFFFFF)"
    using TABLE_CRC24Q_nth [OF hi8] crc24_bits8_low [of "take_bit 16 crc"] by (simp add: lo)
  finally show ?thesis by (simp add: hi_def ac_simps)
qed

lemma crc24_loop_steps: "take_bit 24 crc = crc \<Longrightarrow> crc24_loop crc bs = foldl crc24_step crc bs"
  by (induction bs arbitrary: crc) (simp_all add: crc24_table_step)

lemma calculate24BitCRCQ_foldl: "calculate24BitCRCQ bs = foldl crc24_step 0 bs"
  by (simp add: calculate24BitCRCQ_def crc24_loop_steps)

lemma foldl_crc24_24: "take_bit 24 crc = crc \<Longrightarrow> take_bit 24 (foldl crc24_step crc bs) = foldl crc24_step crc bs"
  by (induction bs arbitrary: crc) simp_all

lemma crc24_bit_zero:
  assumes "take_bit 24 x = x" "crc24_bit x = 0" shows "x = 0"
proof -
  have "bit (crc24_bit x) 0 = bit x 23"
    unfolding crc24_bit_def bit_xor_iff bit_and_iff bit_mask24 bit_push_bit_iff by simp
  with assms(2) have nb: "\<not> bit x 23" by simp
  have "\<not> bit x n" for n
  proof
    assume n: "bit x n"
    from take_bit_selfD [OF assms(1) n] n nb have "n < 23" by (cases "n = 23") auto
    with n nb have "bit (crc24_bit x) (Suc n)"
      unfolding crc24_bit_def bit_xor_iff bit_and_iff bit_mask24 bit_push_bit_iff by simp
    with assms(2) show False by simp
  qed
  then show ?thesis by (auto intro: bit_word_eqI)
qed

lemma crc24_bits8_zero: "take_bit 24 x = x \<Longrightarrow> crc24_bits8 x = 0 \<Longrightarrow> x = 0"
  by (auto simp: crc24_bits8_def dest!: crc24_bit_zero [rotated])

lemma crc24_bits8_inj:
  assumes "take_bit 24 x = x" "take_bit 24 y = y" "crc24_bits8 x = crc24_bits8 y" shows "x = y"
proof -
  have "crc24_bits8 (x XOR y) = 0" by (simp add: crc24_bits8_xor assms(3))
  moreover have "take_bit 24 (x XOR y) = x XOR y" using assms by (simp add: take_bit_xor)
  ultimately have "x XOR y = 0" by (rule crc24_bits8_zero [rotated])
  then have "x XOR y = y XOR y" by simp
  then show ?thesis by (rule xor_right_cancel)
qed


lemma crc24_step_inj:
  assumes "take_bit 24 c = c" "take_bit 24 d = d" "crc24_step c b = crc24_step d b'"
  shows "c XOR push_bit 16 (ucast b) = d XOR push_bit 16 (ucast b')"
proof -
  have t: "take_bit 24 (e XOR push_bit 16 (ucast b)) = e XOR push_bit 16 (ucast b)"
    if "take_bit 24 e = e" for e :: u32 and b :: u8
  proof -
    have "n < 24" if "bit (push_bit 16 (ucast b) :: u32) n" for n
      using that by (auto simp: bit_simps dest: bit_imp_le_length)
    then have "take_bit 24 (push_bit 16 (ucast b) :: u32) = push_bit 16 (ucast b)"
      by (auto intro!: bit_word_eqI simp: bit_take_bit_iff)
    then show ?thesis using \<open>take_bit 24 e = e\<close> by simp
  qed
  show ?thesis
    using crc24_bits8_inj [OF t [OF assms(1)] t [OF assms(2)]] assms(3) by (simp add: crc24_step_def)
qed

lemma foldl_crc24_inj:
  "take_bit 24 c = c \<Longrightarrow> take_bit 24 d = d \<Longrightarrow> foldl crc24_step c bs = foldl crc24_step d bs \<Longrightarrow> c = d"
proof (induction bs arbitrary: c d)
  case (Cons b bs)
  have "crc24_step c b = crc24_step d b"
    by (rule Cons.IH) (use Cons.prems in simp_all)
  from crc24_step_inj [OF Cons.prems(1,2) this] show ?case
    by (rule xor_right_cancel)
qed simp

lemma push_ucast_inj: "push_bit 16 (ucast b :: u32) = push_bit 16 (ucast b') \<Longrightarrow> b = b'" for b b' :: u8
proof (rule bit_word_eqI)
  fix n assume eq: "push_bit 16 (ucast b :: u32) = push_bit 16 (ucast b')" and n: "n < LENGTH(8)"
  from n arg_cong [OF eq, of "\<lambda>w. bit w (16 + n)"] show "bit b n = bit b' n"
    by (simp add: bit_simps)
qed

definition crc24_bytes :: "u32 \<Rightarrow> u8 list" where
  "crc24_bytes c = [ucast (drop_bit 16 c), ucast (drop_bit 8 c), ucast c]"

lemma crc24_step_own:
  assumes "take_bit 24 c = c"
  shows "crc24_step c (ucast (drop_bit 16 c)) = push_bit 8 (take_bit 16 c)"
proof -
  have "c XOR push_bit 16 (ucast (ucast (drop_bit 16 c) :: u8)) = take_bit 16 c"
  proof (rule bit_word_eqI)
    fix n show "bit (c XOR push_bit 16 (ucast (ucast (drop_bit 16 c) :: u8))) n = bit (take_bit 16 c) n"
      using take_bit_selfD [OF assms, of n] by (auto simp: bit_simps)
  qed
  then show ?thesis by (simp add: crc24_step_def crc24_bits8_low)
qed



section \<open>The Fletcher checksum\<close>

lemma fletcher_loop_append: "fletcher_loop s (xs @ ys) = fletcher_loop (fletcher_loop s xs) ys"
  by (induction s xs rule: fletcher_loop.induct) auto

lemma is_comm_fletcher16_append:
  "is_comm_fletcher16 c (xs @ ys) = is_comm_fletcher16 (is_comm_fletcher16 c xs) ys"
  by (simp add: is_comm_fletcher16_def fletcher_loop_append split: prod.splits)

lemma is_comm_fletcher16_Nil [simp]: "is_comm_fletcher16 c [] = c"
  by (simp add: is_comm_fletcher16_def)

lemma fletcher_loop_sum:
  "fletcher_loop (a, b) xs =
     (a + sum_list xs, b + (\<Sum>k < length xs. a + sum_list (take (Suc k) xs)))"
proof (induction xs arbitrary: a b)
  case (Cons x xs)
  have "(\<Sum>k < length (x # xs). a + sum_list (take (Suc k) (x # xs))) =
      (a + x) + (\<Sum>k < length xs. (a + x) + sum_list (take (Suc k) xs))"
    by (simp add: sum.lessThan_Suc_shift add.assoc del: sum.lessThan_Suc)
  with Cons show ?case by (simp add: add.assoc)
qed simp

lemma fletcher_loop_diff:
  "fletcher_loop (a, b) xs = (a', b') \<Longrightarrow>
   fletcher_loop (a + d, b + e) xs = (a' + d, b' + e + of_nat (length xs) * d)"
proof (induction xs arbitrary: a b e)
  case (Cons x xs)
  then have "fletcher_loop (a + x + d, b + (a + x) + (e + d)) xs = (a' + d, b' + (e + d) + of_nat (length xs) * d)"
    by simp
  then show ?case by (simp add: algebra_simps)
qed simp

lemma fletcher16_detects_byte:
  assumes "x \<noteq> y"
  shows "is_comm_fletcher16 c (xs @ x # ys) \<noteq> is_comm_fletcher16 c (xs @ y # ys)"
  using assms by (auto simp: is_comm_fletcher16_def fletcher_loop_sum)

lemma fletcher16_detects_swap:
  assumes "x \<noteq> y"
  shows "is_comm_fletcher16 c (xs @ x # y # ys) \<noteq> is_comm_fletcher16 c (xs @ y # x # ys)"
proof
  obtain a b where s: "fletcher_loop (lo8 c, hi8 c) xs = (a, b)" by fastforce
  obtain p q where 1: "fletcher_loop (a + x + y, b + (a + x) + (a + x + y)) ys = (p, q)" by fastforce
  have "fletcher_loop ((a + x + y) + 0, (b + (a + x) + (a + x + y)) + (y - x)) ys = (p + 0, q + (y - x) + of_nat (length ys) * 0)"
    by (rule fletcher_loop_diff [OF 1])
  then have 2: "fletcher_loop (a + y + x, b + (a + y) + (a + y + x)) ys = (p, q + (y - x))"
    by (simp add: algebra_simps)
  assume "is_comm_fletcher16 c (xs @ x # y # ys) = is_comm_fletcher16 c (xs @ y # x # ys)"
  with 1 2 assms show False by (simp add: is_comm_fletcher16_def fletcher_loop_append s)
qed

text \<open>The value of a field inside the buffer: a fold over its bits.\<close>

definition bit_field :: "u8 list \<Rightarrow> nat \<Rightarrow> nat \<Rightarrow> u32" where
  "bit_field buf pos len =
     fold (\<lambda>i bits. push_bit 1 bits + of_bool (bit (buf ! (i div 8)) (7 - i mod 8))) [pos ..< pos + len] 0"

lemma bit_at_of_bool:
  "i < 8 * length buf \<Longrightarrow> bit_at buf i = Some (of_bool (bit (buf ! (i div 8)) (7 - i mod 8)))"
proof -
  have "ucast (drop_bit (7 - i mod 8) x) AND 1 = (of_bool (bit x (7 - i mod 8)) :: u32)" for x :: u8
    by (rule bit_word_eqI) (auto simp: bit_simps)
  then show "i < 8 * length buf \<Longrightarrow> ?thesis"
    by (simp add: bit_at_def div_less_iff_less_mult mult.commute)
qed

lemma bit_at_None: "8 * length buf \<le> i \<Longrightarrow> bit_at buf i = None"
  by (auto simp: bit_at_def div_less_iff_less_mult mult.commute)

lemma int_bit_at_nat: "int_bit_at buf (int i) = bit_at buf i"
proof -
  have "int i sdiv 8 = int (i div 8)" "int i smod 8 = int (i mod 8)"
    by (simp_all add: signed_divide_int_def signed_modulo_int_def zdiv_int zmod_int sgn_if)
  moreover have "nat (7 - int (i mod 8)) = 7 - i mod 8" by linarith
  ultimately show ?thesis by (simp add: int_bit_at_def bit_at_def Let_def)
qed

lemma getbitu_loop_nat: "getbitu_loop buf (int i) n bits = getBits_loop buf i n bits"
proof (induction n arbitrary: i bits)
  case (Suc n)
  have "int i + 1 = int (Suc i)" by simp
  then show ?case using Suc by (simp only: getbitu_loop.simps getBits_loop.simps int_bit_at_nat)
qed simp

lemma getBits_loop_inside:
  "i + n \<le> 8 * length buf \<Longrightarrow> getBits_loop buf i n bits =
     Some (fold (\<lambda>i bits. push_bit 1 bits + of_bool (bit (buf ! (i div 8)) (7 - i mod 8))) [i ..< i + n] bits)"
  by (induction n arbitrary: i bits) (simp_all add: bit_at_of_bool upt_conv_Cons del: upt_Suc)

lemma getBits_loop_outside:
  "8 * length buf < i + n \<Longrightarrow> 0 < n \<Longrightarrow> getBits_loop buf i n bits = None"
proof (induction n arbitrary: i bits)
  case (Suc n)
  then show ?case
    by (cases "n = 0") (auto simp: bit_at_None bind_eq_None_conv)
qed simp

lemma bit_field_bit:
  "len \<le> 32 \<Longrightarrow> bit (bit_field buf pos len) k \<longleftrightarrow>
     k < len \<and> bit (buf ! ((pos + len - 1 - k) div 8)) (7 - (pos + len - 1 - k) mod 8)"
proof (induction len arbitrary: k)
  case 0 then show ?case by (simp add: bit_field_def)
next
  case (Suc len)
  have *: "bit (push_bit 1 x + of_bool c) k \<longleftrightarrow> (if k = 0 then c else k < 32 \<and> bit x (k - 1))"
    for x :: u32 and c
  proof -
    have "push_bit 1 x + of_bool c = push_bit 1 x OR of_bool c"
      by (rule disjunctive_add) (auto simp only: bit_push_bit_iff bit_of_bool_iff)
    then show ?thesis
      by (cases "k = 0") (simp_all only: bit_or_iff bit_push_bit_iff bit_of_bool_iff, auto)
  qed
  have "bit_field buf pos (Suc len) = push_bit 1 (bit_field buf pos len) +
      of_bool (bit (buf ! ((pos + len) div 8)) (7 - (pos + len) mod 8))" by (simp add: bit_field_def)
  then show ?case using Suc * by (cases k) (simp_all only:, auto)
qed

lemma getBits_inside:
  assumes "unat pos + unat len \<le> 8 * length buf" "unat pos + unat len < 2 ^ 32"
  shows "getBitsAsUInt32 buf pos len = Some (bit_field buf (unat pos) (unat len))"
proof -
  have "unat (pos + len) = unat pos + unat len" using assms(2) by (simp add: unat_word_ariths)
  then show ?thesis
    using getBits_loop_inside [OF assms(1)] by (simp add: getBitsAsUInt32_def bit_field_def)
qed

lemma getbitu_inside:
  assumes "0 \<le> pos" "0 \<le> len" "pos + len < 2 ^ 31" "nat pos + nat len \<le> 8 * length buf"
  shows "messageStatsGetbitu buf pos len = Some (bit_field buf (nat pos) (nat len))"
  using getBits_loop_inside [OF assms(4)] getbitu_loop_nat [of buf "nat pos" "nat len" 0] assms
  by (simp add: messageStatsGetbitu_def bit_field_def)

text \<open>C31: Both bit-field readers, on a field of at most 32 bits whose position and length the
  type \<open>int\<close> can add: inside the buffer both return the big endian number whose bit \<open>k\<close>
  is stream bit \<open>pos + len - 1 - k\<close>, and a field that is not empty and not inside makes both
  read outside the buffer.\<close>

theorem bit_field_readers:
  assumes "unat len \<le> 32" "unat pos + unat len < 2 ^ 31"
  shows "if unat pos + unat len \<le> 8 * length buff
    then \<exists>v. getBitsAsUInt32 buff pos len = Some v \<and>
      messageStatsGetbitu buff (uint pos) (uint len) = Some v \<and>
      (\<forall>k. bit v k \<longleftrightarrow> k < unat len \<and>
         bit (buff ! ((unat pos + unat len - 1 - k) div 8)) (7 - (unat pos + unat len - 1 - k) mod 8))
    else len \<noteq> 0 \<longrightarrow> getBitsAsUInt32 buff pos len = None \<and>
      messageStatsGetbitu buff (uint pos) (uint len) = None"
proof -
  have u: "unat (pos + len) = unat pos + unat len" using assms(2) by (simp add: unat_word_ariths)
  have "int (unat pos + unat len) < int (2 ^ 31)" using assms(2) by (simp only: of_nat_less_iff)
  then have s: "uint pos + uint len < 2 ^ 31" by simp
  have "- (2 ^ 31) \<le> (0 :: int)" "0 \<le> uint pos + uint len" by simp_all
  then have s0: "- (2 ^ 31) \<le> uint pos + uint len" by (rule order_trans)
  have r: "getBitsAsUInt32 buff pos len = getBits_loop buff (unat pos) (unat len) 0"
    "messageStatsGetbitu buff (uint pos) (uint len) = getBits_loop buff (unat pos) (unat len) 0"
    using u s s0 getbitu_loop_nat [of buff "unat pos" "unat len" 0]
    by (simp_all add: getBitsAsUInt32_def messageStatsGetbitu_def)
  show ?thesis
    unfolding r
    using getBits_loop_inside [of "unat pos" "unat len" buff 0] bit_field_bit [OF assms(1), of buff "unat pos"]
      getBits_loop_outside [of buff "unat pos" "unat len" 0]
    by (auto simp: bit_field_def unat_gt_0)
qed

theorem bit_field_readers_witness:
  "\<exists>v. getBitsAsUInt32 [0xD3, 0x00, 0x13] 14 10 = Some v \<and>
     messageStatsGetbitu [0xD3, 0x00, 0x13] 14 10 = Some v \<and> bit v 4"
  using bit_field_readers [of 10 14 "[0xD3, 0x00, 0x13]"] by auto

definition crc4_bit :: "u8 \<Rightarrow> u8" where
  "crc4_bit x = drop_bit 1 x XOR (if bit x 0 then 9 else 0)"

definition crc4_bits8 :: "u8 \<Rightarrow> u8" where
  "crc4_bits8 x = crc4_bit (crc4_bit (crc4_bit (crc4_bit (crc4_bit (crc4_bit (crc4_bit (crc4_bit x)))))))"

fun crc4_tab_from :: "u8 \<Rightarrow> u8 list \<Rightarrow> bool" where
  "crc4_tab_from x [] \<longleftrightarrow> True"
| "crc4_tab_from x (t # ts) \<longleftrightarrow> (crc4_bits8 x = t \<and> t < 16) \<and> crc4_tab_from (x + 1) ts"

lemma crc4_tab_from_nth:
  "crc4_tab_from x ts \<Longrightarrow> i < length ts \<Longrightarrow> ts ! i = crc4_bits8 (x + word_of_nat i) \<and> ts ! i < 16"
proof (induction x ts arbitrary: i rule: crc4_tab_from.induct)
  case (2 x t ts)
  then show ?case by (cases i) (auto simp: algebra_simps, metis)
qed simp

lemma crc4_tab_ok: "crc4_tab_from 0 u8CRC_4_TABLE"
  by (simp add: u8CRC_4_TABLE_def crc4_bits8_def[of 0] crc4_bits8_def[of 1] crc4_bits8_def[of "numeral n" for n]
    crc4_bit_def[of 0] crc4_bit_def[of 1] crc4_bit_def[of "numeral n" for n])


lemma u8CRC_4_TABLE_nth: "u8CRC_4_TABLE ! unat x = crc4_bits8 x \<and> u8CRC_4_TABLE ! unat x < 16"
proof -
  have "length u8CRC_4_TABLE = 256" by (simp add: u8CRC_4_TABLE_def)
  moreover have "unat x < 256" using unsigned_less [of x, where 'a = nat] by simp
  ultimately have "unat x < length u8CRC_4_TABLE" by (simp only:)
  from crc4_tab_from_nth [OF crc4_tab_ok this] show ?thesis
    unfolding add_0 of_nat_unat ucast_id .
qed

lemma crc4_bits8_less: "crc4_bits8 x < 16"
  using u8CRC_4_TABLE_nth [of x] by metis

text \<open>C30: The table driven 4-bit CRC of SPARTN headers is the bit-serial, least significant
  bit first CRC with the polynomial pattern 9, for every header.\<close>

theorem computeCrc4Ccitt_bitwise:
  "computeCrc4Ccitt buf = fold (\<lambda>b r. crc4_bits8 (b XOR r)) buf 0"
proof -
  have lt: "fold (\<lambda>b r. crc4_bits8 (b XOR r)) buf r < 16" if "r < 16" for r
    using that by (induction buf arbitrary: r) (auto simp: crc4_bits8_less)
  have "r AND 0x0F = r" if "r < 16" for r :: u8
  proof -
    have "(0x0F :: u8) = mask 4" by (simp add: mask_eq_exp_minus_1)
    then show ?thesis using less_mask_eq [of r 4] that by simp
  qed
  then show ?thesis using lt [of 0] by (simp add: computeCrc4Ccitt_def u8CRC_4_TABLE_nth)
qed

section \<open>What the checksums detect\<close>

text \<open>C12: The table driven 24-bit CRC computes, for every message, the bit-serial CRC with the
  generator 0x1864CFB: every entry of the 256-entry table is right.\<close>

theorem calculate24BitCRCQ_bitwise: "calculate24BitCRCQ bs = crc24_ref bs"
  by (simp add: calculate24BitCRCQ_foldl crc24_ref_def)

text \<open>C28: The 24-bit CRC changes whenever a single byte of the message changes.\<close>

theorem crc24_detects_byte:
  assumes "x \<noteq> y"
  shows "calculate24BitCRCQ (xs @ x # ys) \<noteq> calculate24BitCRCQ (xs @ y # ys)"
proof
  define c where "c = foldl crc24_step 0 xs"
  have c: "take_bit 24 c = c" by (simp add: c_def foldl_crc24_24)
  assume "calculate24BitCRCQ (xs @ x # ys) = calculate24BitCRCQ (xs @ y # ys)"
  then have "foldl crc24_step (crc24_step c x) ys = foldl crc24_step (crc24_step c y) ys"
    by (simp add: calculate24BitCRCQ_foldl c_def)
  then have "crc24_step c x = crc24_step c y"
    by (rule foldl_crc24_inj [rotated 2]) simp_all
  from crc24_step_inj [OF c c this] have "push_bit 16 (ucast x :: u32) = push_bit 16 (ucast y)"
    by (rule xor_left_cancel)
  with assms show False by (auto dest: push_ucast_inj)
qed

theorem crc24_detects_byte_witness:
  "(0x13 :: u8) \<noteq> 0x17 \<and> calculate24BitCRCQ [0xD3, 0x00, 0x13, 0x3E] \<noteq> calculate24BitCRCQ [0xD3, 0x00, 0x17, 0x3E]"
  using crc24_detects_byte [where x = "0x13" and y = "0x17" and xs = "[0xD3, 0x00]" and ys = "[0x3E]"] by simp

text \<open>A message followed by its own 24-bit CRC, most significant byte first, has CRC zero.\<close>

theorem crc24_append_zero: "calculate24BitCRCQ (bs @ crc24_bytes (calculate24BitCRCQ bs)) = 0"
proof -
  define c where "c = foldl crc24_step 0 bs"
  have c: "take_bit 24 c = c" by (simp add: c_def foldl_crc24_24)
  define d where "d = push_bit 8 (take_bit 16 c)"
  have d: "take_bit 24 d = d" "ucast (drop_bit 16 d) = (ucast (drop_bit 8 c) :: u8)"
    unfolding d_def by (auto intro!: bit_word_eqI simp: bit_simps)
  define e where "e = push_bit 8 (take_bit 16 d)"
  have e: "take_bit 24 e = e" "ucast (drop_bit 16 e) = (ucast c :: u8)" "push_bit 8 (take_bit 16 e) = 0"
    unfolding e_def d_def by (auto intro!: bit_word_eqI simp: bit_simps)
  have "foldl crc24_step c (crc24_bytes c) = 0"
    using crc24_step_own [OF c] crc24_step_own [OF d(1)] crc24_step_own [OF e(1)] e(3)
    by (simp add: crc24_bytes_def d_def [symmetric] e_def [symmetric] d(2) [symmetric] e(2)[symmetric])
  then show ?thesis by (simp add: calculate24BitCRCQ_foldl c_def)
qed

text \<open>C29: The Fletcher checksum changes when one byte of the packet changes and when two
  different neighbouring bytes are exchanged, wherever they are in the packet.\<close>

theorem fletcher16_detects:
  assumes "x \<noteq> y"
  shows "is_comm_fletcher16 c (xs @ x # ys) \<noteq> is_comm_fletcher16 c (xs @ y # ys) \<and>
    is_comm_fletcher16 c (xs @ x # y # ys) \<noteq> is_comm_fletcher16 c (xs @ y # x # ys)"
  using fletcher16_detects_byte [OF assms] fletcher16_detects_swap [OF assms] by blast

theorem fletcher16_detects_witness:
  "(3 :: u8) \<noteq> 4 \<and> is_comm_fletcher16 0 [1, 3, 4, 9] \<noteq> is_comm_fletcher16 0 [1, 4, 3, 9]"
  using fletcher16_detects [of 3 4 0 "[1]" "[9]"] by simp

text \<open>The Fletcher checksum in closed form: the low byte is the sum of the data and the high
  byte the sum of the running sums, both modulo 256, from any start value.\<close>

theorem fletcher16_closed_form:
  "is_comm_fletcher16 c xs =
     u16_of (lo8 c + sum_list xs) (hi8 c + (\<Sum>k < length xs. lo8 c + sum_list (take (Suc k) xs)))"
  by (simp add: is_comm_fletcher16_def fletcher_loop_sum)

end
