(* ===== verification/NmeaIds.thy ===== *)
theory NmeaIds
  imports Prelude
begin

text \<open>
  The NMEA message identifiers of \<^verbatim>\<open>data_sets.c\<close>: recognising the identifier of a
  received sentence (\<^verbatim>\<open>getNmeaMsgId\<close>, \<^verbatim>\<open>decodeGSV\<close>) and the talker written for an
  identifier (\<^verbatim>\<open>nmeaMsgIdToTalker\<close>). A message is the bytes from its pointer to the end of
  the object it lies in; \<open>None\<close> is a read or write behind that end. The properties are that a
  talker the code writes is recognised as the identifier it was written for, and which
  GSV filters a sentence selects.
\<close>

definition chars :: "string \<Rightarrow> u8 list" where
  "chars s = map of_char s"

section \<open>Identifiers\<close>

abbreviation (input) NMEA_MSG_ID_PIMU :: int where "NMEA_MSG_ID_PIMU \<equiv> 1"
abbreviation (input) NMEA_MSG_ID_PPIMU :: int where "NMEA_MSG_ID_PPIMU \<equiv> 2"
abbreviation (input) NMEA_MSG_ID_PRIMU :: int where "NMEA_MSG_ID_PRIMU \<equiv> 3"
abbreviation (input) NMEA_MSG_ID_PINS1 :: int where "NMEA_MSG_ID_PINS1 \<equiv> 4"
abbreviation (input) NMEA_MSG_ID_PINS2 :: int where "NMEA_MSG_ID_PINS2 \<equiv> 5"
abbreviation (input) NMEA_MSG_ID_PGPSP :: int where "NMEA_MSG_ID_PGPSP \<equiv> 6"
abbreviation (input) NMEA_MSG_ID_GNGGA :: int where "NMEA_MSG_ID_GNGGA \<equiv> 7"
abbreviation (input) NMEA_MSG_ID_GNGLL :: int where "NMEA_MSG_ID_GNGLL \<equiv> 8"
abbreviation (input) NMEA_MSG_ID_GNGSA :: int where "NMEA_MSG_ID_GNGSA \<equiv> 9"
abbreviation (input) NMEA_MSG_ID_GNRMC :: int where "NMEA_MSG_ID_GNRMC \<equiv> 10"
abbreviation (input) NMEA_MSG_ID_GNZDA :: int where "NMEA_MSG_ID_GNZDA \<equiv> 11"
abbreviation (input) NMEA_MSG_ID_PASHR :: int where "NMEA_MSG_ID_PASHR \<equiv> 12"
abbreviation (input) NMEA_MSG_ID_PSTRB :: int where "NMEA_MSG_ID_PSTRB \<equiv> 13"
abbreviation (input) NMEA_MSG_ID_INFO :: int where "NMEA_MSG_ID_INFO \<equiv> 14"
abbreviation (input) NMEA_MSG_ID_GNGSV :: int where "NMEA_MSG_ID_GNGSV \<equiv> 15"
abbreviation (input) NMEA_MSG_ID_GNVTG :: int where "NMEA_MSG_ID_GNVTG \<equiv> 16"
abbreviation (input) NMEA_MSG_ID_INTEL :: int where "NMEA_MSG_ID_INTEL \<equiv> 17"
abbreviation (input) NMEA_MSG_ID_ASCE :: int where "NMEA_MSG_ID_ASCE \<equiv> 19"
abbreviation (input) NMEA_MSG_ID_BLEN :: int where "NMEA_MSG_ID_BLEN \<equiv> 20"
abbreviation (input) NMEA_MSG_ID_EBLE :: int where "NMEA_MSG_ID_EBLE \<equiv> 21"
abbreviation (input) NMEA_MSG_ID_NELB :: int where "NMEA_MSG_ID_NELB \<equiv> 22"
abbreviation (input) NMEA_MSG_ID_PERS :: int where "NMEA_MSG_ID_PERS \<equiv> 23"
abbreviation (input) NMEA_MSG_ID_SRST :: int where "NMEA_MSG_ID_SRST \<equiv> 24"
abbreviation (input) NMEA_MSG_ID_STPB :: int where "NMEA_MSG_ID_STPB \<equiv> 25"
abbreviation (input) NMEA_MSG_ID_STPC :: int where "NMEA_MSG_ID_STPC \<equiv> 26"
abbreviation (input) NMEA_MSG_ID_GNGSV_START :: int where "NMEA_MSG_ID_GNGSV_START \<equiv> 3840"
abbreviation (input) NMEA_GNGSV_GPS_OFFSET :: int where "NMEA_GNGSV_GPS_OFFSET \<equiv> 0x10"
abbreviation (input) NMEA_GNGSV_GAL_OFFSET :: int where "NMEA_GNGSV_GAL_OFFSET \<equiv> 0x30"
abbreviation (input) NMEA_GNGSV_BEI_OFFSET :: int where "NMEA_GNGSV_BEI_OFFSET \<equiv> 0x40"
abbreviation (input) NMEA_GNGSV_QZS_OFFSET :: int where "NMEA_GNGSV_QZS_OFFSET \<equiv> 0x50"
abbreviation (input) NMEA_GNGSV_GLO_OFFSET :: int where "NMEA_GNGSV_GLO_OFFSET \<equiv> 0x60"

section \<open>Recognising a sentence\<close>

text \<open>The loop over the frequency characters: it stops at the first character that is neither
  a separator nor a band.\<close>

function decodeGSV_freqs :: "u8 list \<Rightarrow> nat \<Rightarrow> nat \<Rightarrow> int \<Rightarrow> int option" where
  "decodeGSV_freqs a i aSize msgNum =
     (if i < aSize then
        (if i < length a then
           (if a ! i = of_char (CHR ''_'') then decodeGSV_freqs a (i + 1) aSize msgNum
            else if a ! i = of_char (CHR ''1'') then decodeGSV_freqs a (i + 1) aSize (msgNum OR 1)
            else if a ! i = of_char (CHR ''2'') then decodeGSV_freqs a (i + 1) aSize (msgNum OR 2)
            else if a ! i = of_char (CHR ''3'') then decodeGSV_freqs a (i + 1) aSize (msgNum OR 4)
            else if a ! i = of_char (CHR ''5'') then decodeGSV_freqs a (i + 1) aSize (msgNum OR 8)
            else Some msgNum)
         else None)
      else Some msgNum)"
  by pat_completeness auto
termination
  by (relation "measure (\<lambda>(a, i, n, msg). n - i)") auto

declare decodeGSV_freqs.simps [simp del]

definition decodeGSV :: "u8 list \<Rightarrow> int \<Rightarrow> int option" where
  "decodeGSV a aSize =
     (if aSize < 6 then Some (- 2)
      else if length a < 2 then None
      else
        (let c = a ! 1;
             known = (if c = of_char (CHR ''x'') \<or> c = of_char (CHR ''X'') \<or> c = of_char (CHR ''N'')
                      then Some NMEA_MSG_ID_GNGSV_START
                      else if c = of_char (CHR ''P'') then Some (NMEA_MSG_ID_GNGSV_START + NMEA_GNGSV_GPS_OFFSET)
                      else if c = of_char (CHR ''A'') then Some (NMEA_MSG_ID_GNGSV_START + NMEA_GNGSV_GAL_OFFSET)
                      else if c = of_char (CHR ''B'') then Some (NMEA_MSG_ID_GNGSV_START + NMEA_GNGSV_BEI_OFFSET)
                      else if c = of_char (CHR ''Q'') then Some (NMEA_MSG_ID_GNGSV_START + NMEA_GNGSV_QZS_OFFSET)
                      else if c = of_char (CHR ''L'') then Some (NMEA_MSG_ID_GNGSV_START + NMEA_GNGSV_GLO_OFFSET)
                      else None)
         in case known of
              None \<Rightarrow> Some (- 3)
            | Some msgNum \<Rightarrow>
                if length a < 6 then None
                else (if a ! 5 = of_char (CHR '','') \<or> a ! 5 = of_char (CHR ''*'')
                 then Some (msgNum OR 15)
                 else decodeGSV_freqs a 5 (nat aSize) msgNum)))"

text \<open>\<^verbatim>\<open>UINT32_MATCH\<close>: four bytes at an offset against a literal.\<close>

definition UINT32_MATCH :: "u8 list \<Rightarrow> nat \<Rightarrow> string \<Rightarrow> bool option" where
  "UINT32_MATCH msg i s =
     (if i + 4 \<le> length msg then Some (take 4 (drop i msg) = chars s) else None)"

fun match_first :: "u8 list \<Rightarrow> nat \<Rightarrow> (string \<times> int) list \<Rightarrow> int option" where
  "match_first msg i [] = Some (- 1)"
| "match_first msg i ((s, r) # rs) =
     do { hit \<leftarrow> UINT32_MATCH msg i s; if hit then Some r else match_first msg i rs }"

definition nmea_G_id :: "u8 list \<Rightarrow> int \<Rightarrow> int option" where
  "nmea_G_id msg msgSize =
     do { gga \<leftarrow> UINT32_MATCH msg 3 ''GGA,'';
          if gga then Some NMEA_MSG_ID_GNGGA else do {
          gll \<leftarrow> UINT32_MATCH msg 3 ''GLL,'';
          if gll then Some NMEA_MSG_ID_GNGLL else do {
          gsa \<leftarrow> UINT32_MATCH msg 3 ''GSA,'';
          if gsa then Some NMEA_MSG_ID_GNGSA else do {
          gsv \<leftarrow> UINT32_MATCH msg 3 ''GSV,'';
          if gsv then decodeGSV (drop 1 msg) (msgSize - 1) else do {
          gsvf \<leftarrow> UINT32_MATCH msg 3 ''GSV_'';
          if gsvf then decodeGSV (drop 1 msg) (msgSize - 1) else
          match_first msg 3 [(''RMC,'', NMEA_MSG_ID_GNRMC), (''VTG,'', NMEA_MSG_ID_GNVTG),
                             (''ZDA,'', NMEA_MSG_ID_GNZDA)] }}}}}"

definition nmea_P_id :: "u8 list \<Rightarrow> int option" where
  "nmea_P_id msg =
     do { pimu \<leftarrow> UINT32_MATCH msg 1 ''PIMU'';
          if pimu then Some NMEA_MSG_ID_PIMU else do {
          pins \<leftarrow> UINT32_MATCH msg 1 ''PINS'';
          if pins then
            (if 5 < length msg
             then Some (if msg ! 5 = of_char (CHR ''1'') then NMEA_MSG_ID_PINS1 else NMEA_MSG_ID_PINS2)
             else None)
          else match_first msg 1 [(''PERS'', NMEA_MSG_ID_PERS), (''PGPS'', NMEA_MSG_ID_PGPSP),
                 (''PPIM'', NMEA_MSG_ID_PPIMU), (''PRIM'', NMEA_MSG_ID_PRIMU),
                 (''PASH'', NMEA_MSG_ID_PASHR)] }}"

definition getNmeaMsgId :: "u8 list \<Rightarrow> int \<Rightarrow> int option" where
  "getNmeaMsgId msg msgSize =
     (if msgSize < 5 then Some (- 2)
      else if length msg < 2 then None
      else
        (let t = msg ! 1 in
         if t = of_char (CHR ''A'') then match_first msg 1 [(''ASCE'', NMEA_MSG_ID_ASCE)]
         else if t = of_char (CHR ''B'') then match_first msg 1 [(''BLEN'', NMEA_MSG_ID_BLEN)]
         else if t = of_char (CHR ''E'') then match_first msg 1 [(''EBLE'', NMEA_MSG_ID_EBLE)]
         else if t = of_char (CHR ''G'') then nmea_G_id msg msgSize
         else if t = of_char (CHR ''I'') then
           match_first msg 1 [(''INFO'', NMEA_MSG_ID_INFO), (''INTE'', NMEA_MSG_ID_INTEL)]
         else if t = of_char (CHR ''P'') then nmea_P_id msg
         else if t = of_char (CHR ''S'') then
           match_first msg 1 [(''STPB'', NMEA_MSG_ID_STPB), (''STPC'', NMEA_MSG_ID_STPC),
                              (''SRST'', NMEA_MSG_ID_SRST)]
         else Some (- 1)))"

section \<open>Writing a talker\<close>

definition nmea_talker :: "int \<Rightarrow> string option" where
  "nmea_talker msgId =
     (if msgId = NMEA_MSG_ID_PIMU then Some ''PIMU''
      else if msgId = NMEA_MSG_ID_PPIMU then Some ''PPIMU''
      else if msgId = NMEA_MSG_ID_PRIMU then Some ''PRIMU''
      else if msgId = NMEA_MSG_ID_PINS1 then Some ''PINS1''
      else if msgId = NMEA_MSG_ID_PINS2 then Some ''PINS2''
      else if msgId = NMEA_MSG_ID_PGPSP then Some ''PGPSP''
      else if msgId = NMEA_MSG_ID_GNGGA then Some ''GNGGA''
      else if msgId = NMEA_MSG_ID_GNGLL then Some ''GNGLL''
      else if msgId = NMEA_MSG_ID_GNGSA then Some ''GNGSA''
      else if msgId = NMEA_MSG_ID_GNRMC then Some ''GNRMC''
      else if msgId = NMEA_MSG_ID_GNZDA then Some ''GNZDA''
      else if msgId = NMEA_MSG_ID_PASHR then Some ''PASHR''
      else if msgId = NMEA_MSG_ID_PSTRB then Some ''PSTRB''
      else if msgId = NMEA_MSG_ID_INFO then Some ''INFO''
      else if msgId = NMEA_MSG_ID_GNGSV then Some ''GNGSV''
      else if msgId = NMEA_MSG_ID_GNVTG then Some ''GNVTG''
      else if msgId = NMEA_MSG_ID_INTEL then Some ''INTEL''
      else if msgId = NMEA_MSG_ID_ASCE then Some ''ASCE''
      else if msgId = NMEA_MSG_ID_BLEN then Some ''BLEN''
      else if msgId = NMEA_MSG_ID_EBLE then Some ''EBLE''
      else if msgId = NMEA_MSG_ID_NELB then Some ''NELB''
      else if msgId = NMEA_MSG_ID_PERS then Some ''PERS''
      else if msgId = NMEA_MSG_ID_SRST then Some ''SRST''
      else if msgId = NMEA_MSG_ID_STPB then Some ''STPB''
      else if msgId = NMEA_MSG_ID_STPC then Some ''STPC''
      else None)"

text \<open>The result is the return value and the buffer after the copy and the terminating
  zero.\<close>

definition nmeaMsgIdToTalker :: "int \<Rightarrow> u8 list \<Rightarrow> int \<Rightarrow> (int \<times> u8 list) option" where
  "nmeaMsgIdToTalker msgId buf bufSize =
     (if bufSize < 5 then Some (- 1, buf)
      else case nmea_talker msgId of
        None \<Rightarrow> Some (- 1, buf)
      | Some s \<Rightarrow>
          do { buf1 \<leftarrow> obj_wr buf 0 (chars s);
               buf2 \<leftarrow> obj_wr buf1 (length s) [0];
               Some (0, buf2) })"

section \<open>Every read stays inside the message\<close>

lemmas nmea_eval = getNmeaMsgId_def chars_def nmea_G_id_def nmea_P_id_def UINT32_MATCH_def decodeGSV_def

lemma decodeGSV_freqs_Some:
  "aSize \<le> length a \<Longrightarrow> \<exists>b. decodeGSV_freqs a i aSize msg = Some b"
proof (induction a i aSize msg rule: decodeGSV_freqs.induct)
  case (1 a i aSize msgNum)
  then show ?case by (subst decodeGSV_freqs.simps) simp
qed

lemma decodeGSV_Some:
  "aSize \<le> int (length a) \<Longrightarrow> \<exists>b. decodeGSV a aSize = Some b"
  using decodeGSV_freqs_Some [of "nat aSize" a] by (auto simp: decodeGSV_def Let_def nat_le_iff split: option.splits)

lemma match_first_Some: "i + 4 \<le> length msg \<Longrightarrow> \<exists>b. match_first msg i rs = Some b"
  by (induction rs) (auto simp: UINT32_MATCH_def)

lemma getNmeaMsgId_Some:
  assumes "7 \<le> length msg" "msgSize \<le> int (length msg)"
  shows "\<exists>b. getNmeaMsgId msg msgSize = Some b"
  using assms decodeGSV_Some [of "msgSize - 1" "drop 1 msg"]
  by (auto simp: getNmeaMsgId_def Let_def nmea_G_id_def nmea_P_id_def UINT32_MATCH_def match_first_Some simp del: match_first.simps)

section \<open>Properties\<close>

text \<open>C32: an NMEA sentence that starts with the talker \<^verbatim>\<open>nmeaMsgIdToTalker\<close> writes for an
  identifier, followed by a comma, is recognised by \<^verbatim>\<open>getNmeaMsgId\<close> as that identifier.
  Three identifiers are exceptions: the GSV sentence is recognised as the GSV filter of all
  constellations and bands, and the talkers of the strobe and of the SAM-BA command are not
  recognised.\<close>

theorem nmea_talker_roundtrip:
  assumes "nmea_talker msgId = Some s" "2 \<le> length rest"
  shows "getNmeaMsgId (chars (''$'' @ s @ '','' @ rest)) (int (length s + length rest) + 2) =
     Some (if msgId = NMEA_MSG_ID_GNGSV then NMEA_MSG_ID_GNGSV_START + 15
           else if msgId = NMEA_MSG_ID_PSTRB \<or> msgId = NMEA_MSG_ID_NELB then - 1 else msgId)"
  using assms by (auto simp: nmea_talker_def nmea_eval split: if_splits)

lemma nmea_talker_roundtrip_witness:
  "getNmeaMsgId (chars ''$GNZDA,1*00'') 11 = Some NMEA_MSG_ID_GNZDA"
  using nmea_talker_roundtrip [of NMEA_MSG_ID_GNZDA "''GNZDA''" "''1*00''"]
  by (simp add: nmea_talker_def)

end
