(* ===== verification/CommTypes.thy ===== *)
theory CommTypes
  imports Checksums NmeaIds
begin

text \<open>
  The data of the communication layer (\<^verbatim>\<open>ISComm.h\<close>) and the operations every protocol
  parser shares (\<^verbatim>\<open>ISComm.c\<close>): the receive buffer, the parser state, the packet, the
  instance, its initialisation and check, the reset after an error and the hand-over of a
  packet.

  The receive buffer lies in one object of the memory; its pointers are byte offsets in that
  object. The function pointer \<^verbatim>\<open>processPkt\<close> is the name of the parser in charge. Packed
  structures that share memory in a union are one field: \<^verbatim>\<open>dataHdr.id\<close>, \<^verbatim>\<open>dataHdr.size\<close> and
  \<^verbatim>\<open>dataHdr.offset\<close> of a packet are \<open>hdr_id\<close>, \<open>payloadSize\<close> and \<open>pkt_offset\<close>.
\<close>

section \<open>Constants\<close>

abbreviation (input) MAX_DATASET_SIZE :: nat where "MAX_DATASET_SIZE \<equiv> 1024"
abbreviation (input) PKT_BUF_SIZE :: nat where "PKT_BUF_SIZE \<equiv> 2048"
abbreviation (input) MAX_MSG_LENGTH_ISB :: u16 where "MAX_MSG_LENGTH_ISB \<equiv> 2048"
abbreviation (input) MAX_MSG_LENGTH_NMEA :: int where "MAX_MSG_LENGTH_NMEA \<equiv> 200"
abbreviation (input) MAX_MSG_LENGTH_RTCM :: u16 where "MAX_MSG_LENGTH_RTCM \<equiv> 1023"
abbreviation (input) MAX_MSG_LENGTH_SONY :: u16 where "MAX_MSG_LENGTH_SONY \<equiv> 4090"
abbreviation (input) PKT_PARSER_TIMEOUT_MS :: u32 where "PKT_PARSER_TIMEOUT_MS \<equiv> 100"

abbreviation (input) PKT_TYPE_ACK :: u8 where "PKT_TYPE_ACK \<equiv> 1"
abbreviation (input) PKT_TYPE_NACK :: u8 where "PKT_TYPE_NACK \<equiv> 2"
abbreviation (input) PKT_TYPE_GET_DATA :: u8 where "PKT_TYPE_GET_DATA \<equiv> 3"
abbreviation (input) PKT_TYPE_DATA :: u8 where "PKT_TYPE_DATA \<equiv> 4"
abbreviation (input) PKT_TYPE_SET_DATA :: u8 where "PKT_TYPE_SET_DATA \<equiv> 5"
abbreviation (input) PKT_TYPE_STOP_BROADCASTS_ALL_PORTS :: u8 where
  "PKT_TYPE_STOP_BROADCASTS_ALL_PORTS \<equiv> 6"
abbreviation (input) PKT_TYPE_STOP_DID_BROADCAST :: u8 where "PKT_TYPE_STOP_DID_BROADCAST \<equiv> 7"
abbreviation (input) PKT_TYPE_STOP_BROADCASTS_CURRENT_PORT :: u8 where
  "PKT_TYPE_STOP_BROADCASTS_CURRENT_PORT \<equiv> 8"
abbreviation (input) PKT_TYPE_MASK :: u8 where "PKT_TYPE_MASK \<equiv> 0x0F"
abbreviation (input) ISB_FLAGS_PAYLOAD_W_OFFSET :: u8 where "ISB_FLAGS_PAYLOAD_W_OFFSET \<equiv> 0x20"

abbreviation (input) PSC_NMEA_START_BYTE :: u8 where "PSC_NMEA_START_BYTE \<equiv> 0x24"
abbreviation (input) PSC_NMEA_PRE_END_BYTE :: u8 where "PSC_NMEA_PRE_END_BYTE \<equiv> 0x0D"
abbreviation (input) PSC_NMEA_END_BYTE :: u8 where "PSC_NMEA_END_BYTE \<equiv> 0x0A"
abbreviation (input) PSC_ISB_PREAMBLE_BYTE1 :: u8 where "PSC_ISB_PREAMBLE_BYTE1 \<equiv> 0xEF"
abbreviation (input) PSC_ISB_PREAMBLE_BYTE2 :: u8 where "PSC_ISB_PREAMBLE_BYTE2 \<equiv> 0x49"
abbreviation (input) PSC_ISB_PREAMBLE :: u16 where "PSC_ISB_PREAMBLE \<equiv> 0x49EF"
abbreviation (input) UBLOX_START_BYTE1 :: u8 where "UBLOX_START_BYTE1 \<equiv> 0xB5"
abbreviation (input) UBLOX_START_BYTE2 :: u8 where "UBLOX_START_BYTE2 \<equiv> 0x62"
abbreviation (input) RTCM3_START_BYTE :: u8 where "RTCM3_START_BYTE \<equiv> 0xD3"
abbreviation (input) SPARTN_START_BYTE :: u8 where "SPARTN_START_BYTE \<equiv> 0x73"
abbreviation (input) SONY_START_BYTE :: u8 where "SONY_START_BYTE \<equiv> 0x7F"

abbreviation (input) ENABLE_PROTOCOL_ISB :: u32 where "ENABLE_PROTOCOL_ISB \<equiv> 0x01"
abbreviation (input) ENABLE_PROTOCOL_NMEA :: u32 where "ENABLE_PROTOCOL_NMEA \<equiv> 0x02"
abbreviation (input) ENABLE_PROTOCOL_UBLOX :: u32 where "ENABLE_PROTOCOL_UBLOX \<equiv> 0x04"
abbreviation (input) ENABLE_PROTOCOL_RTCM3 :: u32 where "ENABLE_PROTOCOL_RTCM3 \<equiv> 0x08"
abbreviation (input) ENABLE_PROTOCOL_SPARTN :: u32 where "ENABLE_PROTOCOL_SPARTN \<equiv> 0x10"
abbreviation (input) ENABLE_PROTOCOL_SONY :: u32 where "ENABLE_PROTOCOL_SONY \<equiv> 0x20"

section \<open>Data\<close>

datatype protocol_type_t =
    PTYPE_NONE | PTYPE_PARSE_ERROR | PTYPE_INERTIAL_SENSE_ACK | PTYPE_INERTIAL_SENSE_CMD
  | PTYPE_INERTIAL_SENSE_DATA | PTYPE_NMEA | PTYPE_UBLOX | PTYPE_RTCM3 | PTYPE_SPARTN | PTYPE_SONY

datatype eParseErrorType =
    EPARSE_INVALID_PREAMBLE | EPARSE_INVALID_SIZE | EPARSE_INVALID_CHKSUM
  | EPARSE_INVALID_DATATYPE | EPARSE_MISSING_EOS_MARKER | EPARSE_INCOMPLETE_PACKET
  | EPARSE_INVALID_HEADER | EPARSE_INVALID_PAYLOAD | EPARSE_RXBUFFER_FLUSHED
  | EPARSE_STREAM_UNPARSABLE

datatype pFnProcessPkt =
    ProcIsbPkt | ProcNmeaPkt | ProcUbloxPkt | ProcRtcm3Pkt | ProcSpartnByte | ProcSonyByte

record packet_hdr_t =
  preamble :: u16
  flags :: u8
  hdr_id :: u8
  payloadSize :: u16

record bufPtr_t =
  dptr :: cptr
  dsize :: u32

record packet_t =
  hdr :: packet_hdr_t
  pkt_offset :: u16
  pdata :: bufPtr_t
  hdrCksum :: u16
  checksum :: u16
  pkt_size :: u16
  pkt_id :: u16

record p_data_hdr_t =
  d_id :: u8
  d_size :: u16
  d_offset :: u16

record p_data_t =
  d_hdr :: p_data_hdr_t
  d_ptr :: cptr

record p_data_get_t =
  g_id :: u16
  g_size :: u16
  g_offset :: u16
  g_period :: u16

record is_comm_buffer_t =
  rx_obj :: nat
  rx_start :: nat
  rx_end :: nat
  rx_size :: u32
  rx_head :: nat
  rx_tail :: nat
  rx_scan :: nat
  rx_scanPrior :: "nat option"

record is_comm_parser_t =
  ps_state :: int
  ps_size :: u16
  ps_timeMs :: u32

record is_comm_instance_t =
  rxBuf :: is_comm_buffer_t
  enabledMask :: u32
  txPktCount :: u32
  rxPktCount :: u32
  rxErrorCount :: u32
  rxErrorType :: eParseErrorType
  rxErrorTypeCount :: "eParseErrorType \<Rightarrow> u32"
  processPkt :: "pFnProcessPkt option"
  parser :: is_comm_parser_t
  ackNeeded :: u32
  rxPkt :: packet_t
  rxErrorState :: bool

text \<open>The bytes of a packet header in memory.\<close>

definition hdr_bytes :: "packet_hdr_t \<Rightarrow> u8 list" where
  "hdr_bytes h = u16_bytes (preamble h) @ [flags h, hdr_id h] @ u16_bytes (payloadSize h)"

section \<open>Initialisation and check\<close>

definition packet_zero :: packet_t where
  "packet_zero =
     \<lparr>hdr = \<lparr>preamble = 0, flags = 0, hdr_id = 0, payloadSize = 0\<rparr>, pkt_offset = 0,
      pdata = \<lparr>dptr = Null, dsize = 0\<rparr>, hdrCksum = 0, checksum = 0, pkt_size = 0, pkt_id = 0\<rparr>"

definition default_mask :: u32 where
  "default_mask = ENABLE_PROTOCOL_ISB OR ENABLE_PROTOCOL_NMEA OR ENABLE_PROTOCOL_UBLOX OR
     ENABLE_PROTOCOL_RTCM3"

definition is_comm_init :: "cmem \<Rightarrow> nat \<Rightarrow> nat \<Rightarrow> nat \<Rightarrow> (cmem \<times> is_comm_instance_t) option" where
  "is_comm_init m ob buffer bufferSize =
     do { m' \<leftarrow> wr_bytes m ob buffer (replicate bufferSize 0);
          Some (m',
            \<lparr>rxBuf = \<lparr>rx_obj = ob, rx_start = buffer, rx_end = buffer + bufferSize,
               rx_size = of_nat bufferSize, rx_head = buffer, rx_tail = buffer, rx_scan = buffer,
               rx_scanPrior = None\<rparr>,
             enabledMask = default_mask, txPktCount = 0, rxPktCount = 0, rxErrorCount = 0,
             rxErrorType = EPARSE_INVALID_PREAMBLE, rxErrorTypeCount = (\<lambda>_. 0),
             processPkt = None, parser = \<lparr>ps_state = 0, ps_size = 0, ps_timeMs = 0\<rparr>,
             ackNeeded = 0, rxPkt = packet_zero\<lparr>pdata := \<lparr>dptr = Ptr ob buffer, dsize = 0\<rparr>\<rparr>,
             rxErrorState = True\<rparr>) }"

text \<open>The buffer pointers compared in \<^verbatim>\<open>is_comm_check\<close> belong to the object of the buffer given;
  a pointer into another object counts as a mismatch.\<close>

definition is_comm_check :: "is_comm_instance_t \<Rightarrow> nat \<Rightarrow> nat \<Rightarrow> nat \<Rightarrow> int" where
  "is_comm_check c ob buffer bufferSize =
     (let b = rxBuf c in
      if rx_size b \<noteq> of_nat bufferSize then - 1
      else if rx_obj b \<noteq> ob \<or> rx_start b \<noteq> buffer then - 1
      else if rx_end b \<noteq> buffer + bufferSize then - 1
      else if rx_head b < rx_start b \<or> rx_head b > rx_end b then - 1
      else if rx_tail b < rx_start b \<or> rx_tail b > rx_end b then - 1
      else if rx_scan b < rx_start b \<or> rx_scan b > rx_end b then - 1
      else if enabledMask c \<noteq> default_mask then - 1
      else case dptr (pdata (rxPkt c)) of
             Null \<Rightarrow> 0
           | Ptr o' i \<Rightarrow> if o' \<noteq> ob \<or> i < rx_start b \<or> i > rx_end b then - 1 else 0)"

definition is_comm_check_init ::
  "cmem \<Rightarrow> is_comm_instance_t \<Rightarrow> nat \<Rightarrow> nat \<Rightarrow> nat \<Rightarrow> u8 \<Rightarrow> (int \<times> cmem \<times> is_comm_instance_t) option"
where
  "is_comm_check_init m c ob buffer bufferSize forceInit =
     (let result = is_comm_check c ob buffer bufferSize in
      if result \<noteq> 0 \<or> forceInit \<noteq> 0
      then do { (m', c') \<leftarrow> is_comm_init m ob buffer bufferSize; Some (result, m', c') }
      else Some (result, m, c))"

definition g_validBaudRates :: "u32 list" where
  "g_validBaudRates = [10000000, 921600, 460800, 230400, 115200, 57600, 38400, 19200, 9600]"

definition validateBaudRate :: "u32 \<Rightarrow> int" where
  "validateBaudRate baudRate =
     (if baudRate \<le> 921600
      then (if list_ex (\<lambda>r. r = baudRate) g_validBaudRates then 0 else - 1)
      else if baudRate \<le> 10000000 then 0
      else - 1)"

section \<open>What every parser shares\<close>

definition is_comm_reset_parser :: "is_comm_instance_t \<Rightarrow> is_comm_instance_t" where
  "is_comm_reset_parser c =
     c\<lparr>parser := (parser c)\<lparr>ps_state := 0\<rparr>,
       rxBuf := (rxBuf c)\<lparr>rx_scanPrior := Some (rx_scan (rxBuf c)), rx_scan := rx_head (rxBuf c)\<rparr>,
       processPkt := None\<rparr>"

definition setParserStart :: "is_comm_instance_t \<Rightarrow> pFnProcessPkt \<Rightarrow> is_comm_instance_t" where
  "setParserStart c f =
     c\<lparr>parser := (parser c)\<lparr>ps_state := 1\<rparr>,
       rxBuf := (rxBuf c)\<lparr>rx_head := rx_scan (rxBuf c)\<rparr>, processPkt := Some f\<rparr>"

definition reportParseError ::
  "is_comm_instance_t \<Rightarrow> eParseErrorType \<Rightarrow> protocol_type_t \<times> is_comm_instance_t" where
  "reportParseError c errorType =
     (if \<not> rxErrorState c
      then (PTYPE_PARSE_ERROR,
            c\<lparr>rxErrorState := True, rxErrorCount := rxErrorCount c + 1, rxErrorType := errorType,
              rxErrorTypeCount := (rxErrorTypeCount c)(errorType := rxErrorTypeCount c errorType + 1)\<rparr>)
      else (PTYPE_NONE, c))"

definition parseErrorResetState ::
  "is_comm_instance_t \<Rightarrow> eParseErrorType \<Rightarrow> protocol_type_t \<times> is_comm_instance_t" where
  "parseErrorResetState c errorType = reportParseError (is_comm_reset_parser c) errorType"

definition validPacketReset :: "is_comm_instance_t \<Rightarrow> int \<Rightarrow> is_comm_instance_t" where
  "validPacketReset c pktSize =
     c\<lparr>rxBuf := (rxBuf c)\<lparr>rx_head := nat (int (rx_head (rxBuf c)) + pktSize)\<rparr>,
       rxPktCount := rxPktCount c + 1, processPkt := None, rxErrorState := False\<rparr>"

definition validPacketFound ::
  "is_comm_instance_t \<Rightarrow> int \<Rightarrow> int \<Rightarrow> u16 \<Rightarrow> is_comm_instance_t" where
  "validPacketFound c pktSize dataSize id' =
     validPacketReset
       (c\<lparr>rxPkt := (rxPkt c)\<lparr>pkt_size := word_of_int pktSize,
            pdata := \<lparr>dptr = Ptr (rx_obj (rxBuf c)) (rx_head (rxBuf c)), dsize = word_of_int dataSize\<rparr>,
            pkt_id := id', hdr := (hdr (rxPkt c))\<lparr>hdr_id := 0\<rparr>, pkt_offset := 0\<rparr>\<rparr>)
       pktSize"

text \<open>\<^verbatim>\<open>is_comm_to_isb_p_data\<close> and \<^verbatim>\<open>is_comm_to_isb_pkt_type\<close> of the header.\<close>

definition is_comm_to_isb_p_data :: "is_comm_instance_t \<Rightarrow> p_data_t" where
  "is_comm_to_isb_p_data c =
     \<lparr>d_hdr = \<lparr>d_id = hdr_id (hdr (rxPkt c)), d_size = ucast (dsize (pdata (rxPkt c))),
        d_offset = pkt_offset (rxPkt c)\<rparr>,
      d_ptr = dptr (pdata (rxPkt c))\<rparr>"

definition is_comm_to_isb_pkt_type :: "is_comm_instance_t \<Rightarrow> u8" where
  "is_comm_to_isb_pkt_type c = flags (hdr (rxPkt c)) AND PKT_TYPE_MASK"

end
