(* ===== verification/CommParser.thy ===== *)
theory CommParser
  imports CommTypes
begin

text \<open>
  The receive path of \<^verbatim>\<open>ISComm.c\<close>: the six protocol parsers (\<^verbatim>\<open>processIsbPkt\<close>,
  \<^verbatim>\<open>processNmeaPkt\<close>, \<^verbatim>\<open>processUbloxPkt\<close>, \<^verbatim>\<open>processRtcm3Pkt\<close>, \<^verbatim>\<open>processSonyByte\<close>,
  \<^verbatim>\<open>processSpartnByte\<close>), the buffer management \<^verbatim>\<open>is_comm_free\<close>, the scan loop
  \<^verbatim>\<open>is_comm_parse_timeout\<close> and the dispatch to the application's handlers. A parser is called
  with the byte under the scan pointer and returns the packet type and the new instance;
  \<open>None\<close> is an access outside the buffer's object. The test of \<^verbatim>\<open>processSpartnByte\<close> for an unset
  \<^verbatim>\<open>encryptPtr\<close>, which every path to it excludes, has no counterpart.
\<close>

section \<open>Access to the receive buffer\<close>

definition scan_byte :: "cmem \<Rightarrow> is_comm_instance_t \<Rightarrow> u8 option" where
  "scan_byte m c = rd_byte m (rx_obj (rxBuf c)) (rx_scan (rxBuf c))"

definition head_byte :: "cmem \<Rightarrow> is_comm_instance_t \<Rightarrow> nat \<Rightarrow> u8 option" where
  "head_byte m c i = rd_byte m (rx_obj (rxBuf c)) (rx_head (rxBuf c) + i)"

definition head_u16 :: "cmem \<Rightarrow> is_comm_instance_t \<Rightarrow> nat \<Rightarrow> u16 option" where
  "head_u16 m c i = rd_u16 m (rx_obj (rxBuf c)) (rx_head (rxBuf c) + i)"

text \<open>A length of type \<open>int\<close>; as an unsigned one, a negative length leaves every object.\<close>

definition head_bytes :: "cmem \<Rightarrow> is_comm_instance_t \<Rightarrow> nat \<Rightarrow> int \<Rightarrow> u8 list option" where
  "head_bytes m c i n =
     (if n < 0 then None else rd_bytes m (rx_obj (rxBuf c)) (rx_head (rxBuf c) + i) (nat n))"

definition scan_dist :: "is_comm_instance_t \<Rightarrow> int" where
  "scan_dist c = int (rx_scan (rxBuf c)) - int (rx_head (rxBuf c))"

definition set_state :: "is_comm_instance_t \<Rightarrow> int \<Rightarrow> is_comm_instance_t" where
  "set_state c s = c\<lparr>parser := (parser c)\<lparr>ps_state := s\<rparr>\<rparr>"

definition set_size :: "is_comm_instance_t \<Rightarrow> u16 \<Rightarrow> is_comm_instance_t" where
  "set_size c n = c\<lparr>parser := (parser c)\<lparr>ps_size := n\<rparr>\<rparr>"

section \<open>Inertial Sense binary\<close>

text \<open>The header and payload of a packet whose checksum \<open>ck\<close> passed.\<close>

definition isb_populate ::
  "cmem \<Rightarrow> is_comm_instance_t \<Rightarrow> u16 \<Rightarrow> u16 \<Rightarrow> packet_t option" where
  "isb_populate m c payloadSz ck =
     do { pre \<leftarrow> head_u16 m c 0;
          fl \<leftarrow> head_byte m c 2;
          did \<leftarrow> head_byte m c 3;
          (let pkt = (rxPkt c)\<lparr>hdr := \<lparr>preamble = pre, flags = fl, hdr_id = did, payloadSize = payloadSz\<rparr>,
                       pkt_id := ucast did\<rparr>;
               payload = rx_head (rxBuf c) + 6 in
           if fl AND ISB_FLAGS_PAYLOAD_W_OFFSET \<noteq> 0 then
             do { off \<leftarrow> head_u16 m c 6;
                  (let sz = (if payloadSz < 2 then 0 else ucast payloadSz - 2 :: u32) in
                   Some (pkt\<lparr>pdata := \<lparr>dptr = if sz \<noteq> 0 then Ptr (rx_obj (rxBuf c)) (payload + 2) else Null,
                                       dsize = sz\<rparr>,
                             pkt_offset := off,
                             hdr := (hdr pkt)\<lparr>payloadSize := ucast sz\<rparr>,
                             checksum := ck, pkt_size := ps_size (parser c)\<rparr>)) }
           else
             Some (pkt\<lparr>pdata := \<lparr>dptr = if payloadSz \<noteq> 0 then Ptr (rx_obj (rxBuf c)) payload else Null,
                                 dsize = ucast payloadSz\<rparr>,
                       pkt_offset := 0, checksum := ck, pkt_size := ps_size (parser c)\<rparr>)) }"

text \<open>The classification of a valid packet. \<open>getSize\<close> is the field \<^verbatim>\<open>size\<close> of a
  \<^verbatim>\<open>p_data_get_t\<close> at the payload, read on demand.\<close>

definition isb_classify ::
  "(unit \<Rightarrow> u16 option) \<Rightarrow> is_comm_instance_t \<Rightarrow> (protocol_type_t \<times> is_comm_instance_t) option" where
  "isb_classify getSize c =
     (let ptype = flags (hdr (rxPkt c)) AND PKT_TYPE_MASK in
      if ptype = PKT_TYPE_SET_DATA \<or> ptype = PKT_TYPE_DATA then
        (if dsize (pdata (rxPkt c)) \<le> 1024
         then Some (PTYPE_INERTIAL_SENSE_DATA,
                    if ptype = PKT_TYPE_SET_DATA then c\<lparr>ackNeeded := ucast PKT_TYPE_ACK\<rparr> else c)
         else Some (parseErrorResetState (c\<lparr>ackNeeded := ucast PKT_TYPE_NACK\<rparr>) EPARSE_INVALID_DATATYPE))
      else if ptype = PKT_TYPE_GET_DATA then
        do { sz \<leftarrow> getSize ();
             if sz \<le> 1024 then Some (PTYPE_INERTIAL_SENSE_CMD, c)
             else Some (parseErrorResetState c EPARSE_INVALID_DATATYPE) }
      else if ptype = PKT_TYPE_STOP_BROADCASTS_ALL_PORTS \<or> ptype = PKT_TYPE_STOP_DID_BROADCAST \<or>
              ptype = PKT_TYPE_STOP_BROADCASTS_CURRENT_PORT
      then Some (PTYPE_INERTIAL_SENSE_CMD, c)
      else if ptype = PKT_TYPE_ACK \<or> ptype = PKT_TYPE_NACK then Some (PTYPE_INERTIAL_SENSE_ACK, c)
      else Some (parseErrorResetState c EPARSE_INVALID_DATATYPE))"

text \<open>The end of a packet of \<open>numBytes\<close> bytes: checksum, reset, header and payload,
  classification.\<close>

definition isb_finish ::
  "cmem \<Rightarrow> is_comm_instance_t \<Rightarrow> int \<Rightarrow> (protocol_type_t \<times> is_comm_instance_t) option" where
  "isb_finish m c numBytes =
     do { payloadSz \<leftarrow> head_u16 m c 4;
          bs \<leftarrow> head_bytes m c 0 (uint (ps_size (parser c)) - 2);
          ck \<leftarrow> head_u16 m c (6 + unat payloadSz);
          if ck \<noteq> is_comm_isb_checksum16 0 bs
          then Some (parseErrorResetState c EPARSE_INVALID_CHKSUM)
          else
            do { pkt \<leftarrow> isb_populate m c payloadSz ck;
                 isb_classify (\<lambda>_. head_u16 m c 8)
                   ((validPacketReset c numBytes)\<lparr>rxPkt := pkt, ackNeeded := 0\<rparr>) } }"

definition processIsbPkt ::
  "cmem \<Rightarrow> is_comm_instance_t \<Rightarrow> (protocol_type_t \<times> is_comm_instance_t) option" where
  "processIsbPkt m c =
     (let st = ps_state (parser c) in
      if st = 0 then
        do { b \<leftarrow> scan_byte m c;
             Some (PTYPE_NONE, if b = PSC_ISB_PREAMBLE_BYTE1 then set_state c (st + 1) else c) }
      else if st = 1 then
        do { b \<leftarrow> scan_byte m c;
             Some (if b = PSC_ISB_PREAMBLE_BYTE2 then (PTYPE_NONE, set_state c (st + 1))
                   else parseErrorResetState c EPARSE_INVALID_PREAMBLE) }
      else if st = 2 then
        (if scan_dist c < 5 then Some (PTYPE_NONE, c)
         else
           do { n \<leftarrow> head_u16 m c 4;
                (let c1 = set_size (set_state c (st + 1)) (6 + n + 2) in
                 Some (if ps_size (parser c1) > MAX_MSG_LENGTH_ISB
                       then parseErrorResetState c1 EPARSE_INVALID_SIZE
                       else (PTYPE_NONE, c1))) })
      else
        (let numBytes = scan_dist c + 1 in
         if numBytes < uint (ps_size (parser c)) then Some (PTYPE_NONE, c)
         else isb_finish m (set_state c 0) numBytes))"

section \<open>NMEA\<close>

text \<open>\<open>strtol\<close> in base 16 on the bytes of a C string: white space, a sign, an optional
  \<open>0x\<close>, then hexadecimal digits. \<open>None\<close> is a read behind the end of the object. The value
  is not clamped to the range of \<open>long\<close>: the parser gives it at most two digits.\<close>

definition hexval :: "u8 \<Rightarrow> int option" where
  "hexval b =
     (if 0x30 \<le> b \<and> b \<le> 0x39 then Some (uint b - 0x30)
      else if 0x41 \<le> b \<and> b \<le> 0x46 then Some (uint b - 0x37)
      else if 0x61 \<le> b \<and> b \<le> 0x66 then Some (uint b - 0x57)
      else None)"

fun strtol_digits :: "u8 list \<Rightarrow> int \<Rightarrow> int option" where
  "strtol_digits [] acc = None"
| "strtol_digits (b # bs) acc =
     (case hexval b of None \<Rightarrow> Some acc | Some d \<Rightarrow> strtol_digits bs (16 * acc + d))"

definition strtol_prefix :: "u8 list \<Rightarrow> int option" where
  "strtol_prefix s =
     (case s of
        b0 # b1 # b2 # bs \<Rightarrow>
          if b0 = 0x30 \<and> (b1 = 0x78 \<or> b1 = 0x58) \<and> hexval b2 \<noteq> None
          then strtol_digits (b2 # bs) 0 else strtol_digits s 0
      | _ \<Rightarrow> strtol_digits s 0)"

definition is_space :: "u8 \<Rightarrow> bool" where
  "is_space b \<longleftrightarrow> b = 0x20 \<or> (0x09 \<le> b \<and> b \<le> 0x0D)"

definition strtol16 :: "u8 list \<Rightarrow> int option" where
  "strtol16 s =
     (case dropWhile is_space s of
        [] \<Rightarrow> None
      | b # bs \<Rightarrow>
          if b = 0x2D then map_option uminus (strtol_prefix bs)
          else if b = 0x2B then strtol_prefix bs
          else strtol_prefix (b # bs))"

definition nmea_cal_checksum :: "u8 list \<Rightarrow> int" where
  "nmea_cal_checksum bs = fold (\<lambda>b cks. cks XOR uint b) bs 0"

text \<open>The byte before the scan pointer is set to zero for \<open>strtol\<close> and restored afterwards, so
  the memory after the call is the memory before it.\<close>

definition nmea_finish ::
  "cmem \<Rightarrow> is_comm_instance_t \<Rightarrow> (protocol_type_t \<times> is_comm_instance_t) option" where
  "nmea_finish m c =
     (let numBytes = scan_dist c + 1; ob = rx_obj (rxBuf c); sc = rx_scan (rxBuf c); hd' = rx_head (rxBuf c) in
      if numBytes < 8 then Some (parseErrorResetState c EPARSE_INCOMPLETE_PACKET)
      else
        do { tmp \<leftarrow> rd_byte m ob (sc - 1);
             m1 \<leftarrow> wr_byte m ob (sc - 1) 0;
             msgChecksum \<leftarrow> strtol16 (drop (sc - 3) (m1 ob));
             m2 \<leftarrow> wr_byte m1 ob (sc - 1) tmp;
             bs \<leftarrow> rd_bytes m2 ob (hd' + 1) (sc - 4 - (hd' + 1));
             if msgChecksum \<noteq> nmea_cal_checksum bs
             then Some (parseErrorResetState c EPARSE_INVALID_CHKSUM)
             else
               do { id' \<leftarrow> getNmeaMsgId (drop hd' (m2 ob)) numBytes;
                    Some (PTYPE_NMEA, validPacketFound c numBytes numBytes (word_of_int id')) } })"

definition processNmeaPkt ::
  "cmem \<Rightarrow> is_comm_instance_t \<Rightarrow> (protocol_type_t \<times> is_comm_instance_t) option" where
  "processNmeaPkt m c =
     (let st = ps_state (parser c) in
      if st = 0 then
        do { b \<leftarrow> scan_byte m c;
             Some (PTYPE_NONE, if b = PSC_NMEA_START_BYTE then set_state c (st + 1) else c) }
      else if st = 1 then
        do { b \<leftarrow> scan_byte m c;
             Some (if b = PSC_NMEA_PRE_END_BYTE then (PTYPE_NONE, set_state c (st + 1))
                   else if scan_dist c > MAX_MSG_LENGTH_NMEA
                   then parseErrorResetState c EPARSE_INVALID_SIZE
                   else (PTYPE_NONE, c)) }
      else if st = 3 then
        do { b \<leftarrow> scan_byte m c;
             if b \<noteq> PSC_NMEA_END_BYTE
             then Some (parseErrorResetState c EPARSE_MISSING_EOS_MARKER)
             else nmea_finish m (set_state c 0) }
      else nmea_finish m (set_state c 0))"

section \<open>Ublox\<close>

definition ublox_finish ::
  "cmem \<Rightarrow> is_comm_instance_t \<Rightarrow> int \<Rightarrow> (protocol_type_t \<times> is_comm_instance_t) option" where
  "ublox_finish m c numBytes =
     do { pktChecksum \<leftarrow> rd_u16 m (rx_obj (rxBuf c)) (rx_scan (rxBuf c) - 1);
          bs \<leftarrow> head_bytes m c 2 (scan_dist c - 3);
          if pktChecksum \<noteq> is_comm_fletcher16 0 bs
          then Some (parseErrorResetState c EPARSE_INVALID_CHKSUM)
          else
            do { cls \<leftarrow> head_byte m c 2;
                 Some (PTYPE_UBLOX, validPacketFound c numBytes (uint (ps_size (parser c))) (ucast cls)) } }"

definition processUbloxPkt ::
  "cmem \<Rightarrow> is_comm_instance_t \<Rightarrow> (protocol_type_t \<times> is_comm_instance_t) option" where
  "processUbloxPkt m c =
     (let st = ps_state (parser c) in
      if st = 0 then
        do { b \<leftarrow> scan_byte m c;
             Some (PTYPE_NONE, if b = UBLOX_START_BYTE1 then set_state c (st + 1) else c) }
      else if st = 1 then
        do { b \<leftarrow> scan_byte m c;
             Some (if b = UBLOX_START_BYTE2 then (PTYPE_NONE, set_state c (st + 1))
                   else parseErrorResetState c EPARSE_INVALID_PREAMBLE) }
      else if st = 2 then
        (if scan_dist c < 5 then Some (PTYPE_NONE, c)
         else
           do { n \<leftarrow> head_u16 m c 4;
                Some (PTYPE_NONE, set_state (set_size c (6 + n + 2)) (st + 1)) })
      else
        (let numBytes = scan_dist c + 1 in
         if numBytes < uint (ps_size (parser c)) then Some (PTYPE_NONE, c)
         else ublox_finish m (set_state c 0) numBytes))"

section \<open>RTCM3\<close>

definition rtcm3_finish ::
  "cmem \<Rightarrow> is_comm_instance_t \<Rightarrow> int \<Rightarrow> (protocol_type_t \<times> is_comm_instance_t) option" where
  "rtcm3_finish m c numBytes =
     (let lenWithoutCrc = uint (ps_size (parser c)) - 3 in
      do { bs \<leftarrow> head_bytes m c 0 lenWithoutCrc;
           cs \<leftarrow> head_bytes m c (nat lenWithoutCrc) 3;
           correctCRC \<leftarrow> getBitsAsUInt32 cs 0 24;
           if calculate24BitCRCQ bs \<noteq> correctCRC
           then Some (parseErrorResetState c EPARSE_INVALID_CHKSUM)
           else
             do { ids \<leftarrow> head_bytes m c 0 5;
                  id' \<leftarrow> messageStatsGetbitu ids 24 12;
                  Some (PTYPE_RTCM3, validPacketFound c numBytes (uint (ps_size (parser c)))
                          (ucast id')) } })"

definition processRtcm3Pkt ::
  "cmem \<Rightarrow> is_comm_instance_t \<Rightarrow> (protocol_type_t \<times> is_comm_instance_t) option" where
  "processRtcm3Pkt m c =
     (let st = ps_state (parser c) in
      if st = 0 then
        do { b \<leftarrow> scan_byte m c;
             Some (PTYPE_NONE, if b = RTCM3_START_BYTE then set_state c (st + 1) else c) }
      else if st = 1 then Some (PTYPE_NONE, set_state c (st + 1))
      else if st = 2 then
        do { bs \<leftarrow> head_bytes m c 0 3;
             len \<leftarrow> getBitsAsUInt32 bs 14 10;
             (let c1 = set_state (set_size c (ucast (len + 6))) (st + 1) in
              Some (if ps_size (parser c1) > MAX_MSG_LENGTH_RTCM \<or>
                       ucast (ps_size (parser c1)) > rx_size (rxBuf c1) - 6
                    then parseErrorResetState c1 EPARSE_INCOMPLETE_PACKET
                    else (PTYPE_NONE, c1))) }
      else
        (let numBytes = scan_dist c + 1 in
         if numBytes < uint (ps_size (parser c)) then Some (PTYPE_NONE, c)
         else rtcm3_finish m (set_state c 0) numBytes))"

section \<open>Sony\<close>

definition sum8 :: "u8 list \<Rightarrow> u8" where
  "sum8 bs = fold (\<lambda>b cks. cks + b) bs 0"

definition sony_finish ::
  "cmem \<Rightarrow> is_comm_instance_t \<Rightarrow> int \<Rightarrow> (protocol_type_t \<times> is_comm_instance_t) option" where
  "sony_finish m c numBytes =
     do { dataSize \<leftarrow> head_u16 m c 1;
          bs \<leftarrow> head_bytes m c 5 (uint dataSize);
          b \<leftarrow> scan_byte m c;
          if sum8 bs \<noteq> b then Some (parseErrorResetState c EPARSE_INVALID_CHKSUM)
          else
            do { opc \<leftarrow> head_byte m c 3;
                 Some (PTYPE_SONY, validPacketFound c numBytes (uint (ps_size (parser c))) (ucast opc)) } }"

definition processSonyByte ::
  "cmem \<Rightarrow> is_comm_instance_t \<Rightarrow> (protocol_type_t \<times> is_comm_instance_t) option" where
  "processSonyByte m c =
     (let st = ps_state (parser c) in
      if st = 0 then
        do { b \<leftarrow> scan_byte m c;
             Some (PTYPE_NONE, if b = SONY_START_BYTE then set_state c (st + 1) else c) }
      else if st = 1 then
        (if scan_dist c < 4 then Some (PTYPE_NONE, c)
         else
           do { hs \<leftarrow> head_bytes m c 0 4;
                fcsh \<leftarrow> head_byte m c 4;
                dataSize \<leftarrow> head_u16 m c 1;
                Some (if sum8 hs \<noteq> fcsh \<or> dataSize > MAX_MSG_LENGTH_SONY \<or> ucast dataSize > rx_size (rxBuf c)
                      then parseErrorResetState c EPARSE_INVALID_PREAMBLE
                      else (PTYPE_NONE, set_state (set_size c (dataSize + 6)) (st + 1))) })
      else
        (let numBytes = scan_dist c + 1 in
         if numBytes < uint (ps_size (parser c)) then Some (PTYPE_NONE, c)
         else sony_finish m (set_state c 0) numBytes))"

section \<open>SPARTN\<close>

definition spartn_payloadLen :: "u8 \<Rightarrow> u8 \<Rightarrow> u8 \<Rightarrow> u16" where
  "spartn_payloadLen h1 h2 h3 =
     ((push_bit 9 (ucast h1 AND 1) OR push_bit 1 (ucast h2) OR ucast (drop_bit 7 (h3 AND 0x80))) AND 0x3FF)
     + (ucast (drop_bit 4 h3 AND 3) + 1)"

text \<open>The authentication bytes announced in the second byte of the encryption block.\<close>

definition spartn_auth_len :: "u8 \<Rightarrow> u16" where
  "spartn_auth_len e =
     (if (drop_bit 3 e AND 7) > 1 then
        (if e AND 7 = 0 then 8 else if e AND 7 = 1 then 12 else if e AND 7 = 2 then 16
         else if e AND 7 = 3 then 32 else if e AND 7 = 4 then 64 else 0)
      else 0)"

definition spartn_length_step ::
  "cmem \<Rightarrow> is_comm_instance_t \<Rightarrow> (protocol_type_t \<times> is_comm_instance_t) option" where
  "spartn_length_step m c =
     (let st = ps_state (parser c) in
      do { h1 \<leftarrow> head_byte m c 1; h2 \<leftarrow> head_byte m c 2; h3 \<leftarrow> head_byte m c 3; h4 \<leftarrow> head_byte m c 4;
           (let payloadLen = spartn_payloadLen h1 h2 h3;
                extendedTs = (h4 AND 0x08 \<noteq> 0);
                encrypt = (h3 AND 0x40 \<noteq> 0);
                plainAt = (if extendedTs then 9 else 7);
                cryptAt = (if extendedTs then 11 else 9);
                encryptOff = (if extendedTs then 10 else 8) in
            if \<not> encrypt \<and> st = plainAt
            then Some (PTYPE_NONE, set_state c (- uint payloadLen))
            else if encrypt \<and> st = cryptAt then
              do { e \<leftarrow> head_byte m c (encryptOff + 1);
                   Some (PTYPE_NONE, set_state c (- uint (payloadLen + spartn_auth_len e))) }
            else Some (PTYPE_NONE, set_state c (st + 1))) })"

definition processSpartnByte ::
  "cmem \<Rightarrow> is_comm_instance_t \<Rightarrow> (protocol_type_t \<times> is_comm_instance_t) option" where
  "processSpartnByte m c =
     (let st = ps_state (parser c) in
      if st = 0 then
        do { b \<leftarrow> scan_byte m c;
             Some (PTYPE_NONE, if b = SPARTN_START_BYTE then set_state c (st + 1) else c) }
      else if st = 1 \<or> st = 2 \<or> st = 4 \<or> st = 5 \<or> st = 6 then Some (PTYPE_NONE, set_state c (st + 1))
      else if st = 3 then
        do { h1 \<leftarrow> head_byte m c 1; h2 \<leftarrow> head_byte m c 2; h3 \<leftarrow> head_byte m c 3;
             Some (if h3 AND 0x0F \<noteq> computeCrc4Ccitt [h1, h2, h3 AND 0xF0]
                   then parseErrorResetState c EPARSE_INVALID_HEADER
                   else (PTYPE_NONE, set_state c (st + 1))) }
      else if 7 \<le> st \<and> st \<le> 11 then spartn_length_step m c
      else
        (let c1 = set_state c (st + 1) in
         if st + 1 = 0
         then Some (PTYPE_SPARTN, validPacketFound c1 (scan_dist c1 + 1) (scan_dist c1 + 1) 0)
         else if st + 1 > 0 then Some (parseErrorResetState c1 EPARSE_INVALID_PAYLOAD)
         else Some (PTYPE_NONE, c1)))"

section \<open>Buffer management\<close>

definition is_comm_free :: "cmem \<Rightarrow> is_comm_instance_t \<Rightarrow> (int \<times> cmem \<times> is_comm_instance_t) option" where
  "is_comm_free m c =
     (let b = rxBuf c in
      if rx_end b = rx_tail b then
        (let shift = int (rx_head b) - int (rx_start b) in
         if shift < uint (rx_size b div 3) then
           (let c1 = snd (parseErrorResetState c EPARSE_RXBUFFER_FLUSHED);
                c2 = c1\<lparr>rxBuf := (rxBuf c1)\<lparr>rx_head := rx_start b, rx_tail := rx_start b,
                                               rx_scan := rx_start b\<rparr>\<rparr> in
            Some (int (rx_end b) - int (rx_start b), m, c2))
         else
           do { m' \<leftarrow> memcpy m (Ptr (rx_obj b) (rx_start b)) (Ptr (rx_obj b) (rx_head b))
                        (rx_tail b - rx_head b);
                (let b' = b\<lparr>rx_head := rx_start b, rx_tail := nat (int (rx_tail b) - shift),
                            rx_scan := nat (int (rx_scan b) - shift)\<rparr> in
                 Some (int (rx_end b') - int (rx_tail b'), m', c\<lparr>rxBuf := b'\<rparr>)) })
      else Some (int (rx_end b) - int (rx_tail b), m, c))"

section \<open>The scan loop\<close>

definition call_processPkt ::
  "pFnProcessPkt \<Rightarrow> cmem \<Rightarrow> is_comm_instance_t \<Rightarrow> (protocol_type_t \<times> is_comm_instance_t) option" where
  "call_processPkt f m c =
     (case f of
        ProcIsbPkt \<Rightarrow> processIsbPkt m c
      | ProcNmeaPkt \<Rightarrow> processNmeaPkt m c
      | ProcUbloxPkt \<Rightarrow> processUbloxPkt m c
      | ProcRtcm3Pkt \<Rightarrow> processRtcm3Pkt m c
      | ProcSpartnByte \<Rightarrow> processSpartnByte m c
      | ProcSonyByte \<Rightarrow> processSonyByte m c)"

definition scan_inc :: "is_comm_instance_t \<Rightarrow> is_comm_instance_t" where
  "scan_inc c = c\<lparr>rxBuf := (rxBuf c)\<lparr>rx_scan := rx_scan (rxBuf c) + 1\<rparr>\<rparr>"

text \<open>The parser a start byte selects, and the mask bit that enables it.\<close>

definition start_parser :: "u8 \<Rightarrow> (pFnProcessPkt \<times> u32) option" where
  "start_parser b =
     (if b = PSC_ISB_PREAMBLE_BYTE1 then Some (ProcIsbPkt, ENABLE_PROTOCOL_ISB)
      else if b = PSC_NMEA_START_BYTE then Some (ProcNmeaPkt, ENABLE_PROTOCOL_NMEA)
      else if b = UBLOX_START_BYTE1 then Some (ProcUbloxPkt, ENABLE_PROTOCOL_UBLOX)
      else if b = RTCM3_START_BYTE then Some (ProcRtcm3Pkt, ENABLE_PROTOCOL_RTCM3)
      else if b = SPARTN_START_BYTE then Some (ProcSpartnByte, ENABLE_PROTOCOL_SPARTN)
      else if b = SONY_START_BYTE then Some (ProcSonyByte, ENABLE_PROTOCOL_SONY)
      else None)"

text \<open>One round of the loop on the byte under the scan pointer: \<open>Inl\<close> is a return, \<open>Inr\<close> the
  next round.\<close>

definition parse_step ::
  "cmem \<Rightarrow> is_comm_instance_t \<Rightarrow> ((protocol_type_t \<times> is_comm_instance_t) + is_comm_instance_t) option"
where
  "parse_step m c =
     (case processPkt c of
        None \<Rightarrow>
          do { b \<leftarrow> scan_byte m c;
               case start_parser b of
                 Some (f, en) \<Rightarrow>
                   Some (Inr (scan_inc (if enabledMask c AND en \<noteq> 0 then setParserStart c f else c)))
               | None \<Rightarrow>
                   (let (pt, c1) = reportParseError c EPARSE_STREAM_UNPARSABLE in
                    Some (if pt \<noteq> PTYPE_NONE then Inl (PTYPE_PARSE_ERROR, c1) else Inr (scan_inc c1))) }
      | Some f \<Rightarrow>
          do { (pt, c1) \<leftarrow> call_processPkt f m c;
               Some (if pt \<noteq> PTYPE_NONE then Inl (pt, scan_inc c1) else Inr (scan_inc c1)) })"

partial_function (option) parse_loop ::
  "cmem \<Rightarrow> is_comm_instance_t \<Rightarrow> (protocol_type_t \<times> is_comm_instance_t) option" where
  "parse_loop m c =
     (if rx_scan (rxBuf c) < rx_tail (rxBuf c) then
        do { r \<leftarrow> parse_step m c;
             case r of Inl res \<Rightarrow> Some res | Inr c1 \<Rightarrow> parse_loop m c1 }
      else Some (PTYPE_NONE, c))"

definition is_comm_parse_timeout ::
  "cmem \<Rightarrow> is_comm_instance_t \<Rightarrow> u32 \<Rightarrow> (protocol_type_t \<times> is_comm_instance_t) option" where
  "is_comm_parse_timeout m c timeMs =
     (let c0 = (if processPkt c \<noteq> None \<and> timeMs > ps_timeMs (parser c) + PKT_PARSER_TIMEOUT_MS
                then is_comm_reset_parser (c\<lparr>rxBuf := (rxBuf c)\<lparr>rx_head := rx_head (rxBuf c) + 1\<rparr>\<rparr>)
                else c) in
      do { (pt, c1) \<leftarrow> parse_loop m c0;
           Some (pt, if pt = PTYPE_NONE \<and> processPkt c1 \<noteq> None
                     then c1\<lparr>parser := (parser c1)\<lparr>ps_timeMs := timeMs\<rparr>\<rparr> else c1) })"

definition is_comm_parse ::
  "cmem \<Rightarrow> is_comm_instance_t \<Rightarrow> (protocol_type_t \<times> is_comm_instance_t) option" where
  "is_comm_parse m c = is_comm_parse_timeout m c 0"

definition is_comm_parse_byte_timeout ::
  "cmem \<Rightarrow> is_comm_instance_t \<Rightarrow> u8 \<Rightarrow> u32 \<Rightarrow> (protocol_type_t \<times> cmem \<times> is_comm_instance_t) option" where
  "is_comm_parse_byte_timeout m c byte timeMs =
     do { (n, m1, c1) \<leftarrow> is_comm_free m c;
          m2 \<leftarrow> wr_byte m1 (rx_obj (rxBuf c1)) (rx_tail (rxBuf c1)) byte;
          (pt, c2) \<leftarrow> is_comm_parse_timeout m2
                        (c1\<lparr>rxBuf := (rxBuf c1)\<lparr>rx_tail := rx_tail (rxBuf c1) + 1\<rparr>\<rparr>) timeMs;
          Some (pt, m2, c2) }"

section \<open>Dispatch to the handlers\<close>

text \<open>The handlers are the application's code: each is an optional function (a null pointer is
  \<open>None\<close>) on the memory and on the application state \<open>'s\<close>; those that get the instance may
  change it. A handler that returns \<open>None\<close> made an undefined access.\<close>

type_synonym 's gen_handler = "nat \<Rightarrow> cptr \<Rightarrow> u32 \<Rightarrow> cmem \<Rightarrow> 's \<Rightarrow> (cmem \<times> 's) option"
type_synonym 's comm_handler =
  "nat \<Rightarrow> cmem \<Rightarrow> is_comm_instance_t \<Rightarrow> 's \<Rightarrow> (cmem \<times> is_comm_instance_t \<times> 's) option"

record 's is_comm_callbacks_t =
  cb_isbData :: "(nat \<Rightarrow> p_data_t \<Rightarrow> cmem \<Rightarrow> 's \<Rightarrow> (cmem \<times> 's) option) option"
  cb_isb :: "'s comm_handler option"
  cb_nmea :: "'s gen_handler option"
  cb_ublox :: "'s gen_handler option"
  cb_rtcm3 :: "'s gen_handler option"
  cb_sony :: "'s gen_handler option"
  cb_sprtn :: "'s gen_handler option"
  cb_error :: "'s comm_handler option"
  cb_all :: "'s comm_handler option"
  cb_rmc :: "(int \<Rightarrow> p_data_get_t \<Rightarrow> 's \<Rightarrow> int \<times> p_data_get_t \<times> 's) option"

type_synonym 's world = "cmem \<times> is_comm_instance_t \<times> 's"

definition call_comm :: "'s comm_handler option \<Rightarrow> nat \<Rightarrow> 's world \<Rightarrow> 's world option" where
  "call_comm h port w =
     (case h of None \<Rightarrow> Some w | Some f \<Rightarrow> (case w of (m, c, s) \<Rightarrow> f port m c s))"

definition call_gen :: "'s gen_handler option \<Rightarrow> nat \<Rightarrow> 's world \<Rightarrow> 's world option" where
  "call_gen h port w =
     (case h of
        None \<Rightarrow> Some w
      | Some f \<Rightarrow>
          (case w of (m, c, s) \<Rightarrow>
             do { (m', s') \<leftarrow> f port (ptr_add (dptr (pdata (rxPkt c))) (unat (pkt_offset (rxPkt c))))
                                (dsize (pdata (rxPkt c))) m s;
                  Some (m', c, s') }))"

definition call_isbData ::
  "(nat \<Rightarrow> p_data_t \<Rightarrow> cmem \<Rightarrow> 's \<Rightarrow> (cmem \<times> 's) option) option \<Rightarrow> nat \<Rightarrow> 's world \<Rightarrow> 's world option" where
  "call_isbData h port w =
     (case h of
        None \<Rightarrow> Some w
      | Some f \<Rightarrow>
          (case w of (m, c, s) \<Rightarrow>
             do { (m', s') \<leftarrow> f port (is_comm_to_isb_p_data c) m s; Some (m', c, s') }))"

definition dispatch ::
  "'s is_comm_callbacks_t \<Rightarrow> nat \<Rightarrow> protocol_type_t \<Rightarrow> 's world \<Rightarrow> 's world option" where
  "dispatch cb port pt w =
     (case pt of
        PTYPE_INERTIAL_SENSE_DATA \<Rightarrow>
          do { w1 \<leftarrow> call_comm (cb_isb cb) port w; call_isbData (cb_isbData cb) port w1 }
      | PTYPE_INERTIAL_SENSE_ACK \<Rightarrow> call_comm (cb_isb cb) port w
      | PTYPE_INERTIAL_SENSE_CMD \<Rightarrow> call_comm (cb_isb cb) port w
      | PTYPE_NMEA \<Rightarrow> call_gen (cb_nmea cb) port w
      | PTYPE_RTCM3 \<Rightarrow> call_gen (cb_rtcm3 cb) port w
      | PTYPE_SPARTN \<Rightarrow> call_gen (cb_sprtn cb) port w
      | PTYPE_UBLOX \<Rightarrow> call_gen (cb_ublox cb) port w
      | PTYPE_SONY \<Rightarrow> call_gen (cb_sony cb) port w
      | PTYPE_PARSE_ERROR \<Rightarrow> call_comm (cb_error cb) port w
      | PTYPE_NONE \<Rightarrow> Some w)"

partial_function (option) parse_messages ::
  "nat \<Rightarrow> 's is_comm_callbacks_t \<Rightarrow> cmem \<Rightarrow> is_comm_instance_t \<Rightarrow> 's \<Rightarrow> 's world option" where
  "parse_messages port cb m c s =
     do { (pt, c1) \<leftarrow> is_comm_parse m c;
          if pt = PTYPE_NONE then Some (m, c1, s)
          else
            do { w1 \<leftarrow> dispatch cb port pt (m, c1, s);
                 (m2, c2, s2) \<leftarrow> call_comm (cb_all cb) port w1;
                 parse_messages port cb m2 c2 s2 } }"

definition is_comm_buffer_parse_messages ::
  "cmem \<Rightarrow> u8 list \<Rightarrow> u32 \<Rightarrow> is_comm_instance_t \<Rightarrow> 's is_comm_callbacks_t \<Rightarrow> 's \<Rightarrow> 's world option" where
  "is_comm_buffer_parse_messages m buf buf_size c cb s =
     do { (free, m1, c1) \<leftarrow> is_comm_free m c;
          (let n = min (sint buf_size) free in
           do { bs \<leftarrow> obj_rd buf 0 n;
                m2 \<leftarrow> wr_bytes m1 (rx_obj (rxBuf c1)) (rx_tail (rxBuf c1)) bs;
                parse_messages 0 cb m2
                  (c1\<lparr>rxBuf := (rxBuf c1)\<lparr>rx_tail := rx_tail (rxBuf c1) + length bs\<rparr>\<rparr>) s }) }"

text \<open>\<open>portRead\<close> is the application's: given the port and the room in the buffer it returns a
  number and the bytes it stored at the tail.\<close>

type_synonym 's port_read = "nat \<Rightarrow> int \<Rightarrow> 's \<Rightarrow> int \<times> u8 list \<times> 's"

definition is_comm_port_parse_messages ::
  "'s port_read \<Rightarrow> nat \<Rightarrow> cmem \<Rightarrow> is_comm_instance_t \<Rightarrow> 's is_comm_callbacks_t \<Rightarrow> 's \<Rightarrow> 's world option" where
  "is_comm_port_parse_messages portRead port m c cb s =
     do { (bytesFree, m1, c1) \<leftarrow> is_comm_free m c;
          (case portRead port bytesFree s of
             (n, bs, s1) \<Rightarrow>
               do { m2 \<leftarrow> wr_bytes m1 (rx_obj (rxBuf c1)) (rx_tail (rxBuf c1)) bs;
                    if n \<le> 0 then Some (m2, c1, s1)
                    else parse_messages port cb m2
                           (c1\<lparr>rxBuf := (rxBuf c1)\<lparr>rx_tail := rx_tail (rxBuf c1) + nat n\<rparr>\<rparr>) s1 }) }"

declare parse_loop.simps [code]
declare parse_messages.simps [code]

text \<open>A string of digits ends at its null.\<close>

lemma hexval_0 [simp]: "hexval 0 = None"
  by (simp add: hexval_def)

end
