(* ===== verification/CommSafety.thy ===== *)
theory CommSafety
  imports CommParser
begin

text \<open>
  Why the receive path is safe and always returns. \<open>rx_wf\<close> is the invariant of the buffer
  pointers, \<open>proto_inv\<close> what is known while a parser is in charge, \<open>isb_safe\<close> the condition
  on the bytes in the buffer under which no access leaves it. The locale \<open>packet_parser\<close> is
  the contract of the function pointer \<^verbatim>\<open>processPkt\<close>; it is interpreted on the six parsers.
\<close>

section \<open>Invariants\<close>

definition rx_wf :: "cmem \<Rightarrow> is_comm_instance_t \<Rightarrow> bool" where
  "rx_wf m c \<longleftrightarrow>
     (let b = rxBuf c in
      rx_end b \<le> length (m (rx_obj b)) \<and> rx_start b \<le> rx_head b \<and> rx_head b \<le> rx_tail b \<and>
      rx_tail b \<le> rx_end b \<and> rx_head b \<le> rx_scan b \<and> rx_scan b \<le> rx_tail b + 1 \<and>
      (processPkt c \<noteq> None \<longrightarrow> rx_head b < rx_scan b \<and> rx_scan b \<le> rx_tail b))"

definition rx_dist :: "is_comm_instance_t \<Rightarrow> nat" where
  "rx_dist c = rx_scan (rxBuf c) - rx_head (rxBuf c)"

definition rx_at :: "cmem \<Rightarrow> is_comm_instance_t \<Rightarrow> nat \<Rightarrow> u8" where
  "rx_at m c i = m (rx_obj (rxBuf c)) ! (rx_head (rxBuf c) + i)"

definition rx_u16 :: "cmem \<Rightarrow> is_comm_instance_t \<Rightarrow> nat \<Rightarrow> u16" where
  "rx_u16 m c i = u16_of (rx_at m c i) (rx_at m c (i + 1))"

text \<open>An Inertial Sense header at offset \<open>h\<close> that announces neither a size that wraps the 16-bit
  packet length nor a request without its size field.\<close>

definition isb_hdr_safe :: "u8 list \<Rightarrow> nat \<Rightarrow> bool" where
  "isb_hdr_safe bs h \<longleftrightarrow>
     (bs ! h = PSC_ISB_PREAMBLE_BYTE1 \<and> bs ! (h + 1) = PSC_ISB_PREAMBLE_BYTE2 \<longrightarrow>
      u16_of (bs ! (h + 4)) (bs ! (h + 5)) < 65528 \<and>
      (bs ! (h + 2) AND PKT_TYPE_MASK = PKT_TYPE_GET_DATA \<longrightarrow> 2 \<le> u16_of (bs ! (h + 4)) (bs ! (h + 5))))"

definition isb_safe :: "cmem \<Rightarrow> is_comm_instance_t \<Rightarrow> bool" where
  "isb_safe m c \<longleftrightarrow>
     list_all (isb_hdr_safe (m (rx_obj (rxBuf c)))) [rx_head (rxBuf c) ..< rx_tail (rxBuf c) - 5]"

definition isb_inv :: "cmem \<Rightarrow> is_comm_instance_t \<Rightarrow> bool" where
  "isb_inv m c \<longleftrightarrow>
     (let st = ps_state (parser c); d = rx_dist c in
      rx_at m c 0 = PSC_ISB_PREAMBLE_BYTE1 \<and>
      (st = 1 \<and> d = 1 \<or>
       st = 2 \<and> 2 \<le> d \<and> d \<le> 5 \<and> rx_at m c 1 = PSC_ISB_PREAMBLE_BYTE2 \<or>
       st = 3 \<and> 6 \<le> d \<and> rx_at m c 1 = PSC_ISB_PREAMBLE_BYTE2 \<and>
         unat (ps_size (parser c)) = unat (rx_u16 m c 4) + 8 \<and> d < unat (ps_size (parser c))))"

definition nmea_inv :: "cmem \<Rightarrow> is_comm_instance_t \<Rightarrow> bool" where
  "nmea_inv m c \<longleftrightarrow> ps_state (parser c) = 1 \<or> ps_state (parser c) = 2"

definition ublox_inv :: "cmem \<Rightarrow> is_comm_instance_t \<Rightarrow> bool" where
  "ublox_inv m c \<longleftrightarrow>
     (let st = ps_state (parser c); d = rx_dist c in
      st = 1 \<or> st = 2 \<and> 2 \<le> d \<or> st = 3 \<and> 6 \<le> d)"

definition rtcm3_inv :: "cmem \<Rightarrow> is_comm_instance_t \<Rightarrow> bool" where
  "rtcm3_inv m c \<longleftrightarrow>
     (let st = ps_state (parser c); d = rx_dist c in
      st = 1 \<and> d = 1 \<or> st = 2 \<and> d = 2 \<or>
      st = 3 \<and> 6 \<le> unat (ps_size (parser c)) \<and> d < unat (ps_size (parser c)))"

definition sony_inv :: "cmem \<Rightarrow> is_comm_instance_t \<Rightarrow> bool" where
  "sony_inv m c \<longleftrightarrow>
     (let st = ps_state (parser c); d = rx_dist c in
      st = 1 \<and> d \<le> 4 \<or>
      st = 2 \<and> 5 \<le> d \<and> unat (ps_size (parser c)) = unat (rx_u16 m c 1) + 6 \<and>
        d < unat (ps_size (parser c)))"

definition spartn_inv :: "cmem \<Rightarrow> is_comm_instance_t \<Rightarrow> bool" where
  "spartn_inv m c \<longleftrightarrow>
     (let st = ps_state (parser c); d = rx_dist c in
      st < 0 \<or>
      1 \<le> st \<and> int d = st \<and>
        st \<le> (if 8 \<le> st then (if rx_at m c 4 AND 0x08 \<noteq> 0 then 2 else 0) +
                             (if rx_at m c 3 AND 0x40 \<noteq> 0 then 9 else 7) else 11))"

definition inv_of :: "pFnProcessPkt \<Rightarrow> cmem \<Rightarrow> is_comm_instance_t \<Rightarrow> bool" where
  "inv_of f =
     (case f of ProcIsbPkt \<Rightarrow> isb_inv | ProcNmeaPkt \<Rightarrow> nmea_inv | ProcUbloxPkt \<Rightarrow> ublox_inv
      | ProcRtcm3Pkt \<Rightarrow> rtcm3_inv | ProcSpartnByte \<Rightarrow> spartn_inv | ProcSonyByte \<Rightarrow> sony_inv)"

definition proto_inv :: "cmem \<Rightarrow> is_comm_instance_t \<Rightarrow> bool" where
  "proto_inv m c \<longleftrightarrow> (case processPkt c of None \<Rightarrow> True | Some f \<Rightarrow> inv_of f m c)"

section \<open>Reads that stay in the buffer\<close>

lemma rx_wf_bounds:
  assumes "rx_wf m c" "rx_scan (rxBuf c) < rx_tail (rxBuf c)"
  shows "rx_head (rxBuf c) \<le> rx_scan (rxBuf c)"
    and "rx_scan (rxBuf c) < length (m (rx_obj (rxBuf c)))"
    and "i \<le> rx_dist c \<Longrightarrow> rx_head (rxBuf c) + i < length (m (rx_obj (rxBuf c)))"
  using assms by (auto simp: rx_wf_def Let_def rx_dist_def)

lemma scan_byte_wf:
  "rx_wf m c \<Longrightarrow> rx_scan (rxBuf c) < rx_tail (rxBuf c) \<Longrightarrow> scan_byte m c = Some (rx_at m c (rx_dist c))"
  using rx_wf_bounds [of m c] by (simp add: scan_byte_def rd_byte_def rx_at_def rx_dist_def)

lemma head_byte_wf:
  "rx_wf m c \<Longrightarrow> rx_scan (rxBuf c) < rx_tail (rxBuf c) \<Longrightarrow> i \<le> rx_dist c \<Longrightarrow>
   head_byte m c i = Some (rx_at m c i)"
  using rx_wf_bounds [of m c] by (simp add: head_byte_def rd_byte_def rx_at_def)

lemma head_u16_wf:
  "rx_wf m c \<Longrightarrow> rx_scan (rxBuf c) < rx_tail (rxBuf c) \<Longrightarrow> i + 1 \<le> rx_dist c \<Longrightarrow>
   head_u16 m c i = Some (rx_u16 m c i)"
  using rx_wf_bounds(3) [of m c i] rx_wf_bounds(3) [of m c "i + 1"]
  by (simp add: head_u16_def rd_u16_def rd_byte_def rx_at_def rx_u16_def)

lemma head_bytes_wf:
  assumes "rx_wf m c" "rx_scan (rxBuf c) < rx_tail (rxBuf c)" "0 \<le> n" "int i + n \<le> int (rx_dist c) + 1"
  obtains bs where "head_bytes m c i n = Some bs" "int (length bs) = n"
proof -
  have "rx_head (rxBuf c) + i + nat n \<le> length (m (rx_obj (rxBuf c)))"
    using rx_wf_bounds(3) [OF assms(1,2), of "rx_dist c"] assms(3,4) by simp
  then show thesis using that assms(3) by (simp add: head_bytes_def rd_bytes_def)
qed

lemma scan_dist_wf: "rx_wf m c \<Longrightarrow> scan_dist c = int (rx_dist c)"
  by (simp add: scan_dist_def rx_dist_def rx_wf_def Let_def)

lemma frame_simps [simp]:
  "rxBuf (set_state c s) = rxBuf c" "rxBuf (set_size c n) = rxBuf c"
  "rx_at m (set_state c s) = rx_at m c" "rx_at m (set_size c n) = rx_at m c"
  "rx_u16 m (set_state c s) = rx_u16 m c" "rx_u16 m (set_size c n) = rx_u16 m c"
  "rx_dist (set_state c s) = rx_dist c" "rx_dist (set_size c n) = rx_dist c"
  "rx_wf m (set_state c s) = rx_wf m c" "rx_wf m (set_size c n) = rx_wf m c"
  "processPkt (set_state c s) = processPkt c" "processPkt (set_size c n) = processPkt c"
  "ps_state (parser (set_state c s)) = s" "ps_size (parser (set_state c s)) = ps_size (parser c)"
  "ps_state (parser (set_size c n)) = ps_state (parser c)" "ps_size (parser (set_size c n)) = n"
  by (auto simp: set_state_def set_size_def rx_at_def rx_u16_def rx_dist_def rx_wf_def fun_eq_iff)

lemma scan_inc_simps [simp]:
  "rx_at m (scan_inc c) = rx_at m c" "rx_u16 m (scan_inc c) = rx_u16 m c"
  "parser (scan_inc c) = parser c" "processPkt (scan_inc c) = processPkt c"
  "rxErrorState (scan_inc c) = rxErrorState c" "enabledMask (scan_inc c) = enabledMask c"
  "rx_scan (rxBuf (scan_inc c)) = rx_scan (rxBuf c) + 1" "rx_head (rxBuf (scan_inc c)) = rx_head (rxBuf c)"
  "rx_tail (rxBuf (scan_inc c)) = rx_tail (rxBuf c)" "rx_start (rxBuf (scan_inc c)) = rx_start (rxBuf c)"
  "rx_end (rxBuf (scan_inc c)) = rx_end (rxBuf c)" "rx_obj (rxBuf (scan_inc c)) = rx_obj (rxBuf c)"
  by (auto simp: scan_inc_def rx_at_def rx_u16_def fun_eq_iff)

lemma rx_dist_scan_inc: "rx_wf m c \<Longrightarrow> rx_dist (scan_inc c) = rx_dist c + 1"
  by (auto simp: rx_dist_def scan_inc_def rx_wf_def Let_def)

section \<open>The contract of a packet parser\<close>

text \<open>The three ways a parser call ends: it waits for more bytes, it gives up at an error, or it
  has a packet, which may still be rejected for its type.\<close>

definition found :: "is_comm_instance_t \<Rightarrow> is_comm_instance_t \<Rightarrow> bool" where
  "found c c' \<longleftrightarrow>
     processPkt c' = None \<and> rxBuf c' = (rxBuf c)\<lparr>rx_head := rx_scan (rxBuf c) + 1\<rparr> \<and>
     \<not> rxErrorState c' \<and> rxPktCount c' = rxPktCount c + 1 \<and> rxErrorCount c' = rxErrorCount c \<and>
     rxErrorTypeCount c' = rxErrorTypeCount c \<and> enabledMask c' = enabledMask c"

text \<open>Two error codes are declared and never raised: the end of an NMEA sentence is not
  checked, and the SPARTN states cannot run past the last one.\<close>

definition raised :: "eParseErrorType \<Rightarrow> bool" where
  "raised e \<longleftrightarrow> e \<noteq> EPARSE_MISSING_EOS_MARKER \<and> e \<noteq> EPARSE_INVALID_PAYLOAD"

lemma raised_simps [simp]:
  "raised EPARSE_INVALID_PREAMBLE" "raised EPARSE_INVALID_SIZE" "raised EPARSE_INVALID_CHKSUM"
  "raised EPARSE_INVALID_DATATYPE" "raised EPARSE_INCOMPLETE_PACKET" "raised EPARSE_INVALID_HEADER"
  "raised EPARSE_RXBUFFER_FLUSHED" "raised EPARSE_STREAM_UNPARSABLE"
  by (simp_all add: raised_def)

definition outcome ::
  "(cmem \<Rightarrow> is_comm_instance_t \<Rightarrow> bool) \<Rightarrow> cmem \<Rightarrow> is_comm_instance_t \<Rightarrow> protocol_type_t \<Rightarrow>
   is_comm_instance_t \<Rightarrow> bool" where
  "outcome pinv m c pt c' \<longleftrightarrow>
     (pt = PTYPE_NONE \<and> (\<exists>p. c' = c\<lparr>parser := p\<rparr>) \<and> pinv m (scan_inc c')) \<or>
     (\<exists>p e. raised e \<and> (pt, c') = parseErrorResetState (c\<lparr>parser := p\<rparr>) e) \<or>
     (pt \<noteq> PTYPE_NONE \<and> found c c') \<or>
     (\<exists>d e. raised e \<and> found c d \<and> (pt, c') = parseErrorResetState d e)"

definition ends_well ::
  "(cmem \<Rightarrow> is_comm_instance_t \<Rightarrow> bool) \<Rightarrow> cmem \<Rightarrow> is_comm_instance_t \<Rightarrow>
   (protocol_type_t \<times> is_comm_instance_t) option \<Rightarrow> bool" where
  "ends_well pinv m c r \<longleftrightarrow> (\<exists>pt c'. r = Some (pt, c') \<and> outcome pinv m c pt c')"

definition same_but_parser :: "is_comm_instance_t \<Rightarrow> is_comm_instance_t \<Rightarrow> bool" where
  "same_but_parser c d \<longleftrightarrow> (\<exists>p. d = c\<lparr>parser := p\<rparr>)"

lemma same_but_parser [simp, intro]:
  "same_but_parser c c" "same_but_parser c (set_state c s)" "same_but_parser c (set_size c n)"
  "same_but_parser c (set_size (set_state c s) n)" "same_but_parser c (set_state (set_size c n) s)"
  by (auto simp: same_but_parser_def set_state_def set_size_def intro: exI [of _ "parser c"])

lemma ends_wait:
  "same_but_parser c c' \<Longrightarrow> pinv m (scan_inc c') \<Longrightarrow> ends_well pinv m c (Some (PTYPE_NONE, c'))"
  by (auto simp: ends_well_def outcome_def same_but_parser_def)

lemma ends_error:
  "same_but_parser c d \<Longrightarrow> raised e \<Longrightarrow> ends_well pinv m c (Some (parseErrorResetState d e))"
  unfolding ends_well_def outcome_def same_but_parser_def by (metis surj_pair)

lemma ends_found: "pt \<noteq> PTYPE_NONE \<Longrightarrow> found c c' \<Longrightarrow> ends_well pinv m c (Some (pt, c'))"
  by (auto simp: ends_well_def outcome_def)

lemma ends_rejected: "found c d \<Longrightarrow> raised e \<Longrightarrow> ends_well pinv m c (Some (parseErrorResetState d e))"
  unfolding ends_well_def outcome_def by (metis surj_pair)

lemma found_validPacketReset:
  assumes "rx_wf m c" "same_but_parser c c1"
  shows "found c (validPacketReset c1 (scan_dist c + 1))"
    and "found c (validPacketFound c1 (scan_dist c + 1) n i)"
    and "found c ((validPacketReset c1 (scan_dist c + 1))\<lparr>rxPkt := pkt, ackNeeded := a\<rparr>)"
    and "found c ((validPacketReset c1 (scan_dist c + 1))\<lparr>rxPkt := pkt, ackNeeded := a\<rparr>\<lparr>ackNeeded := b\<rparr>)"
proof -
  have "nat (int (rx_head (rxBuf c)) + (scan_dist c + 1)) = rx_scan (rxBuf c) + 1"
    by (simp add: scan_dist_def)
  then show "found c (validPacketReset c1 (scan_dist c + 1))"
    "found c (validPacketFound c1 (scan_dist c + 1) n i)"
    "found c ((validPacketReset c1 (scan_dist c + 1))\<lparr>rxPkt := pkt, ackNeeded := a\<rparr>)"
    "found c ((validPacketReset c1 (scan_dist c + 1))\<lparr>rxPkt := pkt, ackNeeded := a\<rparr>\<lparr>ackNeeded := b\<rparr>)"
    using assms(2) by (auto simp: found_def validPacketReset_def validPacketFound_def same_but_parser_def)
qed

section \<open>Progress\<close>

text \<open>What stays: the object, the limits and the tail of the buffer, the protocol mask, and the
  balance between the error counter and the counters by type.\<close>

definition err_total :: "is_comm_instance_t \<Rightarrow> u32" where
  "err_total c =
     sum_list (map (rxErrorTypeCount c)
       [EPARSE_INVALID_PREAMBLE, EPARSE_INVALID_SIZE, EPARSE_INVALID_CHKSUM, EPARSE_INVALID_DATATYPE,
        EPARSE_MISSING_EOS_MARKER, EPARSE_INCOMPLETE_PACKET, EPARSE_INVALID_HEADER,
        EPARSE_INVALID_PAYLOAD, EPARSE_RXBUFFER_FLUSHED, EPARSE_STREAM_UNPARSABLE])"

definition rx_frame :: "is_comm_instance_t \<Rightarrow> is_comm_instance_t \<Rightarrow> bool" where
  "rx_frame c c' \<longleftrightarrow>
     rx_obj (rxBuf c') = rx_obj (rxBuf c) \<and> rx_start (rxBuf c') = rx_start (rxBuf c) \<and>
     rx_end (rxBuf c') = rx_end (rxBuf c) \<and> rx_tail (rxBuf c') = rx_tail (rxBuf c) \<and>
     rx_head (rxBuf c) \<le> rx_head (rxBuf c') \<and> rx_size (rxBuf c') = rx_size (rxBuf c) \<and> enabledMask c' = enabledMask c \<and>
     rxErrorCount c' - err_total c' = rxErrorCount c - err_total c \<and>
     (\<forall>e. \<not> raised e \<longrightarrow> rxErrorTypeCount c' e = rxErrorTypeCount c e)"

text \<open>The bytes the parser may still have to look at, counted from the packet in progress; those
  behind the scan pointer; and the error still to report.\<close>

definition work :: "is_comm_instance_t \<Rightarrow> nat" where
  "work c = rx_tail (rxBuf c) - (if processPkt c = None then rx_scan (rxBuf c) else rx_head (rxBuf c))"

definition rest :: "is_comm_instance_t \<Rightarrow> nat" where
  "rest c = rx_tail (rxBuf c) - rx_scan (rxBuf c)"

definition err_due :: "is_comm_instance_t \<Rightarrow> nat" where
  "err_due c = (if rxErrorState c then 0 else 1)"

definition parse_rel :: "(is_comm_instance_t \<times> is_comm_instance_t) set" where
  "parse_rel = measures [work, rest, err_due]"

lemma wf_parse_rel: "wf parse_rel"
  by (simp add: parse_rel_def)

lemma trans_parse_rel: "(a, b) \<in> parse_rel \<Longrightarrow> (b, c) \<in> parse_rel \<Longrightarrow> (a, c) \<in> parse_rel"
  by (auto simp: parse_rel_def)

lemma rx_frame_refl [simp]: "rx_frame c c"
  by (simp add: rx_frame_def)

lemma rx_frame_trans [trans]: "rx_frame a b \<Longrightarrow> rx_frame b c \<Longrightarrow> rx_frame a c"
  by (simp add: rx_frame_def)

lemma isb_safe_frame: "rx_frame c c' \<Longrightarrow> isb_safe m c \<Longrightarrow> isb_safe m c'"
  by (simp add: rx_frame_def isb_safe_def list_all_iff)

lemma err_total_report:
  "err_total (c\<lparr>rxErrorState := a, rxErrorCount := n, rxErrorType := e,
      rxErrorTypeCount := (rxErrorTypeCount c)(e := rxErrorTypeCount c e + 1)\<rparr>) = err_total c + 1"
  by (cases e) (simp_all add: err_total_def)

lemma err_total_cong: "rxErrorTypeCount c' = rxErrorTypeCount c \<Longrightarrow> err_total c' = err_total c"
  by (simp add: err_total_def)

lemma reportParseError_frame:
  assumes "reportParseError c e = (pt, c')" "raised e"
  shows "rx_frame c c'" "rxBuf c' = rxBuf c" "processPkt c' = processPkt c" "parser c' = parser c"
    "rxErrorState c'" "pt \<noteq> PTYPE_NONE \<longleftrightarrow> \<not> rxErrorState c"
  using assms by (auto simp: reportParseError_def rx_frame_def err_total_report split: if_splits)

lemma parseErrorResetState_frame:
  assumes "parseErrorResetState c e = (pt, c')" "raised e"
  shows "rx_frame c c'" "rx_head (rxBuf c') = rx_head (rxBuf c)" "rx_scan (rxBuf c') = rx_head (rxBuf c)"
    "processPkt c' = None"
proof -
  have r: "reportParseError (is_comm_reset_parser c) e = (pt, c')" using assms by (simp add: parseErrorResetState_def)
  have "rx_frame c (is_comm_reset_parser c)"
    by (simp add: is_comm_reset_parser_def rx_frame_def err_total_def)
  then show "rx_frame c c'" using reportParseError_frame(1) [OF r assms(2)] rx_frame_trans by blast
  show "rx_head (rxBuf c') = rx_head (rxBuf c)" "rx_scan (rxBuf c') = rx_head (rxBuf c)" "processPkt c' = None"
    using reportParseError_frame(2,3) [OF r assms(2)] by (simp_all add: is_comm_reset_parser_def)
qed

lemma rx_frame_scan_inc: "rx_frame c c' \<Longrightarrow> rx_frame c (scan_inc c')"
  by (simp add: rx_frame_def scan_inc_def err_total_def)

lemma rx_frame_found: "found c c' \<Longrightarrow> rx_head (rxBuf c) \<le> rx_scan (rxBuf c) \<Longrightarrow> rx_frame c c'"
  by (simp add: rx_frame_def found_def err_total_def)

definition good :: "(cmem \<Rightarrow> is_comm_instance_t \<Rightarrow> bool) \<Rightarrow> cmem \<Rightarrow> is_comm_instance_t \<Rightarrow> is_comm_instance_t \<Rightarrow> bool" where
  "good P m c c' \<longleftrightarrow> rx_wf m c' \<and> rx_frame c c' \<and> (c', c) \<in> parse_rel \<and> (processPkt c' = None \<or> processPkt c' = processPkt c \<and> P m c')"

lemma idle_good:
  assumes wf: "rx_wf m c" and fr: "rx_frame c c'" and idle: "processPkt c' = None"
    and h: "rx_head (rxBuf c) \<le> rx_head (rxBuf c')" "rx_head (rxBuf c') \<le> rx_tail (rxBuf c)"
    and sc: "rx_head (rxBuf c') \<le> rx_scan (rxBuf c')" "rx_scan (rxBuf c') \<le> rx_tail (rxBuf c) + 1"
    and less: "rx_head (rxBuf c) < rx_scan (rxBuf c')" "rx_head (rxBuf c) < rx_tail (rxBuf c)"
    and run: "processPkt c \<noteq> None"
  shows "good P m c c'"
  using assms by (auto simp: good_def rx_wf_def rx_frame_def Let_def parse_rel_def work_def)

lemma ends_well_good:
  assumes wf: "rx_wf m c" "rx_scan (rxBuf c) < rx_tail (rxBuf c)" "processPkt c = Some f"
    and e: "ends_well P m c r"
  obtains pt c' where "r = Some (pt, c')" "good P m c (scan_inc c')"
proof -
  obtain pt c' where r: "r = Some (pt, c')" and o: "outcome P m c pt c'" using e by (auto simp: ends_well_def)
  have run: "processPkt c \<noteq> None" and b: "rx_head (rxBuf c) < rx_scan (rxBuf c)" "rx_head (rxBuf c) < rx_tail (rxBuf c)"
    using wf by (auto simp: rx_wf_def Let_def)
  have rej: "good P m c (scan_inc c')" if "found c d" "(pt, c') = parseErrorResetState d e'" "raised e'" for d e'
  proof -
    note fr = parseErrorResetState_frame [OF that(2) [symmetric] that(3)]
    have "rx_frame c c'" using rx_frame_trans rx_frame_found [OF that(1)] fr(1) b(1) by force
    then show ?thesis using that(1) fr(2-) b wf(2)
      by (intro idle_good [OF wf(1) rx_frame_scan_inc _ _ _ _ _ _ _ run]) (auto simp: found_def)
  qed
  from o consider p where "c' = c\<lparr>parser := p\<rparr>" "P m (scan_inc c')"
    | p e' where "(pt, c') = parseErrorResetState (c\<lparr>parser := p\<rparr>) e'" "raised e'"
    | "found c c'" | d e' where "found c d" "(pt, c') = parseErrorResetState d e'" "raised e'"
    unfolding outcome_def by blast
  then have "good P m c (scan_inc c')"
  proof cases
    case 1
    have "rx_frame c (scan_inc c')" by (rule rx_frame_scan_inc) (simp add: 1(1) rx_frame_def err_total_def)
    then show ?thesis using 1 wf b
      by (auto simp: good_def rx_wf_def Let_def parse_rel_def work_def rest_def)
  next
    case 2
    note fr = parseErrorResetState_frame [OF 2(1) [symmetric] 2(2)]
    have "rx_frame c (c\<lparr>parser := p\<rparr>)" by (simp add: rx_frame_def err_total_def)
    then have "rx_frame c c'" using rx_frame_trans fr(1) by blast
    then show ?thesis using fr(2-) b
      by (intro idle_good [OF wf(1) rx_frame_scan_inc _ _ _ _ _ _ _ run]) auto
  next
    case 3
    then show ?thesis using b wf(2)
      by (intro idle_good [OF wf(1) rx_frame_scan_inc [OF rx_frame_found [OF _ less_imp_le [OF b(1)]]] _ _ _ _ _ _ _ run]) (auto simp: found_def)
  qed (rule rej)
  then show thesis using that r by blast
qed

section \<open>The interface of a parser\<close>

locale packet_parser =
  fixes proc :: "cmem \<Rightarrow> is_comm_instance_t \<Rightarrow> (protocol_type_t \<times> is_comm_instance_t) option"
    and pinv :: "cmem \<Rightarrow> is_comm_instance_t \<Rightarrow> bool"
    and tag :: pFnProcessPkt and start_byte :: u8
  assumes starts: "rx_wf m c \<Longrightarrow> scan_byte m c = Some start_byte \<Longrightarrow> pinv m (scan_inc (setParserStart c tag))"
    and contract: "rx_wf m c \<Longrightarrow> rx_scan (rxBuf c) < rx_tail (rxBuf c) \<Longrightarrow> processPkt c = Some tag \<Longrightarrow>
      pinv m c \<Longrightarrow> isb_safe m c \<Longrightarrow> ends_well pinv m c (proc m c)"
begin

lemma call_good:
  assumes "rx_wf m c" "rx_scan (rxBuf c) < rx_tail (rxBuf c)" "processPkt c = Some tag" "pinv m c" "isb_safe m c"
  shows "\<exists>pt c'. proc m c = Some (pt, c') \<and> good pinv m c (scan_inc c')"
  using ends_well_good [OF assms(1-3) contract [OF assms]] by blast

end

lemma start_dist: "rx_dist (scan_inc (setParserStart c f)) = 1"
  by (simp add: rx_dist_def setParserStart_def scan_inc_def)

lemma start_at: "scan_byte m c = Some b \<Longrightarrow> rx_at m (setParserStart c f) 0 = b"
  by (auto simp: scan_byte_def rd_byte_def rx_at_def setParserStart_def split: if_splits)

lemma start_state: "ps_state (parser (setParserStart c f)) = 1"
  by (simp add: setParserStart_def)

lemmas starts_simps = start_dist start_at start_state

lemma dist_pos:
  "rx_wf m c \<Longrightarrow> processPkt c = Some f \<Longrightarrow> 1 \<le> rx_dist c"
  by (auto simp: rx_wf_def Let_def rx_dist_def)

lemmas ends_intros = ends_wait ends_error

lemma uint_less: "int n < uint w \<longleftrightarrow> n < unat w" "uint w \<le> int n \<longleftrightarrow> unat w \<le> n" "uint w = int n \<longleftrightarrow> unat w = n"
  for w :: "'a::len word"
  by (simp_all add: uint_nat del: of_nat_unat)

lemma ublox_ok:
  assumes wf: "rx_wf m c" "rx_scan (rxBuf c) < rx_tail (rxBuf c)" and pp: "processPkt c = Some f"
    and inv: "ublox_inv m c"
  shows "ends_well ublox_inv m c (processUbloxPkt m c)"
proof -
  note sd = scan_dist_wf [OF wf(1)]
  note red = processUbloxPkt_def ublox_inv_def Let_def rx_dist_scan_inc
  consider "ps_state (parser c) = 1" | "ps_state (parser c) = 2" "2 \<le> rx_dist c"
    | "ps_state (parser c) = 3" "6 \<le> rx_dist c"
    using inv by (auto simp: ublox_inv_def Let_def)
  then show ?thesis
  proof cases
    case 1
    then show ?thesis using dist_pos [OF wf(1) pp] wf
      by (auto simp: red scan_byte_wf intro!: ends_intros)
  next
    case 2
    then show ?thesis using wf by (auto simp: red head_u16_wf sd intro!: ends_intros)
  next
    case 3
    obtain bs where "head_bytes m (set_state c 0) 2 (scan_dist c - 3) = Some bs"
      using head_bytes_wf [of m "set_state c 0" "scan_dist c - 3" 2] wf 3 sd by auto
    moreover obtain ck where "rd_u16 m (rx_obj (rxBuf c)) (rx_scan (rxBuf c) - 1) = Some ck"
    proof -
      have "rx_scan (rxBuf c) - 1 + 1 < length (m (rx_obj (rxBuf c)))"
        using rx_wf_bounds [OF wf] 3 by (simp add: rx_dist_def)
      then show thesis using that rd_u16_Some by blast
    qed
    moreover have "scan_dist (set_state c 0) = scan_dist c" by (simp add: scan_dist_def)
    ultimately show ?thesis using 3 wf found_validPacketReset(2) [OF wf(1), of "set_state c 0"]
      by (auto simp: red ublox_finish_def head_byte_wf ends_found intro!: ends_intros)
  qed
qed

lemma rtcm3_len_ge: "6 \<le> unat (ucast (bit_field bs 14 10 + 6) :: u16)"
proof -
  let ?x = "bit_field bs 14 10"
  have "take_bit 10 ?x = ?x"
    by (rule bit_word_eqI) (auto simp: bit_take_bit_iff bit_field_bit)
  then have "take_bit 10 (unat ?x) = unat ?x" by (metis unsigned_take_bit_eq)
  then have "unat ?x < 1024" using take_bit_nat_less_exp [of 10 "unat ?x"] by simp
  then have "unat (?x + 6) = unat ?x + 6" by (simp add: unat_word_ariths)
  then have "unat (ucast (?x + 6) :: u16) = unat ?x + 6"
    using \<open>unat ?x < 1024\<close> by (simp add: unsigned_ucast_eq take_bit_nat_eq_self)
  then show ?thesis by simp
qed

text \<open>The three fields the RTCM3 parser reads are inside what it read.\<close>

lemma rtcm3_fields:
  "length bs = 3 \<Longrightarrow> getBitsAsUInt32 bs 14 10 = Some (bit_field bs 14 10)"
  "length bs = 3 \<Longrightarrow> getBitsAsUInt32 bs 0 24 = Some (bit_field bs 0 24)"
  "length bs = 5 \<Longrightarrow> messageStatsGetbitu bs 24 12 = Some (bit_field bs 24 12)"
  using getBits_inside [of 14 10 bs] getBits_inside [of 0 24 bs] getbitu_inside [of 24 12 bs]
  by simp_all

lemma rtcm3_ok:
  assumes wf: "rx_wf m c" "rx_scan (rxBuf c) < rx_tail (rxBuf c)" and inv: "rtcm3_inv m c"
  shows "ends_well rtcm3_inv m c (processRtcm3Pkt m c)"
proof -
  note sd = scan_dist_wf [OF wf(1)]
  note red = processRtcm3Pkt_def rtcm3_inv_def Let_def rx_dist_scan_inc
  consider "ps_state (parser c) = 1" "rx_dist c = 1" | "ps_state (parser c) = 2" "rx_dist c = 2"
    | "ps_state (parser c) = 3" "6 \<le> unat (ps_size (parser c))" "rx_dist c < unat (ps_size (parser c))"
    using inv by (auto simp: rtcm3_inv_def Let_def)
  then show ?thesis
  proof cases
    case 1
    then show ?thesis using wf by (auto simp: red intro!: ends_intros)
  next
    case 2
    obtain bs where bs: "head_bytes m c 0 3 = Some bs" "length bs = 3"
      using head_bytes_wf [OF wf, of 3 0] 2 by auto
    show ?thesis using 2 wf bs rtcm3_len_ge [of bs]
      by (auto simp: red rtcm3_fields(1) [OF bs(2)] intro!: ends_intros)
  next
    case 3
    then have sz: "6 \<le> uint (ps_size (parser c))" "int (rx_dist c) < uint (ps_size (parser c))"
      using uint_nat [of "ps_size (parser c)"] by linarith+
    show ?thesis
    proof (cases "scan_dist c + 1 < uint (ps_size (parser c))")
      case True
      then have "rx_dist c + 1 < unat (ps_size (parser c))" using sd uint_less(1) [of "rx_dist c + 1" "ps_size (parser c)"] by simp
      then show ?thesis using 3(1,2) True wf by (simp add: red ends_wait)
    next
      case False
      then have e: "uint (ps_size (parser c)) = int (rx_dist c) + 1" using sz sd by simp
      obtain bs where "head_bytes m (set_state c 0) 0 (uint (ps_size (parser c)) - 3) = Some bs"
        using head_bytes_wf [of m "set_state c 0" "uint (ps_size (parser c)) - 3" 0] wf sz e by auto
      moreover obtain cs where cs: "head_bytes m (set_state c 0) (nat (uint (ps_size (parser c)) - 3)) 3 = Some cs"
        "length cs = 3" using head_bytes_wf [of m "set_state c 0" 3 "nat (uint (ps_size (parser c)) - 3)"] wf sz e by auto
      moreover obtain ids where ids: "head_bytes m (set_state c 0) 0 5 = Some ids" "length ids = 5"
        using head_bytes_wf [of m "set_state c 0" 5 0] wf sz e by auto
      moreover have "scan_dist (set_state c 0) = scan_dist c" by (simp add: scan_dist_def)
      ultimately show ?thesis using 3 False wf found_validPacketReset(2) [OF wf(1), of "set_state c 0"]
        by (auto simp: processRtcm3Pkt_def Let_def rtcm3_finish_def ends_found rtcm3_fields(2) [OF cs(2)]
            rtcm3_fields(3) [OF ids(2)] intro!: ends_intros)
    qed
  qed
qed


lemma scan_dist_set [simp]: "scan_dist (set_state c s) = scan_dist c" "scan_dist (set_size c n) = scan_dist c"
  by (simp_all add: scan_dist_def)

lemma sony_ok:
  assumes wf: "rx_wf m c" "rx_scan (rxBuf c) < rx_tail (rxBuf c)" and inv: "sony_inv m c"
  shows "ends_well sony_inv m c (processSonyByte m c)"
proof -
  note sd = scan_dist_wf [OF wf(1)]
  note red = processSonyByte_def sony_inv_def Let_def rx_dist_scan_inc
  consider "ps_state (parser c) = 1" "rx_dist c < 4" | "ps_state (parser c) = 1" "rx_dist c = 4"
    | "ps_state (parser c) = 2" "5 \<le> rx_dist c" "unat (ps_size (parser c)) = unat (rx_u16 m c 1) + 6"
      "rx_dist c < unat (ps_size (parser c))"
    using inv by (fastforce simp: sony_inv_def Let_def)
  then show ?thesis
  proof cases
    case 1
    then show ?thesis using wf sd by (auto simp: red intro!: ends_intros)
  next
    case 2
    obtain bs where bs: "head_bytes m c 0 4 = Some bs"
      using head_bytes_wf [OF wf, of 4 0] 2 by auto
    have "unat (n + 6) = unat n + 6" if "n \<le> 4090" for n :: u16
      using that by (simp add: unat_word_ariths word_le_nat_alt)
    then show ?thesis using 2 wf sd bs
      by (auto simp: red head_byte_wf head_u16_wf not_less intro!: ends_intros)
  next
    case 3
    show ?thesis
    proof (cases "scan_dist c + 1 < uint (ps_size (parser c))")
      case True
      then have "rx_dist c + 1 < unat (ps_size (parser c))"
        using sd uint_less(1) [of "rx_dist c + 1" "ps_size (parser c)"] by simp
      then show ?thesis using 3(1-3) True wf by (simp add: red ends_wait)
    next
      case False
      then have e: "unat (rx_u16 m c 1) + 6 = rx_dist c + 1"
        using 3 sd uint_less(1) [of "rx_dist c + 1" "ps_size (parser c)"] by simp
      obtain bs where bs: "head_bytes m (set_state c 0) 5 (uint (rx_u16 m c 1)) = Some bs"
        using head_bytes_wf [of m "set_state c 0" "uint (rx_u16 m c 1)" 5] wf e
          uint_nat [of "rx_u16 m c 1"] by (auto simp del: of_nat_unat)
      show ?thesis using 3 False wf bs found_validPacketReset(2) [OF wf(1), of "set_state c 0"]
        by (auto simp: processSonyByte_def Let_def sony_finish_def head_byte_wf head_u16_wf scan_byte_wf
            ends_found intro!: ends_intros)
    qed
  qed
qed

text \<open>\<open>strtol\<close> on a string with a zero byte returns.\<close>

lemma strtol_digits_Some: "0 \<in> set bs \<Longrightarrow> \<exists>v. strtol_digits bs acc = Some v"
  by (induction bs arbitrary: acc) (auto split: option.splits)

lemma strtol_prefix_Some: "0 \<in> set bs \<Longrightarrow> \<exists>v. strtol_prefix bs = Some v"
  using strtol_digits_Some [of bs 0] strtol_digits_Some [of "tl (tl bs)" 0]
  by (auto simp: strtol_prefix_def split: list.splits)

lemma strtol16_Some:
  assumes "0 \<in> set bs"
  shows "\<exists>v. strtol16 bs = Some v"
proof -
  have "0 \<in> set (dropWhile is_space bs)"
    using assms by (induction bs) (auto simp: is_space_def)
  then show ?thesis
    using strtol_prefix_Some [of "dropWhile is_space bs"] strtol_prefix_Some [of "tl (dropWhile is_space bs)"]
    by (cases "dropWhile is_space bs") (auto simp: strtol16_def)
qed

lemma wr_byte_restore:
  assumes "rd_byte m ob i = Some b" "wr_byte m ob i v = Some m1"
  shows "wr_byte m1 ob i b = Some m"
proof -
  have i: "i < length (m ob)" "b = m ob ! i" and
    m1: "m1 = m(ob := take i (m ob) @ v # drop (Suc i) (m ob))"
    using assms by (auto simp: mem_defs split: if_splits)
  have "take i (m ob) @ m ob ! i # drop (Suc i) (m ob) = m ob" using i(1) by (simp add: id_take_nth_drop [symmetric])
  then show ?thesis using i by (simp add: m1 mem_defs)
qed

lemma nmea_ok:
  assumes wf: "rx_wf m c" "rx_scan (rxBuf c) < rx_tail (rxBuf c)" and inv: "nmea_inv m c"
  shows "ends_well nmea_inv m c (processNmeaPkt m c)"
proof (cases "ps_state (parser c) = 1")
  case True
  then show ?thesis using wf
    by (auto simp: processNmeaPkt_def nmea_inv_def Let_def scan_byte_wf intro!: ends_intros)
next
  case False
  then have st: "ps_state (parser c) = 2" using inv by (simp add: nmea_inv_def)
  show ?thesis
  proof (cases "scan_dist c + 1 < 8")
    case True
    then show ?thesis using st
      by (simp add: processNmeaPkt_def Let_def nmea_finish_def ends_error)
  next
    case False
    let ?ob = "rx_obj (rxBuf c)" and ?sc = "rx_scan (rxBuf c)" and ?h = "rx_head (rxBuf c)"
    have b: "?sc < length (m ?ob)" "?h + 7 \<le> ?sc" "?h \<le> ?sc"
      using rx_wf_bounds [OF wf] False by (auto simp: scan_dist_def)
    obtain m1 where m1: "wr_byte m ?ob (?sc - 1) 0 = Some m1"
      using b by (auto simp: mem_defs)
    have "m1 ?ob ! (?sc - 1) = 0" "length (m1 ?ob) = length (m ?ob)"
      using m1 b by (auto simp: mem_defs nth_append split: if_splits)
    then have "0 \<in> set (drop (?sc - 3) (m1 ?ob))"
      using b by (auto simp: in_set_conv_nth intro!: exI [of _ 2])
    then obtain v where v: "strtol16 (drop (?sc - 3) (m1 ?ob)) = Some v" using strtol16_Some by blast
    have tmp: "rd_byte m ?ob (?sc - 1) = Some (m ?ob ! (?sc - 1))" using b by (simp add: rd_byte_def)
    note m2 = wr_byte_restore [OF tmp m1]
    obtain bs where bs: "rd_bytes m ?ob (?h + 1) (?sc - 4 - (?h + 1)) = Some bs"
    proof -
      have "?h + 1 + (?sc - 4 - (?h + 1)) \<le> length (m ?ob)" using b by linarith
      then show thesis using that rd_bytes_Some by blast
    qed
    obtain i where i: "getNmeaMsgId (drop ?h (m ?ob)) (scan_dist c + 1) = Some i"
    proof -
      have "7 \<le> length (drop ?h (m ?ob))" "scan_dist c + 1 \<le> int (length (drop ?h (m ?ob)))"
        using b by (auto simp: scan_dist_def)
      then show thesis using that getNmeaMsgId_Some by blast
    qed
    show ?thesis using st False tmp m1 m2 v bs i found_validPacketReset(2) [OF wf(1), of "set_state c 0"]
      by (auto simp: processNmeaPkt_def Let_def nmea_finish_def ends_found intro!: ends_intros)
  qed
qed


lemma isb_safe_head:
  assumes "isb_safe m c" "rx_wf m c" "rx_scan (rxBuf c) < rx_tail (rxBuf c)" "5 \<le> rx_dist c"
    "rx_at m c 0 = PSC_ISB_PREAMBLE_BYTE1" "rx_at m c 1 = PSC_ISB_PREAMBLE_BYTE2"
  shows "unat (rx_u16 m c 4) < 65528" "rx_at m c 2 AND PKT_TYPE_MASK = PKT_TYPE_GET_DATA \<Longrightarrow> 2 \<le> unat (rx_u16 m c 4)"
proof -
  have "rx_head (rxBuf c) \<in> set [rx_head (rxBuf c) ..< rx_tail (rxBuf c) - 5]"
    using assms(2-4) by (auto simp: rx_wf_def Let_def rx_dist_def)
  then have "isb_hdr_safe (m (rx_obj (rxBuf c))) (rx_head (rxBuf c))"
    using assms(1) by (simp add: isb_safe_def list_all_iff del: set_upt)
  then show "unat (rx_u16 m c 4) < 65528" "rx_at m c 2 AND PKT_TYPE_MASK = PKT_TYPE_GET_DATA \<Longrightarrow> 2 \<le> unat (rx_u16 m c 4)"
    using assms(5,6) by (auto simp: isb_hdr_safe_def rx_at_def rx_u16_def word_less_nat_alt word_le_nat_alt add.assoc)
qed

lemma isb_classify_ends:
  assumes f: "\<And>a. found c (d\<lparr>ackNeeded := a\<rparr>)" "found c d"
    and g: "flags (hdr (rxPkt d)) AND PKT_TYPE_MASK = PKT_TYPE_GET_DATA \<Longrightarrow> getSize () \<noteq> None"
  shows "ends_well pinv m c (isb_classify getSize d)"
  using assms by (auto simp: isb_classify_def Let_def ends_found intro!: ends_rejected)

lemma isb_populate_wf:
  assumes wf: "rx_wf m c" "rx_scan (rxBuf c) < rx_tail (rxBuf c)" and "7 \<le> rx_dist c"
  obtains pkt where "isb_populate m c n ck = Some pkt" "flags (hdr pkt) = rx_at m c 2"
proof -
  have "head_u16 m c 0 = Some (rx_u16 m c 0)" "head_byte m c 2 = Some (rx_at m c 2)"
    "head_byte m c 3 = Some (rx_at m c 3)" "head_u16 m c 6 = Some (rx_u16 m c 6)"
    using assms by (simp_all add: head_u16_wf head_byte_wf)
  then have "\<exists>pkt. isb_populate m c n ck = Some pkt \<and> flags (hdr pkt) = rx_at m c 2"
    by (simp add: isb_populate_def Let_def)
  then show thesis using that by blast
qed

lemma isb_finish_ok:
  assumes wf: "rx_wf m c" "rx_scan (rxBuf c) < rx_tail (rxBuf c)" and c0: "c0 = set_state c 0"
    and sz: "unat (ps_size (parser c)) = unat (rx_u16 m c 4) + 8" "rx_dist c + 1 = unat (ps_size (parser c))"
    and get: "rx_at m c 2 AND PKT_TYPE_MASK = PKT_TYPE_GET_DATA \<Longrightarrow> 2 \<le> unat (rx_u16 m c 4)"
  shows "ends_well pinv m c (isb_finish m c0 (scan_dist c + 1))"
proof -
  have wf0: "rx_wf m c0" "rx_scan (rxBuf c0) < rx_tail (rxBuf c0)" "rx_dist c0 = rx_dist c" using wf c0 by simp_all
  obtain bs where "head_bytes m c0 0 (uint (ps_size (parser c)) - 2) = Some bs"
    using head_bytes_wf [OF wf0(1,2), of "uint (ps_size (parser c)) - 2" 0] sz wf0(3)
      uint_nat [of "ps_size (parser c)"] by (auto simp del: of_nat_unat)
  moreover obtain pkt where "isb_populate m c0 (rx_u16 m c 4) (rx_u16 m c (6 + unat (rx_u16 m c 4))) = Some pkt"
    "flags (hdr pkt) = rx_at m c 2"
    using isb_populate_wf [OF wf0(1,2)] sz wf0(3) c0 by auto
  moreover have "head_u16 m c0 4 = Some (rx_u16 m c 4)"
    "head_u16 m c0 (6 + unat (rx_u16 m c 4)) = Some (rx_u16 m c (6 + unat (rx_u16 m c 4)))"
    using sz wf0 c0 by (simp_all add: head_u16_wf)
  moreover have "head_u16 m c0 8 \<noteq> None" if "rx_at m c 2 AND PKT_TYPE_MASK = PKT_TYPE_GET_DATA"
    using get [OF that] sz wf0 c0 by (simp add: head_u16_wf)
  ultimately show ?thesis
    using found_validPacketReset(3,4) [OF wf(1), of c0]
    by (auto simp: isb_finish_def c0 intro!: ends_error isb_classify_ends)
qed

lemma isb_ok:
  assumes wf: "rx_wf m c" "rx_scan (rxBuf c) < rx_tail (rxBuf c)" and inv: "isb_inv m c"
    and safe: "isb_safe m c"
  shows "ends_well isb_inv m c (processIsbPkt m c)"
proof -
  note sd = scan_dist_wf [OF wf(1)]
  note red = processIsbPkt_def isb_inv_def Let_def rx_dist_scan_inc
  have h0: "rx_at m c 0 = PSC_ISB_PREAMBLE_BYTE1" using inv by (simp add: isb_inv_def Let_def)
  consider "ps_state (parser c) = 1" "rx_dist c = 1"
    | "ps_state (parser c) = 2" "2 \<le> rx_dist c" "rx_dist c < 5" "rx_at m c 1 = PSC_ISB_PREAMBLE_BYTE2"
    | "ps_state (parser c) = 2" "rx_dist c = 5" "rx_at m c 1 = PSC_ISB_PREAMBLE_BYTE2"
    | "ps_state (parser c) = 3" "6 \<le> rx_dist c" "rx_at m c 1 = PSC_ISB_PREAMBLE_BYTE2"
      "unat (ps_size (parser c)) = unat (rx_u16 m c 4) + 8" "rx_dist c < unat (ps_size (parser c))"
    using inv by (fastforce simp: isb_inv_def Let_def)
  then show ?thesis
  proof cases
    case 1
    then show ?thesis using wf h0 by (auto simp: red scan_byte_wf intro!: ends_intros)
  next
    case 2
    then show ?thesis using wf sd h0 by (auto simp: red intro!: ends_intros)
  next
    case 3
    have "unat (6 + rx_u16 m c 4 + 2) = unat (rx_u16 m c 4) + 8"
      using isb_safe_head(1) [OF safe wf _ h0 3(3)] 3(2) by (simp add: unat_word_ariths)
    then show ?thesis using wf sd h0 3 by (auto simp: red head_u16_wf intro!: ends_intros)
  next
    case 4
    show ?thesis
    proof (cases "scan_dist c + 1 < uint (ps_size (parser c))")
      case True
      then have "rx_dist c + 1 < unat (ps_size (parser c))"
        using sd uint_less(1) [of "rx_dist c + 1" "ps_size (parser c)"] by simp
      then show ?thesis using 4(1-4) True h0 wf by (simp add: red ends_wait)
    next
      case False
      then have "rx_dist c + 1 = unat (ps_size (parser c))"
        using 4 sd uint_less(1) [of "rx_dist c + 1" "ps_size (parser c)"] by simp
      then have "ends_well isb_inv m c (isb_finish m (set_state c 0) (scan_dist c + 1))"
        using isb_finish_ok [OF wf refl 4(4)] isb_safe_head(2) [OF safe wf _ h0 4(3)] 4(2) by simp
      then show ?thesis using 4(1) False by (simp add: processIsbPkt_def Let_def)
    qed
  qed
qed


lemma spartn_len_pos:
  "0 < unat (spartn_payloadLen h1 h2 h3)" "0 < unat (spartn_payloadLen h1 h2 h3 + spartn_auth_len e)"
proof -
  obtain a b where ab: "spartn_payloadLen h1 h2 h3 = a + (b + 1)" "a \<le> 0x3FF" "b \<le> 3"
  proof
    show "spartn_payloadLen h1 h2 h3 =
      ((push_bit 9 (ucast h1 AND 1) OR push_bit 1 (ucast h2) OR ucast (drop_bit 7 (h3 AND 0x80))) AND 0x3FF)
       + (ucast (drop_bit 4 h3 AND 3) + 1)" by (simp add: spartn_payloadLen_def)
  next
    show "(push_bit 9 (ucast h1 AND 1) OR push_bit 1 (ucast h2) OR ucast (drop_bit 7 (h3 AND 0x80))) AND 0x3FF
      \<le> (0x3FF :: u16)" by (rule word_and_le1)
    have "ucast (drop_bit 4 h3 AND 3) = (ucast (drop_bit 4 h3) AND 3 :: u16)"
      by (rule bit_word_eqI) (auto simp: bit_simps dest: bit_imp_le_length)
    then show "ucast (drop_bit 4 h3 AND 3) \<le> (3 :: u16)" by (simp add: word_and_le1)
  qed
  have e: "spartn_auth_len e \<le> 64" by (simp add: spartn_auth_len_def)
  have "unat a \<le> 1023" "unat b \<le> 3" "unat (spartn_auth_len e) \<le> 64"
    using ab(2,3) e by (simp_all add: word_le_nat_alt)
  then show "0 < unat (spartn_payloadLen h1 h2 h3)" "0 < unat (spartn_payloadLen h1 h2 h3 + spartn_auth_len e)"
    by (simp_all add: ab(1) unat_word_ariths)
qed

lemma spartn_payload_inv:
  "spartn_inv m (scan_inc (set_state c (- uint (spartn_payloadLen h1 h2 h3))))"
  "spartn_inv m (scan_inc (set_state c (- uint (spartn_payloadLen h1 h2 h3 + spartn_auth_len e))))"
  using spartn_len_pos [of h1 h2 h3] spartn_len_pos(2) [of h1 h2 h3 e]
  by (simp_all add: spartn_inv_def Let_def uint_nat del: of_nat_unat)

lemma spartn_ok:
  assumes wf: "rx_wf m c" "rx_scan (rxBuf c) < rx_tail (rxBuf c)" and inv: "spartn_inv m c"
  shows "ends_well spartn_inv m c (processSpartnByte m c)"
proof -
  note red = processSpartnByte_def Let_def
  consider "ps_state (parser c) < 0" | "1 \<le> ps_state (parser c)" "ps_state (parser c) \<le> 6" "int (rx_dist c) = ps_state (parser c)"
    | "7 \<le> ps_state (parser c)" "int (rx_dist c) = ps_state (parser c)" "ps_state (parser c) \<le> 11"
    using inv by (fastforce simp: spartn_inv_def Let_def split: if_splits)
  then show ?thesis
  proof cases
    case 1
    then show ?thesis using found_validPacketReset(2) [OF wf(1), of "set_state c 0"]
      by (auto simp: red spartn_inv_def ends_found intro!: ends_intros)
  next
    case 2
    then show ?thesis using wf
      by (auto simp: red head_byte_wf spartn_inv_def rx_dist_scan_inc intro!: ends_intros)
  next
    case 3
    let ?ext = "rx_at m c 4 AND 0x08 \<noteq> 0" and ?enc = "rx_at m c 3 AND 0x40 \<noteq> 0"
    have lim: "ps_state (parser c) \<le> (if ?ext then 2 else 0) + (if ?enc then 9 else 7)"
      using inv 3 by (auto simp: spartn_inv_def Let_def split: if_splits)
    have "head_byte m c 1 = Some (rx_at m c 1)" "head_byte m c 2 = Some (rx_at m c 2)"
      "head_byte m c 3 = Some (rx_at m c 3)" "head_byte m c 4 = Some (rx_at m c 4)"
      using wf 3 by (simp_all add: head_byte_wf)
    moreover have "ps_state (parser c) = 9 \<Longrightarrow> head_byte m c 9 = Some (rx_at m c 9)"
      "ps_state (parser c) = 11 \<Longrightarrow> head_byte m c 11 = Some (rx_at m c 11)"
      using wf 3 by (simp_all add: head_byte_wf)
    moreover have "processSpartnByte m c = spartn_length_step m c" using 3 by (simp add: red)
    moreover have "spartn_inv m (scan_inc (set_state c (ps_state (parser c) + 1)))"
      if "\<not> (\<not> ?enc \<and> ps_state (parser c) = (if ?ext then 9 else 7))"
        "\<not> (?enc \<and> ps_state (parser c) = (if ?ext then 11 else 9))"
      using that lim 3 wf by (auto simp: spartn_inv_def Let_def rx_dist_scan_inc split: if_splits)
    ultimately show ?thesis
      by (auto simp: spartn_length_step_def Let_def spartn_payload_inv intro!: ends_intros)
  qed
qed

interpretation isb: packet_parser processIsbPkt isb_inv ProcIsbPkt PSC_ISB_PREAMBLE_BYTE1
  by unfold_locales (auto simp: isb_inv_def starts_simps Let_def intro: isb_ok)

interpretation nmea: packet_parser processNmeaPkt nmea_inv ProcNmeaPkt PSC_NMEA_START_BYTE
  by unfold_locales (auto simp: nmea_inv_def starts_simps intro: nmea_ok)

interpretation ublox: packet_parser processUbloxPkt ublox_inv ProcUbloxPkt UBLOX_START_BYTE1
  by unfold_locales (auto simp: ublox_inv_def starts_simps Let_def intro: ublox_ok)

interpretation rtcm3: packet_parser processRtcm3Pkt rtcm3_inv ProcRtcm3Pkt RTCM3_START_BYTE
  by unfold_locales (auto simp: rtcm3_inv_def starts_simps Let_def intro: rtcm3_ok)

interpretation spartn: packet_parser processSpartnByte spartn_inv ProcSpartnByte SPARTN_START_BYTE
  by unfold_locales (auto simp: spartn_inv_def starts_simps Let_def intro: spartn_ok)

interpretation sony: packet_parser processSonyByte sony_inv ProcSonyByte SONY_START_BYTE
  by unfold_locales (auto simp: sony_inv_def starts_simps Let_def intro: sony_ok)

section \<open>The loop\<close>

definition rx_inv :: "cmem \<Rightarrow> is_comm_instance_t \<Rightarrow> bool" where
  "rx_inv m c \<longleftrightarrow> rx_wf m c \<and> proto_inv m c \<and> isb_safe m c"

definition rx_next :: "cmem \<Rightarrow> is_comm_instance_t \<Rightarrow> is_comm_instance_t \<Rightarrow> bool" where
  "rx_next m c c' \<longleftrightarrow> rx_inv m c' \<and> rx_frame c c' \<and> (c', c) \<in> parse_rel"

lemma call_processPkt_good:
  assumes "rx_inv m c" "rx_scan (rxBuf c) < rx_tail (rxBuf c)" "processPkt c = Some f"
  shows "\<exists>pt c'. call_processPkt f m c = Some (pt, c') \<and> good (inv_of f) m c (scan_inc c')"
proof -
  have a: "rx_wf m c" "inv_of f m c" "isb_safe m c"
    using assms by (simp_all add: rx_inv_def proto_inv_def)
  note calls = isb.call_good [OF a(1) assms(2)] nmea.call_good [OF a(1) assms(2)]
    ublox.call_good [OF a(1) assms(2)] rtcm3.call_good [OF a(1) assms(2)]
    spartn.call_good [OF a(1) assms(2)] sony.call_good [OF a(1) assms(2)]
  show ?thesis
    by (cases f) (use a(2,3) assms(3) calls in \<open>simp_all add: inv_of_def call_processPkt_def\<close>)
qed

lemma good_next:
  assumes "rx_inv m c" "processPkt c = Some f" "good (inv_of f) m c c'"
  shows "rx_next m c c'"
  using assms isb_safe_frame
  by (auto simp: rx_next_def rx_inv_def good_def proto_inv_def split: option.splits)

lemma start_parser_inv:
  assumes "rx_wf m c" "scan_byte m c = Some b" "start_parser b = Some (f, en)"
  shows "inv_of f m (scan_inc (setParserStart c f))"
proof -
  have "f = ProcIsbPkt \<and> b = PSC_ISB_PREAMBLE_BYTE1 \<or> f = ProcNmeaPkt \<and> b = PSC_NMEA_START_BYTE \<or>
    f = ProcUbloxPkt \<and> b = UBLOX_START_BYTE1 \<or> f = ProcRtcm3Pkt \<and> b = RTCM3_START_BYTE \<or>
    f = ProcSpartnByte \<and> b = SPARTN_START_BYTE \<or> f = ProcSonyByte \<and> b = SONY_START_BYTE"
    using assms(3) by (auto simp: start_parser_def split: if_splits)
  then show ?thesis
    using assms(1,2) isb.starts nmea.starts ublox.starts rtcm3.starts spartn.starts sony.starts
    by (auto simp: inv_of_def)
qed

lemma idle_next:
  assumes "rx_inv m c" "rx_scan (rxBuf c) < rx_tail (rxBuf c)" "processPkt c = None"
    "rxBuf d = rxBuf c" "processPkt d = None" "rx_frame c d"
  shows "rx_next m c (scan_inc d)"
  using assms isb_safe_frame [OF rx_frame_scan_inc [OF assms(6)]] rx_frame_scan_inc [OF assms(6)]
  by (auto simp: rx_next_def rx_inv_def proto_inv_def rx_wf_def Let_def parse_rel_def work_def)

lemma start_next:
  assumes "rx_inv m c" "rx_scan (rxBuf c) < rx_tail (rxBuf c)" "processPkt c = None"
    "scan_byte m c = Some b" "start_parser b = Some (f, en)"
  shows "rx_next m c (scan_inc (setParserStart c f))"
proof -
  have fr: "rx_frame c (scan_inc (setParserStart c f))"
    using assms(1)
    by (intro rx_frame_scan_inc) (simp add: setParserStart_def rx_frame_def err_total_def rx_inv_def rx_wf_def Let_def)
  have "inv_of f m (scan_inc (setParserStart c f))"
    using start_parser_inv [OF _ assms(4,5)] assms(1) by (simp add: rx_inv_def)
  then show ?thesis using assms(1-3) fr isb_safe_frame [OF fr]
    by (auto simp: rx_next_def rx_inv_def proto_inv_def rx_wf_def Let_def parse_rel_def work_def rest_def
        setParserStart_def)
qed

lemma parse_step_next:
  assumes inv: "rx_inv m c" and sc: "rx_scan (rxBuf c) < rx_tail (rxBuf c)"
  obtains pt c' where "parse_step m c = Some (Inl (pt, c'))" "pt \<noteq> PTYPE_NONE" "rx_next m c c'"
  | c' where "parse_step m c = Some (Inr c')" "rx_next m c c'"
proof (cases "processPkt c")
  case (Some f)
  obtain pt c' where c': "call_processPkt f m c = Some (pt, c')" "good (inv_of f) m c (scan_inc c')"
    using call_processPkt_good [OF inv sc Some] by blast
  then show thesis using that good_next [OF inv Some c'(2)] Some by (cases "pt = PTYPE_NONE") (auto simp: parse_step_def)
next
  case None
  have "rx_wf m c" using inv by (simp add: rx_inv_def)
  note b = scan_byte_wf [OF this sc]
  show thesis
  proof (cases "start_parser (rx_at m c (rx_dist c))")
    case (Some fe)
    then obtain f en where fe: "start_parser (rx_at m c (rx_dist c)) = Some (f, en)" by (cases fe) auto
    show thesis using that(2) None b fe start_next [OF inv sc None b fe] idle_next [OF inv sc None, of c]
      by (auto simp: parse_step_def None split: if_splits)
  next
    case no: None
    obtain pt c' where r: "reportParseError c EPARSE_STREAM_UNPARSABLE = (pt, c')" by fastforce
    note fr = reportParseError_frame [OF r raised_simps(8)]
    show thesis
    proof (cases "pt = PTYPE_NONE")
      case True
      then show thesis using that(2) None b no r idle_next [OF inv sc None fr(2) _ fr(1)] fr(3)
        by (simp add: parse_step_def)
    next
      case False
      have "rx_next m c c'"
        using inv fr False isb_safe_frame [OF fr(1)] None
        by (auto simp: rx_next_def rx_inv_def rx_wf_def proto_inv_def parse_rel_def work_def rest_def err_due_def)
      then show thesis using that(1) None b no r False by (simp add: parse_step_def)
    qed
  qed
qed

lemma rx_next_trans: "rx_next m a b \<Longrightarrow> rx_next m b c \<Longrightarrow> rx_next m a c"
  by (auto simp: rx_next_def intro: rx_frame_trans trans_parse_rel)

lemma parse_loop_returns:
  assumes "rx_inv m c"
  shows "\<exists>pt c'. parse_loop m c = Some (pt, c') \<and>
    (if pt = PTYPE_NONE then (c' = c \<or> rx_next m c c') \<and> rx_tail (rxBuf c') \<le> rx_scan (rxBuf c')
     else rx_next m c c')"
  using assms
proof (induction c rule: wf_induct_rule [OF wf_parse_rel])
  case (1 c)
  show ?case
  proof (cases "rx_scan (rxBuf c) < rx_tail (rxBuf c)")
    case False
    then show ?thesis by (subst parse_loop.simps) simp
  next
    case sc: True
    show ?thesis
    proof (rule parse_step_next [OF 1(2) sc])
      fix pt c' assume "parse_step m c = Some (Inl (pt, c'))" "pt \<noteq> PTYPE_NONE" "rx_next m c c'"
      then show ?thesis using sc by (subst parse_loop.simps) simp
    next
      fix c1 assume s: "parse_step m c = Some (Inr c1)" and n: "rx_next m c c1"
      have "parse_loop m c = parse_loop m c1" using s sc by (subst parse_loop.simps) simp
      moreover obtain pt c' where "parse_loop m c1 = Some (pt, c') \<and>
          (if pt = PTYPE_NONE then (c' = c1 \<or> rx_next m c1 c') \<and> rx_tail (rxBuf c') \<le> rx_scan (rxBuf c')
           else rx_next m c1 c')"
        using 1(1) [of c1] n unfolding rx_next_def by blast
      ultimately show ?thesis using n rx_next_trans by (auto split: if_splits)
    qed
  qed
qed

lemma rx_inv_timeMs: "rx_inv m (c\<lparr>parser := (parser c)\<lparr>ps_timeMs := t\<rparr>\<rparr>) = rx_inv m c"
proof -
  let ?c = "c\<lparr>parser := (parser c)\<lparr>ps_timeMs := t\<rparr>\<rparr>"
  have r: "rx_at m ?c = rx_at m c" "rx_u16 m ?c = rx_u16 m c" "rx_dist ?c = rx_dist c"
    by (simp_all add: rx_at_def rx_u16_def rx_dist_def fun_eq_iff)
  have "inv_of f m ?c = inv_of f m c" for f
    by (cases f) (simp_all add: inv_of_def isb_inv_def nmea_inv_def ublox_inv_def rtcm3_inv_def
        spartn_inv_def sony_inv_def r)
  then show ?thesis
    by (simp add: rx_inv_def proto_inv_def rx_wf_def isb_safe_def split: option.splits)
qed

lemma timeout_next:
  assumes "rx_inv m c" "processPkt c \<noteq> None"
  shows "rx_next m c (is_comm_reset_parser (c\<lparr>rxBuf := (rxBuf c)\<lparr>rx_head := rx_head (rxBuf c) + 1\<rparr>\<rparr>))"
proof -
  let ?c = "is_comm_reset_parser (c\<lparr>rxBuf := (rxBuf c)\<lparr>rx_head := rx_head (rxBuf c) + 1\<rparr>\<rparr>)"
  have "rx_frame c ?c" by (simp add: is_comm_reset_parser_def rx_frame_def err_total_def)
  then show ?thesis using assms isb_safe_frame [of c ?c m]
    by (auto simp: rx_next_def rx_inv_def rx_wf_def Let_def proto_inv_def is_comm_reset_parser_def
        parse_rel_def work_def)
qed

lemma parse_timeout_returns:
  assumes "rx_inv m c"
  shows "\<exists>pt c'. is_comm_parse_timeout m c t = Some (pt, c') \<and> rx_inv m c' \<and> rx_frame c c' \<and>
    (if pt = PTYPE_NONE then rx_tail (rxBuf c') \<le> rx_scan (rxBuf c') else (c', c) \<in> parse_rel)"
proof -
  define c0 where "c0 = (if processPkt c \<noteq> None \<and> t > ps_timeMs (parser c) + PKT_PARSER_TIMEOUT_MS
    then is_comm_reset_parser (c\<lparr>rxBuf := (rxBuf c)\<lparr>rx_head := rx_head (rxBuf c) + 1\<rparr>\<rparr>) else c)"
  have c0: "c0 = c \<or> rx_next m c c0" using timeout_next [OF assms] by (auto simp: c0_def)
  then have "rx_inv m c0" using assms by (auto simp: rx_next_def)
  from parse_loop_returns [OF this] obtain pt c1 where l: "parse_loop m c0 = Some (pt, c1)"
    and n: "if pt = PTYPE_NONE then (c1 = c0 \<or> rx_next m c0 c1) \<and> rx_tail (rxBuf c1) \<le> rx_scan (rxBuf c1)
       else rx_next m c0 c1" by blast
  define c2 where "c2 = (if pt = PTYPE_NONE \<and> processPkt c1 \<noteq> None
    then c1\<lparr>parser := (parser c1)\<lparr>ps_timeMs := t\<rparr>\<rparr> else c1)"
  have c2: "rx_inv m c2 = rx_inv m c1" "rxBuf c2 = rxBuf c1" "rx_frame c c2 = rx_frame c c1"
    by (auto simp: c2_def rx_inv_timeMs rx_frame_def err_total_def)
  have "is_comm_parse_timeout m c t = Some (pt, c2)"
    unfolding is_comm_parse_timeout_def c0_def [symmetric] Let_def l by (simp add: c2_def)
  moreover have "c1 = c \<or> rx_next m c c1" "pt \<noteq> PTYPE_NONE \<Longrightarrow> rx_next m c c1"
    using c0 n rx_next_trans by (auto split: if_splits)
  moreover have "pt \<noteq> PTYPE_NONE \<Longrightarrow> c2 = c1" by (simp add: c2_def)
  ultimately show ?thesis using n c2 assms by (auto simp: rx_next_def split: if_splits)
qed

section \<open>Handlers\<close>

text \<open>The instance is documented as not to be modified by the application: a handler may change
  it, but not the buffer, the parser, the mask and the error bookkeeping.\<close>

definition keeps_rx :: "is_comm_instance_t \<Rightarrow> is_comm_instance_t \<Rightarrow> bool" where
  "keeps_rx c c' \<longleftrightarrow>
     rxBuf c' = rxBuf c \<and> parser c' = parser c \<and> processPkt c' = processPkt c \<and>
     enabledMask c' = enabledMask c \<and> rxErrorState c' = rxErrorState c \<and>
     rxErrorCount c' = rxErrorCount c \<and> rxErrorTypeCount c' = rxErrorTypeCount c"

definition world_ok :: "'s world \<Rightarrow> 's world \<Rightarrow> bool" where
  "world_ok w w' \<longleftrightarrow>
     keeps_rx (fst (snd w)) (fst (snd w')) \<and>
     fst w' (rx_obj (rxBuf (fst (snd w)))) = fst w (rx_obj (rxBuf (fst (snd w))))"

text \<open>A handler that returns, keeps the receive state and does not write to the receive buffer.\<close>

definition comm_handler_ok :: "'s comm_handler option \<Rightarrow> bool" where
  "comm_handler_ok h \<longleftrightarrow>
     (\<forall>f port m c s. h = Some f \<longrightarrow> (\<exists>w. f port m c s = Some w \<and> world_ok (m, c, s) w))"

definition gen_handler_ok :: "nat \<Rightarrow> ('a \<Rightarrow> 'b \<Rightarrow> 'c \<Rightarrow> cmem \<Rightarrow> 's \<Rightarrow> (cmem \<times> 's) option) option \<Rightarrow> bool" where
  "gen_handler_ok ob h \<longleftrightarrow>
     (\<forall>f x y z m s. h = Some f \<longrightarrow> (\<exists>m' s'. f x y z m s = Some (m', s') \<and> m' ob = m ob))"

definition isbData_handler_ok :: "nat \<Rightarrow> ('a \<Rightarrow> 'b \<Rightarrow> cmem \<Rightarrow> 's \<Rightarrow> (cmem \<times> 's) option) option \<Rightarrow> bool" where
  "isbData_handler_ok ob h \<longleftrightarrow>
     (\<forall>f x y m s. h = Some f \<longrightarrow> (\<exists>m' s'. f x y m s = Some (m', s') \<and> m' ob = m ob))"

definition handlers_ok :: "nat \<Rightarrow> 's is_comm_callbacks_t \<Rightarrow> bool" where
  "handlers_ok ob cb \<longleftrightarrow>
     comm_handler_ok (cb_isb cb) \<and> comm_handler_ok (cb_error cb) \<and> comm_handler_ok (cb_all cb) \<and>
     isbData_handler_ok ob (cb_isbData cb) \<and> gen_handler_ok ob (cb_nmea cb) \<and>
     gen_handler_ok ob (cb_ublox cb) \<and> gen_handler_ok ob (cb_rtcm3 cb) \<and> gen_handler_ok ob (cb_sony cb) \<and>
     gen_handler_ok ob (cb_sprtn cb)"

lemma keeps_rx_refl [simp]: "keeps_rx c c"
  by (simp add: keeps_rx_def)

lemma world_ok_refl [simp]: "world_ok w w"
  by (simp add: world_ok_def)

lemma world_ok_trans: "world_ok a b \<Longrightarrow> world_ok b c \<Longrightarrow> world_ok a c"
  by (simp add: world_ok_def keeps_rx_def)

lemma world_ok_obj: "world_ok (m, c, s) w \<Longrightarrow> rx_obj (rxBuf (fst (snd w))) = rx_obj (rxBuf c)"
  by (simp add: world_ok_def keeps_rx_def)

lemma call_comm_ok:
  "comm_handler_ok h \<Longrightarrow> \<exists>w'. call_comm h port w = Some w' \<and> world_ok w w'"
  by (cases w) (auto simp: call_comm_def comm_handler_ok_def split: option.splits)

lemma call_gen_ok:
  assumes "gen_handler_ok (rx_obj (rxBuf (fst (snd w)))) h"
  shows "\<exists>w'. call_gen h port w = Some w' \<and> world_ok w w'"
proof (cases h)
  case (Some f)
  obtain m c s where w: "w = (m, c, s)" by (cases w)
  obtain m' s' where "f port (ptr_add (dptr (pdata (rxPkt c))) (unat (pkt_offset (rxPkt c)))) (dsize (pdata (rxPkt c))) m s
      = Some (m', s')" "m' (rx_obj (rxBuf c)) = m (rx_obj (rxBuf c))"
    using assms unfolding gen_handler_ok_def Some w by fastforce
  then show ?thesis by (simp add: call_gen_def w Some world_ok_def)
qed (simp add: call_gen_def)

lemma call_isbData_ok:
  assumes "isbData_handler_ok (rx_obj (rxBuf (fst (snd w)))) h"
  shows "\<exists>w'. call_isbData h port w = Some w' \<and> world_ok w w'"
proof (cases h)
  case (Some f)
  obtain m c s where w: "w = (m, c, s)" by (cases w)
  obtain m' s' where "f port (is_comm_to_isb_p_data c) m s = Some (m', s')"
    "m' (rx_obj (rxBuf c)) = m (rx_obj (rxBuf c))"
    using assms unfolding isbData_handler_ok_def Some w by fastforce
  then show ?thesis by (simp add: call_isbData_def w Some world_ok_def)
qed (simp add: call_isbData_def)

lemma dispatch_ok:
  assumes "handlers_ok (rx_obj (rxBuf (fst (snd w)))) cb"
  shows "\<exists>w'. dispatch cb port pt w = Some w' \<and> world_ok w w'"
proof (cases "pt = PTYPE_INERTIAL_SENSE_DATA")
  case True
  obtain w1 where w1: "call_comm (cb_isb cb) port w = Some w1" "world_ok w w1"
    using call_comm_ok [of "cb_isb cb" port w] assms unfolding handlers_ok_def by blast
  have e: "rx_obj (rxBuf (fst (snd w1))) = rx_obj (rxBuf (fst (snd w)))"
    using w1(2) by (simp add: world_ok_def keeps_rx_def)
  obtain w2 where w2: "call_isbData (cb_isbData cb) port w1 = Some w2" "world_ok w1 w2"
    using call_isbData_ok [of w1 "cb_isbData cb" port] assms unfolding handlers_ok_def e by blast
  show ?thesis using world_ok_trans [OF w1(2) w2(2)] by (simp add: dispatch_def True w1(1) w2(1))
next
  case False
  then show ?thesis using assms unfolding handlers_ok_def
    by (cases pt) (simp_all add: dispatch_def call_comm_ok call_gen_ok del: split_paired_Ex)
qed

lemma world_ok_inv:
  assumes "world_ok (m, c, s) (m', c', s')"
  shows "rx_inv m' c' = rx_inv m c"
proof -
  have k: "keeps_rx c c'" and e: "m' (rx_obj (rxBuf c)) = m (rx_obj (rxBuf c))"
    using assms by (simp_all add: world_ok_def)
  have r: "rx_at m' c' = rx_at m c" "rx_u16 m' c' = rx_u16 m c" "rx_dist c' = rx_dist c"
    using k e by (simp_all add: rx_at_def rx_u16_def rx_dist_def keeps_rx_def fun_eq_iff)
  have "inv_of f m' c' = inv_of f m c" for f
    using k by (cases f) (simp_all add: inv_of_def isb_inv_def nmea_inv_def ublox_inv_def rtcm3_inv_def
        spartn_inv_def sony_inv_def r keeps_rx_def)
  then show ?thesis using k e
    by (simp add: rx_inv_def proto_inv_def rx_wf_def isb_safe_def keeps_rx_def split: option.splits)
qed

lemma keeps_rx_rel: "keeps_rx c c' \<Longrightarrow> (c', d) \<in> parse_rel \<longleftrightarrow> (c, d) \<in> parse_rel"
  "keeps_rx c c' \<Longrightarrow> rx_frame d c' \<longleftrightarrow> rx_frame d c"
  by (simp_all add: keeps_rx_def parse_rel_def work_def rest_def err_due_def rx_frame_def err_total_def)

lemma parse_messages_returns:
  assumes "rx_inv m c" "handlers_ok (rx_obj (rxBuf c)) cb"
  shows "\<exists>m' c' s'. parse_messages port cb m c s = Some (m', c', s') \<and> rx_inv m' c' \<and> rx_frame c c' \<and>
    m' (rx_obj (rxBuf c)) = m (rx_obj (rxBuf c)) \<and> rx_tail (rxBuf c') \<le> rx_scan (rxBuf c')"
  using assms
proof (induction c arbitrary: m s rule: wf_induct_rule [OF wf_parse_rel])
  case (1 c)
  obtain pt c1 where p: "is_comm_parse m c = Some (pt, c1)" "rx_inv m c1" "rx_frame c c1"
    "if pt = PTYPE_NONE then rx_tail (rxBuf c1) \<le> rx_scan (rxBuf c1) else (c1, c) \<in> parse_rel"
    using parse_timeout_returns [OF 1(2), of 0] unfolding is_comm_parse_def by blast
  have ob: "rx_obj (rxBuf c1) = rx_obj (rxBuf c)" using p(3) by (simp add: rx_frame_def)
  show ?case
  proof (cases "pt = PTYPE_NONE")
    case True
    then show ?thesis using p by (subst parse_messages.simps) simp
  next
    case False
    obtain w1 where w1: "dispatch cb port pt (m, c1, s) = Some w1" "world_ok (m, c1, s) w1"
      using dispatch_ok [of "(m, c1, s)" cb port pt] 1(3) unfolding fst_conv snd_conv ob by blast
    obtain w2 where w2: "call_comm (cb_all cb) port w1 = Some w2" "world_ok w1 w2"
      using call_comm_ok [of "cb_all cb" port w1] 1(3) unfolding handlers_ok_def by blast
    obtain m2 c2 s2 where e: "w2 = (m2, c2, s2)" by (cases w2)
    have k: "world_ok (m, c1, s) (m2, c2, s2)" using w1(2) w2(2) e world_ok_trans by blast
    have kr: "keeps_rx c1 c2" and me: "m2 (rx_obj (rxBuf c)) = m (rx_obj (rxBuf c))"
      using k ob by (simp_all add: world_ok_def)
    have eq: "parse_messages port cb m c s = parse_messages port cb m2 c2 s2"
      using p(1) False w1(1) w2(1) e by (subst parse_messages.simps) simp
    have n: "(c2, c) \<in> parse_rel" "rx_inv m2 c2" "rx_frame c c2"
      using p False keeps_rx_rel [OF kr] world_ok_inv [OF k] by auto
    then have "rx_obj (rxBuf c2) = rx_obj (rxBuf c)" by (simp add: rx_frame_def)
    then show ?thesis using 1(1) [OF n(1,2), of s2] 1(3) eq me n(3) rx_frame_trans by (metis (no_types))
  qed
qed

section \<open>Buffer management\<close>

text \<open>The bytes received and not yet consumed, and the condition on them.\<close>

definition pending :: "cmem \<Rightarrow> is_comm_instance_t \<Rightarrow> u8 list" where
  "pending m c =
     take (rx_tail (rxBuf c) - rx_head (rxBuf c)) (drop (rx_head (rxBuf c)) (m (rx_obj (rxBuf c))))"

definition safe_stream :: "u8 list \<Rightarrow> bool" where
  "safe_stream bs \<longleftrightarrow> list_all (isb_hdr_safe bs) [0 ..< length bs - 5]"

lemma length_pending: "rx_wf m c \<Longrightarrow> length (pending m c) = rx_tail (rxBuf c) - rx_head (rxBuf c)"
  by (auto simp: pending_def rx_wf_def Let_def)

lemma nth_pending:
  "rx_wf m c \<Longrightarrow> i < rx_tail (rxBuf c) - rx_head (rxBuf c) \<Longrightarrow> pending m c ! i = rx_at m c i"
  by (auto simp: pending_def rx_at_def rx_wf_def Let_def)

lemma isb_safe_pending:
  assumes "rx_wf m c"
  shows "isb_safe m c = safe_stream (pending m c)"
proof -
  let ?h = "rx_head (rxBuf c)" and ?t = "rx_tail (rxBuf c)" and ?bs = "m (rx_obj (rxBuf c))"
  have e: "isb_hdr_safe ?bs (?h + i) = isb_hdr_safe (pending m c) i" if "i < ?t - ?h - 5" for i
    using that nth_pending [OF assms] by (simp add: isb_hdr_safe_def rx_at_def add.assoc)
  have "[?h ..< ?t - 5] = map (\<lambda>i. ?h + i) [0 ..< ?t - ?h - 5]"
    by (rule nth_equalityI) auto
  then have "isb_safe m c = list_all (\<lambda>i. isb_hdr_safe ?bs (?h + i)) [0 ..< ?t - ?h - 5]"
    by (simp only: isb_safe_def list.pred_map comp_def)
  also have "\<dots> = list_all (isb_hdr_safe (pending m c)) [0 ..< ?t - ?h - 5]"
    by (rule list.pred_cong) (simp_all add: e)
  finally show ?thesis by (simp add: safe_stream_def length_pending [OF assms])
qed

lemma inv_of_cong:
  assumes "inv_of f m c" "rx_wf m c" "processPkt c = Some f" and p: "parser c' = parser c" "rx_dist c' = rx_dist c"
    and at: "\<And>i. i < rx_dist c \<Longrightarrow> rx_at m' c' i = rx_at m c i"
  shows "inv_of f m' c'"
proof -
  note d = dist_pos [OF assms(2,3)]
  show ?thesis using assms(1) at d
    by (cases f) (auto simp: inv_of_def isb_inv_def nmea_inv_def ublox_inv_def rtcm3_inv_def spartn_inv_def
      sony_inv_def rx_u16_def Let_def p split: if_splits)
qed

lemma proto_inv_cong:
  assumes "proto_inv m c" and wf: "rx_wf m c"
    and "processPkt c' = processPkt c" "parser c' = parser c" "rx_dist c' = rx_dist c"
    and at: "\<And>i. i < rx_tail (rxBuf c) - rx_head (rxBuf c) \<Longrightarrow> rx_at m' c' i = rx_at m c i"
  shows "proto_inv m' c'"
proof (cases "processPkt c")
  case None
  then show ?thesis using assms(3) by (simp add: proto_inv_def)
next
  case (Some f)
  have "rx_dist c \<le> rx_tail (rxBuf c) - rx_head (rxBuf c)"
    using wf Some by (auto simp: rx_wf_def Let_def rx_dist_def)
  then show ?thesis using inv_of_cong [OF _ wf Some assms(4,5)] at assms(1,3) Some
    by (simp add: proto_inv_def)
qed

lemma memcpy_Some:
  "j + n \<le> length (m os) \<Longrightarrow> i + n \<le> length (m od) \<Longrightarrow> \<exists>m'. memcpy m (Ptr od i) (Ptr os j) n = Some m'"
  by (simp add: memcpy_def rd_bytes_def wr_bytes_def)

lemma free_shift:
  assumes wf: "rx_wf m c" and m': "memcpy m (Ptr (rx_obj (rxBuf c)) (rx_start (rxBuf c)))
      (Ptr (rx_obj (rxBuf c)) (rx_head (rxBuf c))) (rx_tail (rxBuf c) - rx_head (rxBuf c)) = Some m'"
    and c': "c' = c\<lparr>rxBuf := (rxBuf c)\<lparr>rx_head := rx_start (rxBuf c),
       rx_tail := rx_tail (rxBuf c) - (rx_head (rxBuf c) - rx_start (rxBuf c)),
       rx_scan := rx_scan (rxBuf c) - (rx_head (rxBuf c) - rx_start (rxBuf c))\<rparr>\<rparr>"
  shows "rx_wf m' c'" "pending m' c' = pending m c" "rx_dist c' = rx_dist c"
    "i < rx_tail (rxBuf c) - rx_head (rxBuf c) \<Longrightarrow> rx_at m' c' i = rx_at m c i"
proof -
  let ?b = "rxBuf c" and ?bs = "m (rx_obj (rxBuf c))"
  define n where "n = rx_tail ?b - rx_head ?b"
  have w: "rx_start ?b \<le> rx_head ?b" "rx_head ?b \<le> rx_tail ?b" "rx_tail ?b \<le> length ?bs"
    using wf by (auto simp: rx_wf_def Let_def)
  have mem: "m' (rx_obj ?b) = take (rx_start ?b) ?bs @ take n (drop (rx_head ?b) ?bs) @ drop (rx_start ?b + n) ?bs"
    using m' w by (auto simp: memcpy_def mem_defs n_def [symmetric] bind_eq_Some_conv split: if_splits)
  have len: "length (m' (rx_obj ?b)) = length ?bs" using memcpy_length [OF m'] by simp
  show wf': "rx_wf m' c'" using wf len by (auto simp: rx_wf_def Let_def c')
  show "rx_dist c' = rx_dist c" using wf by (auto simp: rx_wf_def Let_def c' rx_dist_def)
  show "rx_at m' c' i = rx_at m c i" if "i < rx_tail ?b - rx_head ?b" for i
  proof -
    have "i < n" "i < length ?bs - rx_head ?b" "rx_start ?b \<le> length ?bs" using that w by (auto simp: n_def)
    then show ?thesis by (simp add: rx_at_def c' mem nth_append)
  qed
  note at = this
  have span: "rx_tail (rxBuf c') - rx_head (rxBuf c') = rx_tail ?b - rx_head ?b" using w by (simp add: c')
  show "pending m' c' = pending m c"
    by (rule nth_equalityI)
      (simp_all add: length_pending [OF wf] length_pending [OF wf'] nth_pending [OF wf] nth_pending [OF wf'] span at)
qed

lemma free_ok:
  assumes wf: "rx_wf m c" and pr: "proto_inv m c"
    and sz: "rx_size (rxBuf c) = of_nat (rx_end (rxBuf c) - rx_start (rxBuf c))"
      "rx_end (rxBuf c) - rx_start (rxBuf c) < 2 ^ 32"
  shows "\<exists>m' c'. is_comm_free m c = Some (int (rx_end (rxBuf c')) - int (rx_tail (rxBuf c')), m', c') \<and>
    rx_wf m' c' \<and> proto_inv m' c' \<and> rx_obj (rxBuf c') = rx_obj (rxBuf c) \<and>
    rx_start (rxBuf c') = rx_start (rxBuf c) \<and> rx_end (rxBuf c') = rx_end (rxBuf c) \<and>
    rx_size (rxBuf c') = rx_size (rxBuf c) \<and>
    rxErrorCount c' - err_total c' = rxErrorCount c - err_total c \<and>
    (3 \<le> rx_end (rxBuf c) - rx_start (rxBuf c) \<longrightarrow> rx_tail (rxBuf c') < rx_end (rxBuf c')) \<and>
    pending m' c' =
      (if rx_tail (rxBuf c) = rx_end (rxBuf c) \<and>
          rx_head (rxBuf c) - rx_start (rxBuf c) < (rx_end (rxBuf c) - rx_start (rxBuf c)) div 3
       then [] else pending m c)"
proof -
  let ?b = "rxBuf c"
  have third: "uint (rx_size ?b div 3) = int ((rx_end ?b - rx_start ?b) div 3)"
    using sz by (simp add: uint_div uint_word_of_int_eq zdiv_int unsigned_of_nat take_bit_nat_eq_self)
  have w: "rx_start ?b \<le> rx_head ?b" using wf by (simp add: rx_wf_def Let_def)
  consider "rx_tail ?b \<noteq> rx_end ?b"
    | "rx_tail ?b = rx_end ?b" "rx_head ?b - rx_start ?b < (rx_end ?b - rx_start ?b) div 3"
    | "rx_tail ?b = rx_end ?b" "\<not> rx_head ?b - rx_start ?b < (rx_end ?b - rx_start ?b) div 3"
    by blast
  then show ?thesis
  proof cases
    case 1
    then show ?thesis using wf pr by (auto simp: is_comm_free_def Let_def rx_wf_def)
  next
    case 2
    obtain pt c1 where r: "parseErrorResetState c EPARSE_RXBUFFER_FLUSHED = (pt, c1)" by fastforce
    note fr = parseErrorResetState_frame [OF r raised_simps(7)]
    have "is_comm_free m c = Some (int (rx_end ?b) - int (rx_start ?b), m,
      c1\<lparr>rxBuf := (rxBuf c1)\<lparr>rx_head := rx_start ?b, rx_tail := rx_start ?b, rx_scan := rx_start ?b\<rparr>\<rparr>)"
      using 2 w r third by (simp add: is_comm_free_def Let_def of_nat_diff [symmetric] del: of_nat_diff)
    then show ?thesis using wf fr 2
      by (auto simp: rx_wf_def Let_def rx_frame_def proto_inv_def pending_def err_total_def)
  next
    case 3
    obtain m' where m': "memcpy m (Ptr (rx_obj ?b) (rx_start ?b)) (Ptr (rx_obj ?b) (rx_head ?b))
        (rx_tail ?b - rx_head ?b) = Some m'"
    proof -
      have "rx_head ?b + (rx_tail ?b - rx_head ?b) \<le> length (m (rx_obj ?b))"
        "rx_start ?b + (rx_tail ?b - rx_head ?b) \<le> length (m (rx_obj ?b))"
        using wf unfolding rx_wf_def Let_def by linarith+
      then show thesis using that memcpy_Some by blast
    qed
    define c' where "c' = c\<lparr>rxBuf := ?b\<lparr>rx_head := rx_start ?b, rx_tail := rx_tail ?b - (rx_head ?b - rx_start ?b),
       rx_scan := rx_scan ?b - (rx_head ?b - rx_start ?b)\<rparr>\<rparr>"
    note sh = free_shift [OF wf m' c'_def]
    have lim: "rx_head ?b - rx_start ?b \<le> rx_tail ?b" "rx_head ?b - rx_start ?b \<le> rx_scan ?b"
      using wf by (auto simp: rx_wf_def Let_def)
    have "is_comm_free m c = Some (int (rx_end (rxBuf c')) - int (rx_tail (rxBuf c')), m', c')"
    proof -
      have "\<not> int (rx_head ?b) - int (rx_start ?b) < uint (rx_size ?b div 3)"
        using 3(2) w third by (simp add: of_nat_diff [symmetric] del: of_nat_diff)
      then show ?thesis using 3(1) w m' lim unfolding is_comm_free_def Let_def c'_def
        by (simp add: nat_diff_distrib)
    qed
    moreover have "proto_inv m' c'"
      by (rule proto_inv_cong [OF pr wf _ _ sh(3,4)]) (simp_all add: c'_def)
    moreover have "3 \<le> rx_end ?b - rx_start ?b \<Longrightarrow> rx_tail (rxBuf c') < rx_end (rxBuf c')"
      using 3 w by (auto simp: c'_def)
    ultimately show ?thesis using sh(1,2) 3 by (intro exI [of _ m'] exI [of _ c']) (auto simp: c'_def err_total_def)
  qed
qed

section \<open>Feeding the buffer\<close>

lemma feed_ok:
  assumes wf: "rx_wf m c" and pr: "proto_inv m c"
    and w: "wr_bytes m (rx_obj (rxBuf c)) (rx_tail (rxBuf c)) bs = Some m'"
    and room: "rx_tail (rxBuf c) + length bs \<le> rx_end (rxBuf c)"
  defines "c' \<equiv> c\<lparr>rxBuf := (rxBuf c)\<lparr>rx_tail := rx_tail (rxBuf c) + length bs\<rparr>\<rparr>"
  shows "rx_wf m' c'" "proto_inv m' c'" "pending m' c' = pending m c @ bs" "rx_frame c c' \<or> bs \<noteq> []"
    "rxErrorCount c' - err_total c' = rxErrorCount c - err_total c"
proof -
  let ?b = "rxBuf c" and ?bs = "m (rx_obj (rxBuf c))"
  have mem: "m' (rx_obj ?b) = take (rx_tail ?b) ?bs @ bs @ drop (rx_tail ?b + length bs) ?bs"
    and len: "length (m' (rx_obj ?b)) = length ?bs"
    using w by (auto simp: wr_bytes_def split: if_splits)
  show wf': "rx_wf m' c'" using wf room len by (auto simp: rx_wf_def Let_def c'_def)
  have at: "rx_at m' c' i = rx_at m c i" if "i < rx_tail ?b - rx_head ?b" for i
    using that wf by (auto simp: rx_at_def c'_def mem nth_append rx_wf_def Let_def)
  have "rx_dist c' = rx_dist c" by (simp add: c'_def rx_dist_def)
  then show "proto_inv m' c'"
    by (intro proto_inv_cong [OF pr wf _ _ _ at]) (simp_all add: c'_def)
  show "pending m' c' = pending m c @ bs"
    using wf room by (auto simp: pending_def c'_def mem drop_take rx_wf_def Let_def)
  show "rx_frame c c' \<or> bs \<noteq> []" by (simp add: c'_def rx_frame_def err_total_def)
  show "rxErrorCount c' - err_total c' = rxErrorCount c - err_total c" by (simp add: c'_def err_total_def)
qed

lemma pending_suffix:
  assumes "rx_wf m c" "rx_frame c c'"
  shows "pending m c' = drop (rx_head (rxBuf c') - rx_head (rxBuf c)) (pending m c)"
  using assms by (auto simp: pending_def rx_frame_def drop_take)

section \<open>Properties\<close>

text \<open>C25: \<^verbatim>\<open>is_comm_init\<close> on a buffer inside its object clears the buffer, establishes the receive
  invariant with nothing pending, and the instance it makes passes \<^verbatim>\<open>is_comm_check\<close> for the
  same buffer, so that \<^verbatim>\<open>is_comm_check_init\<close> without force leaves it alone.\<close>

theorem is_comm_init_establishes:
  assumes "buffer + n \<le> length (m ob)"
  shows "\<exists>m' c. is_comm_init m ob buffer n = Some (m', c) \<and> rx_wf m' c \<and> proto_inv m' c \<and>
     pending m' c = [] \<and> take n (drop buffer (m' ob)) = replicate n 0 \<and>
     is_comm_check_init m'' c ob buffer n 0 = Some (0, m'', c)"
  using assms
  by (simp add: is_comm_init_def wr_bytes_def rx_wf_def proto_inv_def pending_def is_comm_check_init_def
      is_comm_check_def)

lemma is_comm_init_establishes_witness:
  "\<exists>m' c. is_comm_init (\<lambda>_. [1, 2, 3]) 0 1 2 = Some (m', c) \<and> rx_wf m' c \<and> proto_inv m' c \<and>
     pending m' c = [] \<and> take 2 (drop 1 (m' 0)) = replicate 2 0 \<and>
     is_comm_check_init (\<lambda>_. []) c 0 1 2 0 = Some (0, \<lambda>_. [], c)"
  using is_comm_init_establishes [of 1 2 "\<lambda>_. [1, 2, 3]" 0 "\<lambda>_. []"] by simp

text \<open>C4: in a state that satisfies the buffer and parser invariants, and whose pending bytes are
  a safe stream (they hold no Inertial Sense header whose size field wraps the packet length or
  that requests data without a size field), \<^verbatim>\<open>is_comm_parse_timeout\<close> returns: its loop ends and
  no parser reads outside the object that holds the buffer. The two invariants hold again, the
  tail is where it was, what is left is a suffix of what was pending, and when no packet is
  reported the scan pointer has reached the tail.\<close>

theorem is_comm_parse_total:
  assumes "rx_wf m c" "proto_inv m c" "safe_stream (pending m c)"
  shows "\<exists>pt c'. is_comm_parse_timeout m c t = Some (pt, c') \<and> rx_wf m c' \<and> proto_inv m c' \<and>
     rx_tail (rxBuf c') = rx_tail (rxBuf c) \<and>
     pending m c' = drop (rx_head (rxBuf c') - rx_head (rxBuf c)) (pending m c) \<and>
     (pt = PTYPE_NONE \<longrightarrow> rx_tail (rxBuf c') \<le> rx_scan (rxBuf c'))"
proof -
  have "rx_inv m c" using assms by (simp add: rx_inv_def isb_safe_pending)
  from parse_timeout_returns [OF this, of t] obtain pt c' where
    "is_comm_parse_timeout m c t = Some (pt, c')" "rx_inv m c'" "rx_frame c c'"
    "pt = PTYPE_NONE \<longrightarrow> rx_tail (rxBuf c') \<le> rx_scan (rxBuf c')" by (auto split: if_splits)
  moreover from this have "rx_wf m c'" "proto_inv m c'" "rx_tail (rxBuf c') = rx_tail (rxBuf c)"
    by (simp_all add: rx_inv_def rx_frame_def)
  ultimately show ?thesis using pending_suffix [OF assms(1)] by blast
qed

text \<open>A buffer that holds the start of an Inertial Sense packet behind an unknown byte.\<close>

definition demo_comm :: is_comm_instance_t where
  "demo_comm =
     \<lparr>rxBuf = \<lparr>rx_obj = 0, rx_start = 0, rx_end = 8, rx_size = 8, rx_head = 0, rx_tail = 4, rx_scan = 0,
        rx_scanPrior = None\<rparr>,
      enabledMask = default_mask, txPktCount = 0, rxPktCount = 0, rxErrorCount = 0,
      rxErrorType = EPARSE_INVALID_PREAMBLE, rxErrorTypeCount = (\<lambda>_. 0), processPkt = None,
      parser = \<lparr>ps_state = 0, ps_size = 0, ps_timeMs = 0\<rparr>, ackNeeded = 0, rxPkt = packet_zero,
      rxErrorState = False\<rparr>"

definition demo_mem :: cmem where
  "demo_mem = (\<lambda>_. [7, 0xEF, 0x49, 4, 0, 0, 0, 0])"

lemmas demo_defs = demo_comm_def demo_mem_def rx_wf_def proto_inv_def pending_def safe_stream_def

lemma is_comm_parse_total_witness:
  "\<exists>pt c'. is_comm_parse_timeout demo_mem demo_comm 5 = Some (pt, c') \<and> rx_wf demo_mem c' \<and>
     proto_inv demo_mem c' \<and> rx_tail (rxBuf c') = 4 \<and> (pt = PTYPE_NONE \<longrightarrow> 4 \<le> rx_scan (rxBuf c'))"
proof -
  have h: "rx_wf demo_mem demo_comm" "proto_inv demo_mem demo_comm" "safe_stream (pending demo_mem demo_comm)"
    by (simp_all add: demo_defs)
  have "rx_tail (rxBuf demo_comm) = 4" by (simp add: demo_comm_def)
  then show ?thesis using is_comm_parse_total [OF h, of 5] by fastforce
qed

text \<open>C26: error accounting. The error counter of an instance and the sum of its counters by type
  move together through \<^verbatim>\<open>is_comm_parse_timeout\<close> (modulo their 32 bits), and two of the declared
  error codes, the missing end of sentence and the invalid payload, are never counted.\<close>

theorem parse_errors_accounted:
  assumes "rx_wf m c" "proto_inv m c" "safe_stream (pending m c)" "rxErrorCount c = err_total c"
  shows "\<exists>pt c'. is_comm_parse_timeout m c t = Some (pt, c') \<and> rxErrorCount c' = err_total c' \<and>
     rxErrorTypeCount c' EPARSE_MISSING_EOS_MARKER = rxErrorTypeCount c EPARSE_MISSING_EOS_MARKER \<and>
     rxErrorTypeCount c' EPARSE_INVALID_PAYLOAD = rxErrorTypeCount c EPARSE_INVALID_PAYLOAD"
proof -
  have "rx_inv m c" using assms by (simp add: rx_inv_def isb_safe_pending)
  from parse_timeout_returns [OF this, of t] obtain pt c' where
    "is_comm_parse_timeout m c t = Some (pt, c')" "rx_frame c c'" by blast
  then show ?thesis using assms(4) by (auto simp: rx_frame_def raised_def)
qed

lemma parse_errors_accounted_witness:
  "\<exists>pt c'. is_comm_parse_timeout demo_mem demo_comm 5 = Some (pt, c') \<and> rxErrorCount c' = err_total c' \<and>
     rxErrorTypeCount c' EPARSE_MISSING_EOS_MARKER = 0 \<and> rxErrorTypeCount c' EPARSE_INVALID_PAYLOAD = 0"
proof -
  have h: "rx_wf demo_mem demo_comm" "proto_inv demo_mem demo_comm" "safe_stream (pending demo_mem demo_comm)"
    "rxErrorCount demo_comm = err_total demo_comm"
    by (simp_all add: demo_defs err_total_def)
  have "rxErrorTypeCount demo_comm = (\<lambda>_. 0)" by (simp add: demo_comm_def)
  then show ?thesis using parse_errors_accounted [OF h, of 5] by simp
qed

text \<open>C16: \<^verbatim>\<open>is_comm_free\<close> keeps the invariant and returns the room behind the tail. A full buffer
  whose packet starts in the first third is flushed, with an error; a full buffer whose packet
  starts later is shifted without losing a pending byte; any other buffer is left as it is. A
  buffer of at least three bytes has room afterwards.\<close>

theorem is_comm_free_spec:
  assumes "rx_wf m c" "proto_inv m c"
    "rx_size (rxBuf c) = of_nat (rx_end (rxBuf c) - rx_start (rxBuf c))"
    "rx_end (rxBuf c) - rx_start (rxBuf c) < 2 ^ 32"
  shows "\<exists>m' c'. is_comm_free m c = Some (int (rx_end (rxBuf c')) - int (rx_tail (rxBuf c')), m', c') \<and>
    rx_wf m' c' \<and> proto_inv m' c' \<and> rx_end (rxBuf c') = rx_end (rxBuf c) \<and>
    (3 \<le> rx_end (rxBuf c) - rx_start (rxBuf c) \<longrightarrow> rx_tail (rxBuf c') < rx_end (rxBuf c')) \<and>
    pending m' c' =
      (if rx_tail (rxBuf c) = rx_end (rxBuf c) \<and>
          rx_head (rxBuf c) - rx_start (rxBuf c) < (rx_end (rxBuf c) - rx_start (rxBuf c)) div 3
       then [] else pending m c)"
  using free_ok [OF assms] by blast

lemma is_comm_free_spec_witness:
  "\<exists>m' c'. is_comm_free demo_mem (demo_comm\<lparr>rxBuf := (rxBuf demo_comm)\<lparr>rx_head := 3, rx_scan := 3, rx_tail := 8\<rparr>\<rparr>) =
     Some (int (rx_end (rxBuf c')) - int (rx_tail (rxBuf c')), m', c') \<and> rx_wf m' c' \<and>
     rx_tail (rxBuf c') < 8 \<and> pending m' c' = [4, 0, 0, 0, 0]"
proof -
  let ?c = "demo_comm\<lparr>rxBuf := (rxBuf demo_comm)\<lparr>rx_head := 3, rx_scan := 3, rx_tail := 8\<rparr>\<rparr>"
  have h: "rx_wf demo_mem ?c" "proto_inv demo_mem ?c"
    "rx_size (rxBuf ?c) = of_nat (rx_end (rxBuf ?c) - rx_start (rxBuf ?c))"
    "rx_end (rxBuf ?c) - rx_start (rxBuf ?c) < 2 ^ 32"
    by (simp_all add: demo_defs)
  have "pending demo_mem ?c = [4, 0, 0, 0, 0]" "rx_tail (rxBuf ?c) = 8" "rx_end (rxBuf ?c) = 8"
    "rx_head (rxBuf ?c) = 3" "rx_start (rxBuf ?c) = 0"
    by (simp_all add: demo_defs)
  then show ?thesis using is_comm_free_spec [OF h] by auto
qed

lemma safe_stream_take: "safe_stream bs \<Longrightarrow> safe_stream (take k bs)"
  by (auto simp: safe_stream_def list_all_iff isb_hdr_safe_def)

lemma isb_hdr_safe_append: "isb_hdr_safe (xs @ ys) (length xs + h) = isb_hdr_safe ys h"
  by (simp add: isb_hdr_safe_def nth_append)

lemma safe_stream_suffix: "safe_stream (xs @ ys) \<Longrightarrow> safe_stream ys"
  using isb_hdr_safe_append [of xs ys] by (fastforce simp: safe_stream_def list_all_iff)

section \<open>Delivery\<close>

text \<open>\<open>is_comm_buffer_parse_messages\<close> up to its loop: it makes room and copies what fits.\<close>

lemma buffer_filled:
  assumes wf: "rx_wf m c" "proto_inv m c"
    and sz: "rx_size (rxBuf c) = of_nat (rx_end (rxBuf c) - rx_start (rxBuf c))"
      "rx_end (rxBuf c) - rx_start (rxBuf c) < 2 ^ 32"
    and buf: "unat buf_size \<le> length buf" "unat buf_size < 2 ^ 31"
    and safe: "safe_stream (pending m c @ buf)"
  shows "\<exists>r m1 c0 n m2 c1. is_comm_free m c = Some (r, m1, c0) \<and> n \<le> unat buf_size \<and>
    c1 = c0\<lparr>rxBuf := (rxBuf c0)\<lparr>rx_tail := rx_tail (rxBuf c0) + n\<rparr>\<rparr> \<and>
    is_comm_buffer_parse_messages m buf buf_size c cb s = parse_messages 0 cb m2 c1 s \<and>
    rx_inv m2 c1 \<and> rx_obj (rxBuf c1) = rx_obj (rxBuf c) \<and>
    (n < unat buf_size \<longrightarrow> rx_tail (rxBuf c1) = rx_end (rxBuf c1)) \<and>
    pending m2 c1 =
      (if rx_tail (rxBuf c) = rx_end (rxBuf c) \<and>
          rx_head (rxBuf c) - rx_start (rxBuf c) < (rx_end (rxBuf c) - rx_start (rxBuf c)) div 3
       then [] else pending m c) @ take n buf"
proof -
  define kept where "kept = (if rx_tail (rxBuf c) = rx_end (rxBuf c) \<and>
      rx_head (rxBuf c) - rx_start (rxBuf c) < (rx_end (rxBuf c) - rx_start (rxBuf c)) div 3
    then [] else pending m c)"
  obtain m1 c1 where f: "is_comm_free m c = Some (int (rx_end (rxBuf c1)) - int (rx_tail (rxBuf c1)), m1, c1)"
    "rx_wf m1 c1" "proto_inv m1 c1" "pending m1 c1 = kept" "rx_obj (rxBuf c1) = rx_obj (rxBuf c)"
    using free_ok [OF wf sz] unfolding kept_def by (metis (no_types, lifting))
  define n where "n = min (unat buf_size) (rx_end (rxBuf c1) - rx_tail (rxBuf c1))"
  have te: "rx_tail (rxBuf c1) \<le> rx_end (rxBuf c1)" "rx_end (rxBuf c1) \<le> length (m1 (rx_obj (rxBuf c1)))"
    using f(2) by (simp_all add: rx_wf_def Let_def)
  have "sint buf_size = int (unat buf_size)" using buf(2) 
    by (simp add: sint_uint signed_take_bit_int_eq_self uint_nat del: of_nat_unat)
  then have n: "min (sint buf_size) (int (rx_end (rxBuf c1)) - int (rx_tail (rxBuf c1))) = int n"
    using te by (auto simp: n_def min_def simp del: of_nat_unat)
  have bs: "obj_rd buf 0 (int n) = Some (take n buf)" "length (take n buf) = n"
    using buf(1) by (auto simp: n_def obj_rd_def)
  have room: "rx_tail (rxBuf c1) + length (take n buf) \<le> rx_end (rxBuf c1)" using te bs(2) by (simp add: n_def)
  obtain m2 where w: "wr_bytes m1 (rx_obj (rxBuf c1)) (rx_tail (rxBuf c1)) (take n buf) = Some m2"
    using wr_bytes_Some room te(2) le_trans by blast
  let ?c = "c1\<lparr>rxBuf := (rxBuf c1)\<lparr>rx_tail := rx_tail (rxBuf c1) + n\<rparr>\<rparr>"
  note fd = feed_ok [OF f(2,3) w room, unfolded bs(2)]
  have "kept = [] \<or> kept = pending m c" by (simp add: kept_def)
  then have "safe_stream (pending m2 ?c)"
    using f(4) fd(3) safe_stream_take [OF safe, of "length (pending m c) + n"]
      safe_stream_take [OF safe_stream_suffix [OF safe], of n] by auto
  then have "rx_inv m2 ?c" using fd(1,2) by (simp add: rx_inv_def isb_safe_pending)
  moreover have "is_comm_buffer_parse_messages m buf buf_size c cb s = parse_messages 0 cb m2 ?c s"
    using f(1) n bs w by (simp add: is_comm_buffer_parse_messages_def Let_def)
  moreover have "n < unat buf_size \<longrightarrow> rx_tail (rxBuf ?c) = rx_end (rxBuf ?c)" "n \<le> unat buf_size"
    using te by (auto simp: n_def)
  moreover have "pending m2 ?c = kept @ take n buf" using f(4) fd(3) by simp
  ultimately show ?thesis unfolding kept_def [symmetric]
    using f(1,5) by (intro exI [of _ m2] exI [of _ ?c] exI [of _ n] exI [of _ c1] exI [of _ m1] exI) simp
qed

text \<open>The loop returns whatever the handlers do, as long as they leave the receive state alone.\<close>

lemma is_comm_buffer_parse_messages_total:
  assumes wf: "rx_wf m c" "proto_inv m c"
    and sz: "rx_size (rxBuf c) = of_nat (rx_end (rxBuf c) - rx_start (rxBuf c))"
      "rx_end (rxBuf c) - rx_start (rxBuf c) < 2 ^ 32"
    and cb: "handlers_ok (rx_obj (rxBuf c)) cb" and buf: "unat buf_size \<le> length buf" "unat buf_size < 2 ^ 31"
    and safe: "safe_stream (pending m c @ buf)"
  shows "\<exists>m' c' s'. is_comm_buffer_parse_messages m buf buf_size c cb s = Some (m', c', s') \<and>
     rx_wf m' c' \<and> proto_inv m' c' \<and> rx_tail (rxBuf c') \<le> rx_scan (rxBuf c')"
proof -
  obtain m2 c1 where i: "is_comm_buffer_parse_messages m buf buf_size c cb s = parse_messages 0 cb m2 c1 s"
      "rx_inv m2 c1" "rx_obj (rxBuf c1) = rx_obj (rxBuf c)"
    using buffer_filled [OF wf sz buf safe, of cb s] by blast
  obtain m3 c2 s2 where "parse_messages 0 cb m2 c1 s = Some (m3, c2, s2)" "rx_inv m3 c2"
    "rx_tail (rxBuf c2) \<le> rx_scan (rxBuf c2)"
    using parse_messages_returns [OF i(2), of cb 0 s] cb i(3) by auto
  then show ?thesis using i(1) by (simp add: rx_inv_def)
qed

text \<open>Handlers that record their calls, with the port and the arguments they get.\<close>

datatype handler_call =
    CallIsb packet_t
  | CallIsbData p_data_t
  | CallNmea cptr u32
  | CallUblox cptr u32
  | CallRtcm3 cptr u32
  | CallSony cptr u32
  | CallSpartn cptr u32
  | CallError eParseErrorType
  | CallAll packet_t

definition record_gen :: "(cptr \<Rightarrow> u32 \<Rightarrow> handler_call) \<Rightarrow> (nat \<times> handler_call) list gen_handler" where
  "record_gen f port p n m s = Some (m, s @ [(port, f p n)])"

definition record_comm ::
  "(is_comm_instance_t \<Rightarrow> handler_call) \<Rightarrow> (nat \<times> handler_call) list comm_handler" where
  "record_comm f port m c s = Some (m, c, s @ [(port, f c)])"

definition recorder :: "(nat \<times> handler_call) list is_comm_callbacks_t" where
  "recorder =
     \<lparr>cb_isbData = Some (\<lambda>port d m s. Some (m, s @ [(port, CallIsbData d)])),
      cb_isb = Some (record_comm (\<lambda>c. CallIsb (rxPkt c))),
      cb_nmea = Some (record_gen CallNmea), cb_ublox = Some (record_gen CallUblox),
      cb_rtcm3 = Some (record_gen CallRtcm3), cb_sony = Some (record_gen CallSony),
      cb_sprtn = Some (record_gen CallSpartn),
      cb_error = Some (record_comm (\<lambda>c. CallError (rxErrorType c))),
      cb_all = Some (record_comm (\<lambda>c. CallAll (rxPkt c))), cb_rmc = None\<rparr>"

text \<open>The calls due for a packet: the handler of its protocol gets the payload, the handlers of
  Inertial Sense packets and of errors get the instance, and the handler of all packets comes last.\<close>

definition payload_ptr :: "is_comm_instance_t \<Rightarrow> cptr" where
  "payload_ptr c = ptr_add (dptr (pdata (rxPkt c))) (unat (pkt_offset (rxPkt c)))"

fun handler_calls :: "protocol_type_t \<times> is_comm_instance_t \<Rightarrow> handler_call list" where
  "handler_calls (PTYPE_INERTIAL_SENSE_DATA, c) =
     [CallIsb (rxPkt c), CallIsbData (is_comm_to_isb_p_data c), CallAll (rxPkt c)]"
| "handler_calls (PTYPE_INERTIAL_SENSE_ACK, c) = [CallIsb (rxPkt c), CallAll (rxPkt c)]"
| "handler_calls (PTYPE_INERTIAL_SENSE_CMD, c) = [CallIsb (rxPkt c), CallAll (rxPkt c)]"
| "handler_calls (PTYPE_NMEA, c) = [CallNmea (payload_ptr c) (dsize (pdata (rxPkt c))), CallAll (rxPkt c)]"
| "handler_calls (PTYPE_RTCM3, c) = [CallRtcm3 (payload_ptr c) (dsize (pdata (rxPkt c))), CallAll (rxPkt c)]"
| "handler_calls (PTYPE_SPARTN, c) = [CallSpartn (payload_ptr c) (dsize (pdata (rxPkt c))), CallAll (rxPkt c)]"
| "handler_calls (PTYPE_UBLOX, c) = [CallUblox (payload_ptr c) (dsize (pdata (rxPkt c))), CallAll (rxPkt c)]"
| "handler_calls (PTYPE_SONY, c) = [CallSony (payload_ptr c) (dsize (pdata (rxPkt c))), CallAll (rxPkt c)]"
| "handler_calls (PTYPE_PARSE_ERROR, c) = [CallError (rxErrorType c), CallAll (rxPkt c)]"
| "handler_calls (PTYPE_NONE, c) = []"

text \<open>The packets that repeated calls of \<^verbatim>\<open>is_comm_parse\<close> find.\<close>

fun parse_trace ::
  "cmem \<Rightarrow> is_comm_instance_t \<Rightarrow> (protocol_type_t \<times> is_comm_instance_t) list \<Rightarrow> is_comm_instance_t \<Rightarrow> bool"
where
  "parse_trace m c [] c' \<longleftrightarrow> is_comm_parse m c = Some (PTYPE_NONE, c')"
| "parse_trace m c (p # ps) c' \<longleftrightarrow>
     is_comm_parse m c = Some p \<and> fst p \<noteq> PTYPE_NONE \<and> parse_trace m (snd p) ps c'"

lemma recorder_dispatch:
  assumes "pt \<noteq> PTYPE_NONE"
  shows "dispatch recorder port pt (m, c, s) \<bind> call_comm (cb_all recorder) port =
    Some (m, c, s @ map (Pair port) (handler_calls (pt, c)))"
  using assms
  by (cases pt) (simp_all add: dispatch_def recorder_def call_comm_def call_gen_def call_isbData_def
      record_comm_def record_gen_def payload_ptr_def)

lemma recorder_trace:
  assumes "rx_inv m c"
  shows "\<exists>ps c'. parse_messages port recorder m c s =
      Some (m, c', s @ map (Pair port) (concat (map handler_calls ps))) \<and>
    parse_trace m c ps c' \<and> rx_inv m c' \<and> rx_tail (rxBuf c') \<le> rx_scan (rxBuf c')"
  using assms
proof (induction c arbitrary: s rule: wf_induct_rule [OF wf_parse_rel])
  case (1 c)
  obtain pt c1 where p: "is_comm_parse m c = Some (pt, c1)" "rx_inv m c1"
    "if pt = PTYPE_NONE then rx_tail (rxBuf c1) \<le> rx_scan (rxBuf c1) else (c1, c) \<in> parse_rel"
    using parse_timeout_returns [OF 1(2), of 0] unfolding is_comm_parse_def by blast
  show ?case
  proof (cases "pt = PTYPE_NONE")
    case True
    then show ?thesis using p by (intro exI [of _ "[]"]) (subst parse_messages.simps, simp)
  next
    case False
    let ?s = "s @ map (Pair port) (handler_calls (pt, c1))"
    have "(c1, c) \<in> parse_rel" using p(3) False by simp
    then obtain ps c' where r: "parse_messages port recorder m c1 ?s =
        Some (m, c', ?s @ map (Pair port) (concat (map handler_calls ps)))"
        "parse_trace m c1 ps c'" "rx_inv m c'" "rx_tail (rxBuf c') \<le> rx_scan (rxBuf c')"
      using 1(1) p(2) by blast
    obtain w1 where "dispatch recorder port pt (m, c1, s) = Some w1"
        "call_comm (cb_all recorder) port w1 = Some (m, c1, ?s)"
      using recorder_dispatch [OF False, of port m c1 s] by (auto simp: bind_eq_Some_conv)
    then have "parse_messages port recorder m c s = parse_messages port recorder m c1 ?s"
      using p(1) False by (subst parse_messages.simps) simp
    then show ?thesis
      using r p(1) False by (intro exI [of _ "(pt, c1) # ps"] exI [of _ c']) simp
  qed
qed

text \<open>C5: the whole receive path delivers. Given an instance that satisfies the invariants and a
  block of bytes that keeps the stream safe, \<^verbatim>\<open>is_comm_buffer_parse_messages\<close> makes room,
  copies as many bytes as fit behind the pending ones, and returns. The handlers, here ones that
  record their calls, are called for every packet that repeated calls of \<^verbatim>\<open>is_comm_parse\<close> find
  in those bytes, in order and each exactly once: the handler of the packet's protocol with the
  packet's data, then the handler of all packets. At the end every byte is scanned and the
  invariants hold.\<close>

theorem buffer_messages_delivered:
  assumes "rx_wf m c" "proto_inv m c"
    "rx_size (rxBuf c) = of_nat (rx_end (rxBuf c) - rx_start (rxBuf c))"
    "rx_end (rxBuf c) - rx_start (rxBuf c) < 2 ^ 32"
    "unat buf_size \<le> length buf" "unat buf_size < 2 ^ 31" "safe_stream (pending m c @ buf)"
  shows "\<exists>r m1 c0 n c1 m' ps c'.
    is_comm_free m c = Some (r, m1, c0) \<and> n \<le> unat buf_size \<and>
    c1 = c0\<lparr>rxBuf := (rxBuf c0)\<lparr>rx_tail := rx_tail (rxBuf c0) + n\<rparr>\<rparr> \<and>
    (n < unat buf_size \<longrightarrow> rx_tail (rxBuf c1) = rx_end (rxBuf c1)) \<and>
    pending m' c1 =
      (if rx_tail (rxBuf c) = rx_end (rxBuf c) \<and>
          rx_head (rxBuf c) - rx_start (rxBuf c) < (rx_end (rxBuf c) - rx_start (rxBuf c)) div 3
       then [] else pending m c) @ take n buf \<and>
    parse_trace m' c1 ps c' \<and>
    is_comm_buffer_parse_messages m buf buf_size c recorder s =
      Some (m', c', s @ map (Pair 0) (concat (map handler_calls ps))) \<and>
    rx_wf m' c' \<and> proto_inv m' c' \<and> rx_tail (rxBuf c') \<le> rx_scan (rxBuf c')"
proof -
  obtain r m1 c0 n m2 c1 where f: "is_comm_free m c = Some (r, m1, c0)" "n \<le> unat buf_size"
    "c1 = c0\<lparr>rxBuf := (rxBuf c0)\<lparr>rx_tail := rx_tail (rxBuf c0) + n\<rparr>\<rparr>"
    "is_comm_buffer_parse_messages m buf buf_size c recorder s = parse_messages 0 recorder m2 c1 s"
    "rx_inv m2 c1" "n < unat buf_size \<longrightarrow> rx_tail (rxBuf c1) = rx_end (rxBuf c1)"
    "pending m2 c1 =
      (if rx_tail (rxBuf c) = rx_end (rxBuf c) \<and>
          rx_head (rxBuf c) - rx_start (rxBuf c) < (rx_end (rxBuf c) - rx_start (rxBuf c)) div 3
       then [] else pending m c) @ take n buf"
    using buffer_filled [OF assms, of recorder s] by blast
  obtain ps c' where "parse_messages 0 recorder m2 c1 s =
      Some (m2, c', s @ map (Pair 0) (concat (map handler_calls ps)))"
    "parse_trace m2 c1 ps c'" "rx_inv m2 c'" "rx_tail (rxBuf c') \<le> rx_scan (rxBuf c')"
    using recorder_trace [OF f(5), of 0 s] by blast
  moreover from this have "rx_wf m2 c'" "proto_inv m2 c'" by (simp_all add: rx_inv_def)
  ultimately show ?thesis
    using f by (intro exI [of _ r] exI [of _ m1] exI [of _ c0] exI [of _ n] exI [of _ c1] exI [of _ m2]
        exI [of _ ps] exI [of _ c']) (intro conjI, simp_all only:)
qed

text \<open>An empty buffer of 32 bytes and the sentence \<open>$INFO*0E\<close>.\<close>

definition demo_empty :: is_comm_instance_t where
  "demo_empty = demo_comm\<lparr>rxBuf := (rxBuf demo_comm)\<lparr>rx_end := 32, rx_size := 32, rx_tail := 0\<rparr>\<rparr>"

definition demo_sentence :: "u8 list" where
  "demo_sentence = [0x24, 0x49, 0x4E, 0x46, 0x4F, 0x2A, 0x30, 0x45, 0x0D, 0x0A]"

lemma buffer_messages_delivered_witness:
  "(\<exists>r m1 c0 n c1 m' ps c'. is_comm_free (\<lambda>_. replicate 32 0) demo_empty = Some (r, m1, c0) \<and> n \<le> 10 \<and>
      pending m' c1 = take n demo_sentence \<and> parse_trace m' c1 ps c' \<and>
      is_comm_buffer_parse_messages (\<lambda>_. replicate 32 0) demo_sentence 10 demo_empty recorder [] =
        Some (m', c', map (Pair 0) (concat (map handler_calls ps))) \<and>
      rx_tail (rxBuf c') \<le> rx_scan (rxBuf c')) \<and>
   map_option (\<lambda>(m, c, s). s)
      (is_comm_buffer_parse_messages (\<lambda>_. replicate 32 0) demo_sentence 10 demo_empty recorder []) =
     Some [(0, CallNmea (Ptr 0 0) 10),
           (0, CallAll \<lparr>hdr = \<lparr>preamble = 0, flags = 0, hdr_id = 0, payloadSize = 0\<rparr>, pkt_offset = 0,
              pdata = \<lparr>dptr = Ptr 0 0, dsize = 10\<rparr>, hdrCksum = 0, checksum = 0, pkt_size = 10,
              pkt_id = 14\<rparr>)]"
    (is "?A \<and> ?B")
proof
  have h: "rx_wf (\<lambda>_. replicate 32 0) demo_empty" "proto_inv (\<lambda>_. replicate 32 0) demo_empty"
    "rx_size (rxBuf demo_empty) = of_nat (rx_end (rxBuf demo_empty) - rx_start (rxBuf demo_empty))"
    "rx_end (rxBuf demo_empty) - rx_start (rxBuf demo_empty) < 2 ^ 32"
    "unat (10 :: u32) \<le> length demo_sentence" "unat (10 :: u32) < 2 ^ 31"
    by (simp_all add: demo_empty_def demo_sentence_def demo_defs)
  have p: "pending (\<lambda>_. replicate 32 0) demo_empty = []" by (simp add: demo_empty_def demo_defs)
  then have "safe_stream (pending (\<lambda>_. replicate 32 0) demo_empty @ demo_sentence)"
    by (simp add: demo_sentence_def safe_stream_def isb_hdr_safe_def u16_of_def)
  from buffer_messages_delivered [OF h this, of "[]"] obtain r m1 c0 n c1 m' ps c' where w:
    "is_comm_free (\<lambda>_. replicate 32 0) demo_empty = Some (r, m1, c0)" "n \<le> unat (10 :: u32)"
    "pending m' c1 = (if rx_tail (rxBuf demo_empty) = rx_end (rxBuf demo_empty) \<and>
        rx_head (rxBuf demo_empty) - rx_start (rxBuf demo_empty) <
          (rx_end (rxBuf demo_empty) - rx_start (rxBuf demo_empty)) div 3
      then [] else pending (\<lambda>_. replicate 32 0) demo_empty) @ take n demo_sentence"
    "parse_trace m' c1 ps c'"
    "is_comm_buffer_parse_messages (\<lambda>_. replicate 32 0) demo_sentence 10 demo_empty recorder [] =
      Some (m', c', [] @ map (Pair 0) (concat (map handler_calls ps)))"
    "rx_tail (rxBuf c') \<le> rx_scan (rxBuf c')"
    by (elim exE conjE) (rule that)
  have "n \<le> 10" "pending m' c1 = take n demo_sentence" using w(2,3) p by simp_all
  then show ?A using w(1,4,5,6) unfolding append_Nil by blast
  show ?B by code_simp
qed

end
