(* ===== verification/CommTx.thy ===== *)
theory CommTx
  imports CommSafety
begin

text \<open>
  The transmit path of \<^verbatim>\<open>ISComm.c\<close>: encoding a header, writing a packet to a buffer or to a
  port, the requests built on it, and the copies between packets and structures. The
  properties are the bytes a packet consists of, that the receive path recovers what was
  sent, and the bounds of the copies. The packet on the stack of \<^verbatim>\<open>is_comm_write\<close> and
  \<^verbatim>\<open>is_comm_write_to_buf\<close> starts as zero: every field that is sent is assigned first.
\<close>

section \<open>Encoding\<close>

definition is_comm_encode_hdr ::
  "packet_t \<Rightarrow> u8 \<Rightarrow> u16 \<Rightarrow> u16 \<Rightarrow> u16 \<Rightarrow> cptr \<Rightarrow> packet_t" where
  "is_comm_encode_hdr pkt fl did data_size offset dat =
     (let h0 = \<lparr>preamble = PSC_ISB_PREAMBLE, flags = fl, hdr_id = ucast did, payloadSize = data_size\<rparr>;
          h = (if offset \<noteq> 0
               then h0\<lparr>flags := fl OR ISB_FLAGS_PAYLOAD_W_OFFSET, payloadSize := data_size + 2\<rparr> else h0);
          ck0 = is_comm_isb_checksum16 0 (hdr_bytes h);
          ck = (if offset \<noteq> 0 then is_comm_isb_checksum16 ck0 (u16_bytes offset) else ck0)
      in pkt\<lparr>hdr := h, pkt_offset := offset, pdata := \<lparr>dptr = dat, dsize = ucast data_size\<rparr>,
             pkt_size := payloadSize h + 6 + 2, hdrCksum := ck\<rparr>)"

definition rd_ptr :: "cmem \<Rightarrow> cptr \<Rightarrow> nat \<Rightarrow> u8 list option" where
  "rd_ptr m p n = (case p of Null \<Rightarrow> None | Ptr ob i \<Rightarrow> rd_bytes m ob i n)"

text \<open>The payload of a packet and its contribution to the checksum: \<^verbatim>\<open>if (pkt->data.size)\<close>.\<close>

definition tx_data :: "cmem \<Rightarrow> packet_t \<Rightarrow> (u8 list \<times> u16) option" where
  "tx_data m pkt =
     (if dsize (pdata pkt) \<noteq> 0
      then do { bs \<leftarrow> rd_ptr m (dptr (pdata pkt)) (unat (dsize (pdata pkt)));
                Some (bs, is_comm_isb_checksum16 (hdrCksum pkt) bs) }
      else Some ([], hdrCksum pkt))"

definition is_comm_write_isb_precomp_to_buffer ::
  "cmem \<Rightarrow> nat \<Rightarrow> nat \<Rightarrow> u32 \<Rightarrow> is_comm_instance_t \<Rightarrow> packet_t \<Rightarrow>
   (int \<times> cmem \<times> is_comm_instance_t \<times> packet_t) option" where
  "is_comm_write_isb_precomp_to_buffer m ob buf buf_size comm pkt =
     (if ucast (pkt_size pkt) > buf_size then Some (- 1, m, comm, pkt)
      else
        do { m1 \<leftarrow> wr_bytes m ob buf (hdr_bytes (hdr pkt));
             (m2, buf2) \<leftarrow>
               (if pkt_offset pkt \<noteq> 0
                then do { m2 \<leftarrow> wr_bytes m1 ob (buf + 6) (u16_bytes (pkt_offset pkt)); Some (m2, buf + 8) }
                else Some (m1, buf + 6));
             (bs, ck) \<leftarrow> tx_data m2 pkt;
             m3 \<leftarrow> wr_bytes m2 ob buf2 bs;
             m4 \<leftarrow> wr_bytes m3 ob (buf2 + length bs) (u16_bytes ck);
             Some (uint (pkt_size pkt), m4, comm\<lparr>txPktCount := txPktCount comm + 1\<rparr>, pkt\<lparr>checksum := ck\<rparr>) })"

text \<open>\<open>portWrite\<close> is the application's: it gets the port and the bytes and returns the number it
  wrote, with the state of its side.\<close>

type_synonym 's port_write = "nat \<Rightarrow> u8 list \<Rightarrow> 's \<Rightarrow> int \<times> 's"

definition is_comm_write_isb_precomp_to_port ::
  "'s port_write \<Rightarrow> nat \<Rightarrow> cmem \<Rightarrow> is_comm_instance_t \<Rightarrow> packet_t \<Rightarrow> 's \<Rightarrow>
   (int \<times> is_comm_instance_t \<times> packet_t \<times> 's) option" where
  "is_comm_write_isb_precomp_to_port portWrite port m comm pkt s =
     (let (n1, s1) = portWrite port (hdr_bytes (hdr pkt)) s;
          (n2, s2) = (if pkt_offset pkt \<noteq> 0 then portWrite port (u16_bytes (pkt_offset pkt)) s1 else (0, s1)) in
      do { (bs, ck) \<leftarrow> tx_data m pkt;
           (let (n3, s3) = (if dsize (pdata pkt) \<noteq> 0 then portWrite port bs s2 else (0, s2));
                (n4, s4) = portWrite port (u16_bytes ck) s3;
                n = n1 + n2 + n3 + n4 in
            Some (if n = uint (pkt_size pkt) then n else - 1,
                  comm\<lparr>txPktCount := txPktCount comm + 1\<rparr>, pkt\<lparr>checksum := ck\<rparr>, s4)) })"

definition is_comm_write_to_buf ::
  "cmem \<Rightarrow> nat \<Rightarrow> nat \<Rightarrow> u32 \<Rightarrow> is_comm_instance_t \<Rightarrow> u8 \<Rightarrow> u16 \<Rightarrow> u16 \<Rightarrow> u16 \<Rightarrow> cptr \<Rightarrow>
   (int \<times> cmem \<times> is_comm_instance_t) option" where
  "is_comm_write_to_buf m ob buf buf_size comm fl did data_size offset dat =
     map_option (\<lambda>(n, m', comm', _). (n, m', comm'))
       (is_comm_write_isb_precomp_to_buffer m ob buf buf_size comm
          (is_comm_encode_hdr packet_zero fl did data_size offset dat))"

definition is_comm_write_pkt ::
  "'s port_write option \<Rightarrow> nat \<Rightarrow> cmem \<Rightarrow> is_comm_instance_t \<Rightarrow> packet_t \<Rightarrow> u8 \<Rightarrow> u16 \<Rightarrow> u16 \<Rightarrow> u16 \<Rightarrow> cptr \<Rightarrow>
   's \<Rightarrow> (int \<times> is_comm_instance_t \<times> packet_t \<times> 's) option" where
  "is_comm_write_pkt portWrite port m comm txPkt fl did data_size offset dat s =
     (case portWrite of
        None \<Rightarrow> Some (- 1, comm, txPkt, s)
      | Some w \<Rightarrow> is_comm_write_isb_precomp_to_port w port m comm
                    (is_comm_encode_hdr txPkt fl did data_size offset dat) s)"

definition is_comm_write ::
  "'s port_write option \<Rightarrow> nat \<Rightarrow> cmem \<Rightarrow> is_comm_instance_t \<Rightarrow> u8 \<Rightarrow> u16 \<Rightarrow> u16 \<Rightarrow> u16 \<Rightarrow> cptr \<Rightarrow> 's \<Rightarrow>
   (int \<times> is_comm_instance_t \<times> 's) option" where
  "is_comm_write portWrite port m comm fl did data_size offset dat s =
     map_option (\<lambda>(n, comm', _, s'). (n, comm', s'))
       (is_comm_write_pkt portWrite port m comm packet_zero fl did data_size offset dat s)"

text \<open>A \<^verbatim>\<open>p_data_get_t\<close> in memory. It is a local variable of the caller: the object \<open>stk\<close> holds it.\<close>

definition get_bytes :: "u32 \<Rightarrow> u32 \<Rightarrow> u32 \<Rightarrow> u32 \<Rightarrow> u8 list" where
  "get_bytes did sz offset periodMultiple =
     u16_bytes (ucast did) @ u16_bytes (ucast sz) @ u16_bytes (ucast offset) @ u16_bytes (ucast periodMultiple)"

definition is_comm_get_data_to_buf ::
  "cmem \<Rightarrow> nat \<Rightarrow> nat \<Rightarrow> u32 \<Rightarrow> nat \<Rightarrow> is_comm_instance_t \<Rightarrow> u32 \<Rightarrow> u32 \<Rightarrow> u32 \<Rightarrow> u32 \<Rightarrow>
   (int \<times> cmem \<times> is_comm_instance_t) option" where
  "is_comm_get_data_to_buf m ob buf buf_size stk comm did sz offset periodMultiple =
     is_comm_write_to_buf (m(stk := get_bytes did sz offset periodMultiple)) ob buf buf_size comm
       PKT_TYPE_GET_DATA 0 8 0 (Ptr stk 0)"

definition is_comm_get_data ::
  "'s port_write option \<Rightarrow> nat \<Rightarrow> cmem \<Rightarrow> nat \<Rightarrow> is_comm_instance_t \<Rightarrow> u32 \<Rightarrow> u32 \<Rightarrow> u32 \<Rightarrow> u32 \<Rightarrow> 's \<Rightarrow>
   (int \<times> is_comm_instance_t \<times> 's) option" where
  "is_comm_get_data portWrite port m stk comm did sz offset periodMultiple s =
     is_comm_write portWrite port (m(stk := get_bytes did sz offset periodMultiple)) comm
       PKT_TYPE_GET_DATA 0 8 0 (Ptr stk 0) s"

section \<open>Copies between packets and structures\<close>

text \<open>The guards compare the sum of two 16-bit fields, computed as \<open>int\<close>, with an unsigned
  limit. A pointer plus an offset is formed before the copy.\<close>

definition hdr_end :: "p_data_hdr_t \<Rightarrow> u32" where
  "hdr_end h = ucast (d_size h) + ucast (d_offset h)"

definition copyStructPToDataP :: "cmem \<Rightarrow> p_data_t \<Rightarrow> cptr \<Rightarrow> u32 \<Rightarrow> (int \<times> cmem) option" where
  "copyStructPToDataP m dat sptr maxsize =
     (if hdr_end (d_hdr dat) \<le> maxsize
      then do { m' \<leftarrow> memcpy m (d_ptr dat) (ptr_add sptr (unat (d_offset (d_hdr dat)))) (unat (d_size (d_hdr dat)));
                Some (0, m') }
      else Some (- 1, m))"

definition copyDataPToStructP2 ::
  "cmem \<Rightarrow> cptr \<Rightarrow> p_data_hdr_t \<Rightarrow> cptr \<Rightarrow> u32 \<Rightarrow> (int \<times> cmem) option" where
  "copyDataPToStructP2 m sptr dataHdr dataBuf maxsize =
     (if hdr_end dataHdr \<le> maxsize
      then do { m' \<leftarrow> memcpy m (ptr_add sptr (unat (d_offset dataHdr))) dataBuf (unat (d_size dataHdr));
                Some (0, m') }
      else Some (- 1, m))"

definition copyDataPToStructP :: "cmem \<Rightarrow> cptr \<Rightarrow> p_data_t \<Rightarrow> u32 \<Rightarrow> (int \<times> cmem) option" where
  "copyDataPToStructP m sptr dat maxsize =
     (if hdr_end (d_hdr dat) \<le> maxsize
      then do { m' \<leftarrow> memcpy m (ptr_add sptr (unat (d_offset (d_hdr dat)))) (d_ptr dat) (unat (d_size (d_hdr dat)));
                Some (0, m') }
      else Some (- 1, m))"

text \<open>A \<^verbatim>\<open>p_data_buf_t\<close> is its header and the pointer to its buffer.\<close>

definition copyDataBufPToStructP :: "cmem \<Rightarrow> cptr \<Rightarrow> p_data_hdr_t \<Rightarrow> cptr \<Rightarrow> u32 \<Rightarrow> (int \<times> cmem) option" where
  "copyDataBufPToStructP m sptr h buf maxsize =
     (if hdr_end h \<le> maxsize
      then do { m' \<leftarrow> memcpy m (ptr_add sptr (unat (d_offset h))) buf (unat (d_size h)); Some (0, m') }
      else Some (- 1, m))"

definition copyDataPToDataP :: "cmem \<Rightarrow> p_data_t \<Rightarrow> p_data_t \<Rightarrow> u32 \<Rightarrow> (int \<times> p_data_t \<times> cmem) option" where
  "copyDataPToDataP m dst src maxsize =
     (if ucast (d_size (d_hdr src)) \<le> maxsize
      then do { m' \<leftarrow> memcpy m (d_ptr dst) (d_ptr src) (unat (d_size (d_hdr src)));
                Some (0, dst\<lparr>d_hdr := d_hdr src\<rparr>, m') }
      else Some (- 1, dst, m))"

definition is_comm_copy_to_struct :: "cmem \<Rightarrow> cptr \<Rightarrow> is_comm_instance_t \<Rightarrow> u32 \<Rightarrow> (int \<times> cmem) option" where
  "is_comm_copy_to_struct m sptr c maxsize =
     (if dsize (pdata (rxPkt c)) + ucast (pkt_offset (rxPkt c)) \<le> maxsize
      then do { m' \<leftarrow> memcpy m (ptr_add sptr (unat (pkt_offset (rxPkt c)))) (dptr (pdata (rxPkt c)))
                        (unat (dsize (pdata (rxPkt c))));
                Some (0, m') }
      else Some (- 1, m))"

section \<open>The bytes of a packet\<close>

definition isb_hdr :: "u8 \<Rightarrow> u16 \<Rightarrow> u16 \<Rightarrow> u16 \<Rightarrow> packet_hdr_t" where
  "isb_hdr fl did data_size offset =
     \<lparr>preamble = PSC_ISB_PREAMBLE, flags = (if offset \<noteq> 0 then fl OR ISB_FLAGS_PAYLOAD_W_OFFSET else fl),
      hdr_id = ucast did, payloadSize = (if offset \<noteq> 0 then data_size + 2 else data_size)\<rparr>"

definition isb_body :: "u8 \<Rightarrow> u16 \<Rightarrow> u16 \<Rightarrow> u8 list \<Rightarrow> u8 list" where
  "isb_body fl did offset dat =
     hdr_bytes (isb_hdr fl did (of_nat (length dat)) offset) @
     (if offset \<noteq> 0 then u16_bytes offset else []) @ dat"

definition isb_frame :: "u8 \<Rightarrow> u16 \<Rightarrow> u16 \<Rightarrow> u8 list \<Rightarrow> u8 list" where
  "isb_frame fl did offset dat =
     isb_body fl did offset dat @ u16_bytes (is_comm_isb_checksum16 0 (isb_body fl did offset dat))"

definition put_bytes :: "cmem \<Rightarrow> nat \<Rightarrow> nat \<Rightarrow> u8 list \<Rightarrow> cmem" where
  "put_bytes m ob i bs = m(ob := take i (m ob) @ bs @ drop (i + length bs) (m ob))"

lemma wr_bytes_put: "i + length bs \<le> length (m ob) \<Longrightarrow> wr_bytes m ob i bs = Some (put_bytes m ob i bs)"
  by (simp add: wr_bytes_def put_bytes_def)

lemma wr_bytes_put_append:
  "j = i + length bs \<Longrightarrow> i + length bs + length cs \<le> length (m ob) \<Longrightarrow>
   wr_bytes (put_bytes m ob i bs) ob j cs = Some (put_bytes m ob i (bs @ cs))"
  by (auto simp: wr_bytes_def put_bytes_def ac_simps fun_eq_iff)

lemma put_bytes_length: "i + length bs \<le> length (m ob) \<Longrightarrow> length (put_bytes m ob i bs ob') = length (m ob')"
  by (simp add: put_bytes_def)

lemma rd_ptr_other:
  "wr_bytes m ob i bs = Some m1 \<Longrightarrow> (\<And>o' j. p = Ptr o' j \<Longrightarrow> o' \<noteq> ob) \<Longrightarrow> rd_ptr m1 p n = rd_ptr m p n"
  by (auto simp: rd_ptr_def rd_bytes_def wr_bytes_other split: cptr.splits)

lemma encode_hdr_simps:
  "hdr (is_comm_encode_hdr pkt fl did n off p) = isb_hdr fl did n off"
  "pkt_offset (is_comm_encode_hdr pkt fl did n off p) = off"
  "pdata (is_comm_encode_hdr pkt fl did n off p) = \<lparr>dptr = p, dsize = ucast n\<rparr>"
  "pkt_size (is_comm_encode_hdr pkt fl did n off p) = payloadSize (isb_hdr fl did n off) + 8"
  "hdrCksum (is_comm_encode_hdr pkt fl did n off p) =
     is_comm_isb_checksum16 0 (hdr_bytes (isb_hdr fl did n off) @ (if off \<noteq> 0 then u16_bytes off else []))"
  by (auto simp: is_comm_encode_hdr_def Let_def isb_hdr_def is_comm_fletcher16_append)

lemma length_hdr_bytes [simp]: "length (hdr_bytes h) = 6"
  by (simp add: hdr_bytes_def)

lemma length_isb_frame [simp]:
  "length (isb_frame fl did off dat) = length dat + (if off \<noteq> 0 then 10 else 8)"
  by (simp add: isb_frame_def isb_body_def)

lemma ucast_u16_u32: "unat (ucast n :: u32) = unat n" "(ucast n = (0 :: u32)) = (n = 0)" for n :: u16
proof -
  show a: "unat (ucast n :: u32) = unat n"
  proof -
    have "unat n < 2 ^ LENGTH(16)" by (rule unsigned_less)
    then show ?thesis by (simp add: unsigned_ucast_eq take_bit_nat_eq_self)
  qed
  show "(ucast n = (0 :: u32)) = (n = 0)"
    using a by (metis unat_eq_zero)
qed

text \<open>The data a caller passes: readable, and not inside the buffer written to.\<close>

definition tx_source :: "cmem \<Rightarrow> nat \<Rightarrow> cptr \<Rightarrow> u8 list \<Rightarrow> bool" where
  "tx_source m ob p dat \<longleftrightarrow>
     (dat \<noteq> [] \<longrightarrow> rd_ptr m p (length dat) = Some dat) \<and> (\<forall>o' j. p = Ptr o' j \<longrightarrow> o' \<noteq> ob)"

lemma tx_data_source:
  assumes "tx_source m ob p dat" "length dat < 65536"
  shows "tx_data m (is_comm_encode_hdr pkt fl did (of_nat (length dat)) off p) =
    Some (dat, is_comm_isb_checksum16 0 (isb_body fl did off dat))"
proof -
  have n: "unat (of_nat (length dat) :: u16) = length dat"
    using assms(2) by (simp add: unsigned_of_nat take_bit_nat_eq_self)
  have z: "(of_nat (length dat) :: u16) = 0 \<longleftrightarrow> dat = []"
    using n by (metis length_0_conv unat_eq_zero)
  have "is_comm_isb_checksum16 0 (isb_body fl did off dat) =
      is_comm_isb_checksum16 (hdrCksum (is_comm_encode_hdr pkt fl did (of_nat (length dat)) off p)) dat"
    by (simp add: isb_body_def encode_hdr_simps is_comm_fletcher16_append)
  then show ?thesis using assms(1)
    by (simp add: tx_data_def encode_hdr_simps ucast_u16_u32 n z tx_source_def is_comm_fletcher16_Nil)
qed

lemma tx_source_mono:
  "wr_bytes m ob i bs = Some m1 \<Longrightarrow> tx_source m ob p dat \<Longrightarrow> tx_source m1 ob p dat"
  by (auto simp: tx_source_def rd_ptr_other)

lemma write_to_buf_frame:
  assumes src: "tx_source m ob p dat" "length dat \<le> 65525"
    and room: "length (isb_frame fl did off dat) \<le> unat buf_size"
      "buf + length (isb_frame fl did off dat) \<le> length (m ob)"
  shows "is_comm_write_to_buf m ob buf buf_size comm fl did (of_nat (length dat)) off p =
    Some (int (length (isb_frame fl did off dat)),
          m(ob := take buf (m ob) @ isb_frame fl did off dat @ drop (buf + length (isb_frame fl did off dat)) (m ob)),
          comm\<lparr>txPktCount := txPktCount comm + 1\<rparr>)"
proof -
  let ?n = "of_nat (length dat) :: u16" and ?pkt = "is_comm_encode_hdr packet_zero fl did (of_nat (length dat)) off p"
  let ?o = "if off \<noteq> 0 then u16_bytes off else []"
  have n: "unat ?n = length dat" using src(2) by (simp add: unsigned_of_nat take_bit_nat_eq_self)
  have sz: "unat (pkt_size ?pkt) = length (isb_frame fl did off dat)"
    using src(2) n by (simp add: encode_hdr_simps isb_hdr_def unat_word_ariths)
  let ?h = "hdr_bytes (isb_hdr fl did ?n off)" and ?ck = "is_comm_isb_checksum16 0 (isb_body fl did off dat)"
  have w1: "wr_bytes m ob buf ?h = Some (put_bytes m ob buf ?h)" using room(2)
    by (intro wr_bytes_put) (simp split: if_splits)
  have w2: "wr_bytes (put_bytes m ob buf ?h) ob (buf + 6) (u16_bytes off) = Some (put_bytes m ob buf (?h @ u16_bytes off))"
    if "off \<noteq> 0" using room(2) that by (intro wr_bytes_put_append) simp_all
  have src2: "tx_source (put_bytes m ob buf (?h @ ?o)) ob p dat"
    using src(1) room(2) by (intro tx_source_mono [OF wr_bytes_put]) auto
  have w3: "wr_bytes (put_bytes m ob buf (?h @ ?o)) ob (buf + length (?h @ ?o)) dat =
      Some (put_bytes m ob buf ((?h @ ?o) @ dat))"
    using room(2) by (intro wr_bytes_put_append) auto
  have w4: "wr_bytes (put_bytes m ob buf ((?h @ ?o) @ dat)) ob (buf + length ((?h @ ?o) @ dat)) (u16_bytes ?ck) =
      Some (put_bytes m ob buf (((?h @ ?o) @ dat) @ u16_bytes ?ck))"
    using room(2) by (intro wr_bytes_put_append) auto
  have fr: "((?h @ ?o) @ dat) @ u16_bytes ?ck = isb_frame fl did off dat"
    by (simp add: isb_frame_def isb_body_def)
  have "is_comm_write_isb_precomp_to_buffer m ob buf buf_size comm ?pkt =
    Some (uint (pkt_size ?pkt), put_bytes m ob buf (isb_frame fl did off dat),
      comm\<lparr>txPktCount := txPktCount comm + 1\<rparr>, ?pkt\<lparr>checksum := ?ck\<rparr>)"
  proof (cases "off = 0")
    case True
    then show ?thesis
      using w1 w3 w4 fr tx_data_source [OF src2, of packet_zero fl did off] src(2) room(1) sz
      by (simp add: is_comm_write_isb_precomp_to_buffer_def encode_hdr_simps(1,2) word_less_nat_alt ucast_u16_u32 add.assoc)
  next
    case False
    then show ?thesis
      using w1 w2 w3 w4 fr tx_data_source [OF src2, of packet_zero fl did off] src(2) room(1) sz
      by (simp add: is_comm_write_isb_precomp_to_buffer_def encode_hdr_simps(1,2) word_less_nat_alt ucast_u16_u32 add.assoc)
  qed
  then show ?thesis using sz by (simp add: is_comm_write_to_buf_def put_bytes_def uint_nat del: of_nat_unat)
qed


section \<open>Receiving a packet\<close>

text \<open>The instance while an Inertial Sense packet is in progress: the packet starts where the scan
  pointer of the idle instance \<open>c\<close> stands, \<open>d\<close> of its bytes are behind the scan pointer.\<close>

definition isb_run :: "is_comm_instance_t \<Rightarrow> nat \<Rightarrow> int \<Rightarrow> u16 \<Rightarrow> is_comm_instance_t" where
  "isb_run c d st sz =
     c\<lparr>rxBuf := (rxBuf c)\<lparr>rx_head := rx_scan (rxBuf c), rx_scan := rx_scan (rxBuf c) + d\<rparr>,
       parser := (parser c)\<lparr>ps_state := st, ps_size := sz\<rparr>, processPkt := Some ProcIsbPkt\<rparr>"

text \<open>The bytes from the scan pointer on are \<open>bs\<close>, all received.\<close>

definition rx_holds :: "cmem \<Rightarrow> is_comm_instance_t \<Rightarrow> u8 list \<Rightarrow> bool" where
  "rx_holds m c bs \<longleftrightarrow>
     rd_bytes m (rx_obj (rxBuf c)) (rx_scan (rxBuf c)) (length bs) = Some bs \<and>
     rx_scan (rxBuf c) + length bs \<le> rx_tail (rxBuf c)"

lemma rx_holds_nth:
  assumes "rx_holds m c bs" "i < length bs"
  shows "rx_scan (rxBuf c) + i < length (m (rx_obj (rxBuf c)))"
    "m (rx_obj (rxBuf c)) ! (rx_scan (rxBuf c) + i) = bs ! i"
    "rx_scan (rxBuf c) + i < rx_tail (rxBuf c)"
  using assms by (auto simp: rx_holds_def rd_bytes_def split: if_splits dest: arg_cong [of _ _ "\<lambda>xs. xs ! i"])

lemma isb_run_simps [simp]:
  "rx_obj (rxBuf (isb_run c d st sz)) = rx_obj (rxBuf c)"
  "rx_head (rxBuf (isb_run c d st sz)) = rx_scan (rxBuf c)"
  "rx_scan (rxBuf (isb_run c d st sz)) = rx_scan (rxBuf c) + d"
  "rx_tail (rxBuf (isb_run c d st sz)) = rx_tail (rxBuf c)"
  "processPkt (isb_run c d st sz) = Some ProcIsbPkt"
  "ps_state (parser (isb_run c d st sz)) = st" "ps_size (parser (isb_run c d st sz)) = sz"
  "scan_dist (isb_run c d st sz) = int d"
  "set_state (isb_run c d st sz) st' = isb_run c d st' sz"
  "set_size (isb_run c d st sz) sz' = isb_run c d st sz'"
  "scan_inc (isb_run c d st sz) = isb_run c (d + 1) st sz"
  by (simp_all add: isb_run_def scan_dist_def set_state_def set_size_def scan_inc_def)

lemma isb_run_reads:
  assumes "rx_holds m c bs"
  shows "i < length bs \<Longrightarrow> head_byte m (isb_run c d st sz) i = Some (bs ! i)"
    "i + 1 < length bs \<Longrightarrow> head_u16 m (isb_run c d st sz) i = Some (u16_of (bs ! i) (bs ! (i + 1)))"
    "d < length bs \<Longrightarrow> scan_byte m (isb_run c d st sz) = Some (bs ! d)"
    "n \<le> length bs \<Longrightarrow> head_bytes m (isb_run c d st sz) 0 (int n) = Some (take n bs)"
proof -
  note nth = rx_holds_nth [OF assms]
  show "i < length bs \<Longrightarrow> head_byte m (isb_run c d st sz) i = Some (bs ! i)"
    using nth by (simp add: head_byte_def rd_byte_def)
  show "i + 1 < length bs \<Longrightarrow> head_u16 m (isb_run c d st sz) i = Some (u16_of (bs ! i) (bs ! (i + 1)))"
    using nth [of i] nth [of "i + 1"] by (simp add: head_u16_def rd_u16_def rd_byte_def)
  show "d < length bs \<Longrightarrow> scan_byte m (isb_run c d st sz) = Some (bs ! d)"
    using nth by (simp add: scan_byte_def rd_byte_def)
  show "n \<le> length bs \<Longrightarrow> head_bytes m (isb_run c d st sz) 0 (int n) = Some (take n bs)"
  proof -
    let ?mem = "m (rx_obj (rxBuf c))" and ?s = "rx_scan (rxBuf c)"
    assume n: "n \<le> length bs"
    have e: "take (length bs) (drop ?s ?mem) = bs" "?s + length bs \<le> length ?mem"
      using assms by (auto simp: rx_holds_def rd_bytes_def split: if_splits)
    have "take n (drop ?s ?mem) = take n bs"
      using n e(1) by (metis min.absorb1 take_take)
    then show ?thesis using n e(2) by (simp add: head_bytes_def rd_bytes_def)
  qed
qed

lemma parse_loop_step:
  "rx_scan (rxBuf c) < rx_tail (rxBuf c) \<Longrightarrow> parse_step m c = Some (Inr c1) \<Longrightarrow> parse_loop m c = parse_loop m c1"
  by (subst parse_loop.simps) simp

lemma parse_loop_return:
  "rx_scan (rxBuf c) < rx_tail (rxBuf c) \<Longrightarrow> parse_step m c = Some (Inl r) \<Longrightarrow> parse_loop m c = Some r"
  by (subst parse_loop.simps) simp

lemma isb_wait:
  assumes h: "rx_holds m c bs" and d: "d < length bs"
    and p: "processIsbPkt m (isb_run c d st sz) = Some (PTYPE_NONE, isb_run c d st' sz')"
  shows "parse_loop m (isb_run c d st sz) = parse_loop m (isb_run c (d + 1) st' sz')"
  using rx_holds_nth(3) [OF h d] p
  by (intro parse_loop_step) (simp_all add: parse_step_def call_processPkt_def)

lemma isb_wait_body:
  assumes h: "rx_holds m c bs" and e: "e < unat sz" "e \<le> length bs"
  shows "d \<le> e \<Longrightarrow> parse_loop m (isb_run c d 3 sz) = parse_loop m (isb_run c e 3 sz)"
proof (induction rule: inc_induct)
  case (step d)
  have "parse_loop m (isb_run c d 3 sz) = parse_loop m (isb_run c (d + 1) 3 sz)"
    using step(2) e uint_less(1) [of "d + 1" sz]
    by (intro isb_wait [OF h]) (simp_all add: processIsbPkt_def Let_def)
  then show ?case using step by simp
qed simp

lemma isb_header:
  assumes h: "rx_holds m c bs" and idle: "processPkt c = None" "enabledMask c AND ENABLE_PROTOCOL_ISB \<noteq> 0"
    and b: "6 \<le> length bs" "bs ! 0 = PSC_ISB_PREAMBLE_BYTE1" "bs ! 1 = PSC_ISB_PREAMBLE_BYTE2"
    and sz: "sz = 8 + u16_of (bs ! 4) (bs ! 5)" "sz \<le> MAX_MSG_LENGTH_ISB"
  shows "parse_loop m c = parse_loop m (isb_run c 6 3 sz)"
proof -
  let ?z = "ps_size (parser c)"
  have l: "0 < length bs" "1 < length bs" "2 < length bs" "3 < length bs" "4 < length bs" "5 < length bs" using b by auto
  note rd = isb_run_reads [OF h]
  have "scan_byte m c = Some (bs ! 0)"
    using rx_holds_nth [OF h l(1)] by (simp add: scan_byte_def rd_byte_def)
  then have "parse_step m c = Some (Inr (scan_inc (setParserStart c ProcIsbPkt)))"
    using idle b(2) by (simp add: parse_step_def start_parser_def)
  moreover have "scan_inc (setParserStart c ProcIsbPkt) = isb_run c 1 1 ?z"
    by (simp add: scan_inc_def setParserStart_def isb_run_def)
  ultimately have "parse_loop m c = parse_loop m (isb_run c 1 1 ?z)"
    using rx_holds_nth(3) [OF h l(1)] by (intro parse_loop_step) simp_all
  also have "\<dots> = parse_loop m (isb_run c (1 + 1) 2 ?z)"
    using l b(3) rd(3) by (intro isb_wait [OF h]) (simp_all add: processIsbPkt_def)
  also have "\<dots> = parse_loop m (isb_run c (2 + 1) 2 ?z)"
    unfolding one_add_one using l by (intro isb_wait [OF h]) (simp_all add: processIsbPkt_def)
  also have "\<dots> = parse_loop m (isb_run c (2 + 1 + 1) 2 ?z)"
    using l by (intro isb_wait [OF h]) (simp_all add: processIsbPkt_def)
  also have "\<dots> = parse_loop m (isb_run c (2 + 1 + 1 + 1) 2 ?z)"
    using l by (intro isb_wait [OF h]) (simp_all add: processIsbPkt_def)
  also have "\<dots> = parse_loop m (isb_run c (2 + 1 + 1 + 1 + 1) 3 sz)"
    using l b rd(2) [of 4] sz leD [OF sz(2)] by (intro isb_wait [OF h]) (simp_all add: processIsbPkt_def Let_def)
  finally show ?thesis by simp
qed


text \<open>A packet in general: a header whose size is that of its payload, the payload and a valid
  checksum.\<close>

definition isb_packet :: "packet_hdr_t \<Rightarrow> u8 list \<Rightarrow> u8 list" where
  "isb_packet h pl = (hdr_bytes h @ pl) @ u16_bytes (is_comm_isb_checksum16 0 (hdr_bytes h @ pl))"

lemma isb_packet_nth:
  assumes "preamble h = PSC_ISB_PREAMBLE"
  shows "isb_packet h pl ! 0 = PSC_ISB_PREAMBLE_BYTE1" "isb_packet h pl ! 1 = PSC_ISB_PREAMBLE_BYTE2"
    "isb_packet h pl ! 2 = flags h" "isb_packet h pl ! 3 = hdr_id h"
    "u16_of (isb_packet h pl ! 4) (isb_packet h pl ! 5) = payloadSize h"
    "i < length pl \<Longrightarrow> isb_packet h pl ! (6 + i) = pl ! i"
    "u16_of (isb_packet h pl ! (6 + length pl)) (isb_packet h pl ! (6 + length pl + 1)) =
       is_comm_isb_checksum16 0 (hdr_bytes h @ pl)"
    "length (isb_packet h pl) = length pl + 8"
    "take (length pl + 6) (isb_packet h pl) = hdr_bytes h @ pl"
proof -
  have pre: "lo8 (preamble h) = 0xEF" "hi8 (preamble h) = 0x49" using assms by (simp_all add: lo8_def hi8_def)
  show "isb_packet h pl ! 0 = PSC_ISB_PREAMBLE_BYTE1" "isb_packet h pl ! 1 = PSC_ISB_PREAMBLE_BYTE2"
    "isb_packet h pl ! 2 = flags h" "isb_packet h pl ! 3 = hdr_id h"
    "u16_of (isb_packet h pl ! 4) (isb_packet h pl ! 5) = payloadSize h"
    "i < length pl \<Longrightarrow> isb_packet h pl ! (6 + i) = pl ! i"
    "u16_of (isb_packet h pl ! (6 + length pl)) (isb_packet h pl ! (6 + length pl + 1)) =
       is_comm_isb_checksum16 0 (hdr_bytes h @ pl)"
    by (simp_all add: isb_packet_def hdr_bytes_def u16_bytes_def nth_append pre)
  show "length (isb_packet h pl) = length pl + 8" "take (length pl + 6) (isb_packet h pl) = hdr_bytes h @ pl"
    by (simp_all add: isb_packet_def)
qed

lemma unat_u16: "n < 65536 \<Longrightarrow> unat (of_nat n :: u16) = n"
  by (simp add: unsigned_of_nat take_bit_nat_eq_self)

lemma unat_u32: "n < 4294967296 \<Longrightarrow> unat (of_nat n :: u32) = n"
  by (simp add: unsigned_of_nat take_bit_nat_eq_self)

lemma isb_finish_packet:
  assumes h: "rx_holds m c (isb_packet h pl)" and p: "preamble h = PSC_ISB_PREAMBLE" "payloadSize h = of_nat (length pl)"
    and l: "length pl \<le> 2040"
  defines "r \<equiv> isb_run c (length pl + 7) 0 (of_nat (length pl + 8))"
  shows "isb_finish m r (int (length pl) + 8) =
    do { pkt \<leftarrow> isb_populate m r (payloadSize h) (is_comm_isb_checksum16 0 (hdr_bytes h @ pl));
         isb_classify (\<lambda>_. head_u16 m r 8) ((validPacketReset r (int (length pl) + 8))\<lparr>rxPkt := pkt, ackNeeded := 0\<rparr>) }"
proof -
  note nth = isb_packet_nth [OF p(1), where pl = pl]
  note rd = isb_run_reads [OF h, where d = "length pl + 7" and st = 0 and sz = "of_nat (length pl + 8)", folded r_def]
  have n: "unat (payloadSize h) = length pl" using l by (simp add: p(2) unsigned_of_nat take_bit_nat_eq_self)
  have e: "uint (ps_size (parser r)) - 2 = int (length pl + 6)"
    using l unat_u16 [of "length pl + 8"] uint_nat [of "of_nat (length pl + 8) :: u16"] by (simp add: r_def)
  have "head_bytes m r 0 (uint (ps_size (parser r)) - 2) = Some (hdr_bytes h @ pl)"
    unfolding e using rd(4) [of "length pl + 6"] nth(8,9) by simp
  moreover have "head_u16 m r 4 = Some (payloadSize h)" using rd(2) [of 4] nth by simp
  moreover have "head_u16 m r (6 + length pl) = Some (is_comm_isb_checksum16 0 (hdr_bytes h @ pl))"
    using rd(2) [of "6 + length pl"] nth by simp
  ultimately show ?thesis by (simp add: isb_finish_def n)
qed

lemma isb_packet_received:
  assumes h: "rx_holds m c (isb_packet h pl)" and p: "preamble h = PSC_ISB_PREAMBLE" "payloadSize h = of_nat (length pl)"
    and l: "length pl \<le> 2040" and idle: "processPkt c = None" "enabledMask c AND ENABLE_PROTOCOL_ISB \<noteq> 0"
    and f: "isb_finish m (isb_run c (length pl + 7) 0 (of_nat (length pl + 8))) (int (length pl) + 8) = Some (pt, c')"
      "pt \<noteq> PTYPE_NONE"
  shows "is_comm_parse m c = Some (pt, scan_inc c')"
proof -
  note nth = isb_packet_nth [OF p(1), where pl = pl]
  let ?sz = "of_nat (length pl + 8) :: u16" and ?d = "length pl + 7"
  have sz: "?sz = 8 + u16_of (isb_packet h pl ! 4) (isb_packet h pl ! 5)" using nth(5) p(2) by simp
  have usz: "unat ?sz = length pl + 8" using l by (intro unat_u16) simp
  then have le: "?sz \<le> 2048" using l by (simp add: word_le_nat_alt)
  have "parse_loop m c = parse_loop m (isb_run c 6 3 ?sz)"
    using nth by (intro isb_header [OF h idle _ _ _ sz le]) auto
  also have "\<dots> = parse_loop m (isb_run c ?d 3 ?sz)"
    using usz nth(8) by (intro isb_wait_body [OF h]) auto
  also have "\<dots> = Some (pt, scan_inc c')"
  proof (rule parse_loop_return)
    show "rx_scan (rxBuf (isb_run c ?d 3 ?sz)) < rx_tail (rxBuf (isb_run c ?d 3 ?sz))"
      using rx_holds_nth(3) [OF h, of ?d] nth(8) by simp
    have "uint ?sz = int (length pl) + 8" using usz by (metis of_nat_add of_nat_numeral of_nat_unat)
    then have "processIsbPkt m (isb_run c ?d 3 ?sz) = Some (pt, c')"
      using f(1) by (simp add: processIsbPkt_def Let_def add.commute)
    then show "parse_step m (isb_run c ?d 3 ?sz) = Some (Inl (pt, scan_inc c'))"
      using f(2) by (simp add: parse_step_def call_processPkt_def)
  qed
  finally show ?thesis using idle(1) f(2) by (simp add: is_comm_parse_def is_comm_parse_timeout_def Let_def)
qed


lemma isb_frame_packet:
  "isb_frame fl did off dat =
     isb_packet (isb_hdr fl did (of_nat (length dat)) off) ((if off \<noteq> 0 then u16_bytes off else []) @ dat)"
  by (simp add: isb_frame_def isb_body_def isb_packet_def)

text \<open>What the receiver has after a data packet.\<close>

definition data_received ::
  "cmem \<Rightarrow> is_comm_instance_t \<Rightarrow> is_comm_instance_t \<Rightarrow> u8 \<Rightarrow> u16 \<Rightarrow> u16 \<Rightarrow> u8 list \<Rightarrow> bool" where
  "data_received m c c' fl did off dat \<longleftrightarrow>
     hdr_id (hdr (rxPkt c')) = ucast did \<and> pkt_id (rxPkt c') = ucast (ucast did :: u8) \<and>
     pkt_offset (rxPkt c') = off \<and> dsize (pdata (rxPkt c')) = of_nat (length dat) \<and>
     (dat \<noteq> [] \<longrightarrow> rd_ptr m (dptr (pdata (rxPkt c'))) (length dat) = Some dat) \<and>
     (dat \<noteq> [] \<longrightarrow> dptr (pdata (rxPkt c')) =
        Ptr (rx_obj (rxBuf c)) (rx_scan (rxBuf c) + 6 + (if off \<noteq> 0 then 2 else 0))) \<and>
     is_comm_to_isb_pkt_type c' = fl AND PKT_TYPE_MASK \<and> payloadSize (hdr (rxPkt c')) = of_nat (length dat) \<and>
     rxBuf c' = (rxBuf c)\<lparr>rx_head := rx_scan (rxBuf c) + length (isb_frame fl did off dat),
                          rx_scan := rx_scan (rxBuf c) + length (isb_frame fl did off dat)\<rparr> \<and>
     processPkt c' = None \<and> \<not> rxErrorState c' \<and> rxPktCount c' = rxPktCount c + 1 \<and>
     txPktCount c' = txPktCount c \<and> enabledMask c' = enabledMask c \<and>
     ackNeeded c' = (if fl AND PKT_TYPE_MASK = PKT_TYPE_SET_DATA then 1 else 0)"

lemma data_ptr_read:
  assumes "rx_holds m c (xs @ dat @ ys)"
  shows "rd_bytes m (rx_obj (rxBuf c)) (rx_scan (rxBuf c) + length xs) (length dat) = Some dat"
proof -
  let ?mem = "m (rx_obj (rxBuf c))" and ?s = "rx_scan (rxBuf c)"
  have b: "?s + length (xs @ dat @ ys) \<le> length ?mem"
    using assms by (auto simp: rx_holds_def rd_bytes_def split: if_splits)
  have "?mem ! (?s + length xs + i) = dat ! i" if "i < length dat" for i
    using rx_holds_nth(2) [OF assms, of "length xs + i"] that by (simp add: nth_append add.assoc)
  then have "take (length dat) (drop (?s + length xs) ?mem) = dat"
    using b by (intro nth_equalityI) auto
  then show ?thesis using b by (simp add: rd_bytes_def)
qed

lemma isb_classify_data:
  assumes "flags (hdr (rxPkt d)) AND PKT_TYPE_MASK = PKT_TYPE_DATA \<or>
      flags (hdr (rxPkt d)) AND PKT_TYPE_MASK = PKT_TYPE_SET_DATA" "dsize (pdata (rxPkt d)) \<le> 1024"
  shows "isb_classify g d = Some (PTYPE_INERTIAL_SENSE_DATA,
    if flags (hdr (rxPkt d)) AND PKT_TYPE_MASK = PKT_TYPE_SET_DATA then d\<lparr>ackNeeded := 1\<rparr> else d)"
  using assms by (auto simp: isb_classify_def Let_def)

lemma isb_populate_data:
  assumes rd: "head_u16 m r 0 = Some v" "head_byte m r 2 = Some f" "head_byte m r 3 = Some i"
    "off \<noteq> 0 \<Longrightarrow> head_u16 m r 6 = Some off"
    and n: "n \<le> 1024" "ps = of_nat (n + (if off \<noteq> 0 then 2 else 0))" "(f AND ISB_FLAGS_PAYLOAD_W_OFFSET = 0) = (off = 0)"
  shows "\<exists>pkt. isb_populate m r ps ck = Some pkt \<and> flags (hdr pkt) = f \<and> hdr_id (hdr pkt) = i \<and>
    pkt_id pkt = ucast i \<and> pkt_offset pkt = off \<and> dsize (pdata pkt) = of_nat n \<and> payloadSize (hdr pkt) = of_nat n \<and>
    dptr (pdata pkt) = (if n = 0 then Null
      else Ptr (rx_obj (rxBuf r)) (rx_head (rxBuf r) + 6 + (if off \<noteq> 0 then 2 else 0)))"
proof -
  have k: "n + (if off \<noteq> 0 then 2 else 0) < 65536" using n(1) by simp
  have ups: "unat ps = n + (if off \<noteq> 0 then 2 else 0)" unfolding n(2) by (rule unat_u16 [OF k])
  have zn: "(of_nat n :: u32) = 0 \<longleftrightarrow> n = 0"
    using n(1) unat_u32 [of n] unat_eq_zero [of "of_nat n :: u32"] by simp
  show ?thesis
  proof (cases "off = 0")
    case True
    have e: "ucast ps = (of_nat n :: u32)"
      by (rule word_unat_eq_iff [THEN iffD2]) (use n(1) ups True in \<open>simp add: ucast_u16_u32 unat_u32\<close>)
    have z: "ps = 0 \<longleftrightarrow> n = 0" using ups True by (metis add_0_right unat_eq_zero)
    show ?thesis using rd n(2,3) True e z by (simp add: isb_populate_def Let_def)
  next
    case False
    have ge: "\<not> ps < 2" using ups False by (simp add: word_less_nat_alt)
    have e: "ucast ps - 2 = (of_nat n :: u32)"
    proof -
      have "ucast ps = (of_nat n + 2 :: u32)"
        by (rule word_unat_eq_iff [THEN iffD2]) (use n(1) ups False unat_u32 [of "n + 2"] in \<open>simp add: ucast_u16_u32 add.commute\<close>)
      then show ?thesis by simp
    qed
    have "ucast (of_nat n :: u32) = (of_nat n :: u16)" using n(1) by (simp add: unsigned_of_nat take_bit_nat_eq_self)
    then show ?thesis using rd n(3) False e ge zn by (simp add: isb_populate_def Let_def)
  qed
qed

lemma isb_data_finish:
  assumes h: "rx_holds m c (isb_frame fl did off dat)"
    and fl: "fl AND PKT_TYPE_MASK = PKT_TYPE_DATA \<or> fl AND PKT_TYPE_MASK = PKT_TYPE_SET_DATA"
      "fl AND ISB_FLAGS_PAYLOAD_W_OFFSET = 0"
    and l: "length dat \<le> 1024"
  defines "pl \<equiv> (if off \<noteq> 0 then u16_bytes off else []) @ dat"
  shows "\<exists>c'. isb_finish m (isb_run c (length pl + 7) 0 (of_nat (length pl + 8))) (int (length pl) + 8) =
     Some (PTYPE_INERTIAL_SENSE_DATA, c') \<and> data_received m c (scan_inc c') fl did off dat"
proof -
  let ?h = "isb_hdr fl did (of_nat (length dat)) off" and ?r = "isb_run c (length pl + 7) 0 (of_nat (length pl + 8))"
  have h': "rx_holds m c (isb_packet ?h pl)" using h by (simp add: isb_frame_packet pl_def)
  have p: "preamble ?h = PSC_ISB_PREAMBLE" "payloadSize ?h = of_nat (length pl)" "length pl \<le> 2040"
    using l by (simp_all add: isb_hdr_def pl_def)
  have ty: "flags ?h AND PKT_TYPE_MASK = fl AND PKT_TYPE_MASK"
    by (simp add: isb_hdr_def bit.conj_disj_distrib2)
  have of': "(flags ?h AND ISB_FLAGS_PAYLOAD_W_OFFSET = 0) = (off = 0)"
    using fl(2) by (simp add: isb_hdr_def bit.conj_disj_distrib2)
  have dl: "of_nat (length dat) \<le> (1024 :: u32)" using l by (simp add: word_le_nat_alt unsigned_of_nat take_bit_nat_eq_self)
  note nth = isb_packet_nth [OF p(1), where pl = pl]
  note rd = isb_run_reads [OF h', where d = "length pl + 7" and st = 0 and sz = "of_nat (length pl + 8)"]
  note fin = isb_finish_packet [OF h' p]
  have reads: "\<exists>v. head_u16 m ?r 0 = Some v" "head_byte m ?r 2 = Some (flags ?h)" "head_byte m ?r 3 = Some (ucast did)"
    using rd(1) [of 2] rd(1) [of 3] rd(2) [of 0] nth by (simp_all add: isb_hdr_def)
  obtain v where v: "head_u16 m ?r 0 = Some v" using reads(1) by blast
  have ro: "head_u16 m ?r 6 = Some off" if "off \<noteq> 0"
    using rd(2) [of 6] nth(6) [of 0] nth(6) [of 1] nth(8) that by (simp add: pl_def u16_bytes_def)
  have ps: "payloadSize ?h = of_nat (length dat + (if off \<noteq> 0 then 2 else 0))" using p(2) by (simp add: pl_def)
  obtain pkt where pkt: "isb_populate m ?r (payloadSize ?h) (is_comm_isb_checksum16 0 (hdr_bytes ?h @ pl)) = Some pkt"
    "flags (hdr pkt) = flags ?h" "hdr_id (hdr pkt) = ucast did" "pkt_id pkt = ucast (ucast did :: u8)" "pkt_offset pkt = off"
    "dsize (pdata pkt) = of_nat (length dat)" "payloadSize (hdr pkt) = of_nat (length dat)"
    "dptr (pdata pkt) = (if length dat = 0 then Null
      else Ptr (rx_obj (rxBuf c)) (rx_scan (rxBuf c) + 6 + (if off \<noteq> 0 then 2 else 0)))"
    using isb_populate_data [OF v reads(2,3) ro l ps of'] unfolding isb_run_simps by blast
  define d where "d = (validPacketReset ?r (int (length pl) + 8))\<lparr>rxPkt := pkt, ackNeeded := 0\<rparr>"
  define c' where "c' = (if fl AND PKT_TYPE_MASK = PKT_TYPE_SET_DATA then d\<lparr>ackNeeded := 1\<rparr> else d)"
  have "isb_finish m ?r (int (length pl) + 8) = Some (PTYPE_INERTIAL_SENSE_DATA, c')"
    using fin pkt(1) isb_classify_data [of d] fl(1) ty pkt(2,6) dl by (simp add: d_def c'_def)
  moreover have "dat \<noteq> [] \<Longrightarrow> rd_ptr m (dptr (pdata pkt)) (length dat) = Some dat"
    using data_ptr_read [of m c "hdr_bytes ?h @ (if off \<noteq> 0 then u16_bytes off else [])" dat] h' pkt(8)
    by (auto simp: rd_ptr_def isb_packet_def pl_def add.assoc split: if_splits)
  moreover have "nat (int (rx_scan (rxBuf c)) + (int (length pl) + 8)) = rx_scan (rxBuf c) + length pl + 8" by simp
  moreover have "rxPkt c' = pkt" "rxBuf c' = rxBuf d" "processPkt c' = None" "\<not> rxErrorState c'" "rxPktCount c' = rxPktCount c + 1"
    "txPktCount c' = txPktCount c" "enabledMask c' = enabledMask c"
    "ackNeeded c' = (if fl AND PKT_TYPE_MASK = PKT_TYPE_SET_DATA then 1 else 0)"
    by (simp_all add: c'_def d_def validPacketReset_def isb_run_def)
  moreover have "length (isb_frame fl did off dat) = length pl + 8" by (simp add: pl_def)
  ultimately show ?thesis using pkt(2-8) ty
    by (simp add: data_received_def d_def validPacketReset_def scan_inc_def is_comm_to_isb_pkt_type_def isb_run_def)
qed


section \<open>Writing to a port\<close>

definition tx_pieces :: "u8 \<Rightarrow> u16 \<Rightarrow> u16 \<Rightarrow> u8 list \<Rightarrow> u8 list list" where
  "tx_pieces fl did off dat =
     [hdr_bytes (isb_hdr fl did (of_nat (length dat)) off)] @
     (if off \<noteq> 0 then [u16_bytes off] else []) @ (if dat \<noteq> [] then [dat] else []) @
     [u16_bytes (is_comm_isb_checksum16 0 (isb_body fl did off dat))]"

fun run_writes :: "'s port_write \<Rightarrow> nat \<Rightarrow> u8 list list \<Rightarrow> int \<times> 's \<Rightarrow> int \<times> 's" where
  "run_writes w port [] r = r"
| "run_writes w port (bs # bss) (n, s) =
     (let (k, s') = w port bs s in run_writes w port bss (n + k, s'))"

lemma concat_tx_pieces: "concat (tx_pieces fl did off dat) = isb_frame fl did off dat"
  by (simp add: tx_pieces_def isb_frame_def isb_body_def)

lemma write_to_port_pieces:
  assumes src: "tx_source m ob p dat" "length dat \<le> 65525"
  shows "is_comm_write (Some w) port m comm fl did (of_nat (length dat)) off p s =
    (let (n, s') = run_writes w port (tx_pieces fl did off dat) (0, s)
     in Some (if n = int (length (isb_frame fl did off dat)) then n else - 1,
              comm\<lparr>txPktCount := txPktCount comm + 1\<rparr>, s'))"
proof -
  let ?n = "of_nat (length dat) :: u16" and ?pkt = "is_comm_encode_hdr packet_zero fl did (of_nat (length dat)) off p"
  have n: "unat ?n = length dat" using src(2) by (intro unat_u16) simp
  have z: "?n = 0 \<longleftrightarrow> dat = []" using n by (metis length_0_conv unat_eq_zero)
  have "unat (pkt_size ?pkt) = length (isb_frame fl did off dat)"
    using src(2) n by (simp add: encode_hdr_simps isb_hdr_def unat_word_ariths)
  then have sz: "uint (pkt_size ?pkt) = int (length (isb_frame fl did off dat))"
    using uint_less(3) by blast
  show ?thesis
    unfolding is_comm_write_def is_comm_write_pkt_def is_comm_write_isb_precomp_to_port_def option.case sz
    using src tx_data_source [OF src(1), of packet_zero fl did off]
    by (auto simp: Let_def encode_hdr_simps ucast_u16_u32 z tx_pieces_def add.assoc split: prod.splits)
qed

section \<open>Assembling a structure from pieces\<close>

text \<open>What the callers of the copies into a structure rely on.\<close>

locale struct_writer =
  fixes wr :: "cmem \<Rightarrow> cptr \<Rightarrow> p_data_hdr_t \<Rightarrow> cptr \<Rightarrow> u32 \<Rightarrow> (int \<times> cmem) option"
  assumes law: "wr m sptr h src maxsize =
    (if unat (d_size h) + unat (d_offset h) \<le> unat maxsize
     then map_option (\<lambda>m'. (0, m')) (memcpy m (ptr_add sptr (unat (d_offset h))) src (unat (d_size h)))
     else Some (- 1, m))"
begin

lemma rejected: "unat maxsize < unat (d_size h) + unat (d_offset h) \<Longrightarrow> wr m sptr h src maxsize = Some (- 1, m)"
  by (simp add: law)

lemma copied:
  assumes "unat (d_size h) + unat (d_offset h) \<le> unat maxsize" "i + unat maxsize \<le> length (m ob)"
    "rd_bytes m os j (unat (d_size h)) = Some bs"
  shows "wr m (Ptr ob i) h (Ptr os j) maxsize = Some (0, put_bytes m ob (i + unat (d_offset h)) bs)"
proof (cases "d_size h = 0")
  case True
  then have "bs = []" using assms(3) rd_bytes_length by fastforce
  then show ?thesis using True assms(1) by (simp add: law memcpy_def put_bytes_def)
next
  case False
  have l: "length bs = unat (d_size h)" using rd_bytes_length [OF assms(3)] .
  have "wr_bytes m ob (i + unat (d_offset h)) bs = Some (put_bytes m ob (i + unat (d_offset h)) bs)"
    using assms(1,2) l by (intro wr_bytes_put) simp
  then show ?thesis using False assms(1,3) by (simp add: law memcpy_def ptr_add_def unat_eq_zero)
qed

lemma pieces:
  assumes sz: "unat (d_size h1) = length xs" "unat (d_size h2) = length ys"
      "unat (d_offset h2) = unat (d_offset h1) + length xs"
    and fit: "unat (d_offset h2) + length ys \<le> unat maxsize" "i + unat maxsize \<le> length (m ob)"
    and src: "rd_bytes m os j (length xs) = Some xs" "rd_bytes m os k (length ys) = Some ys" "os \<noteq> ob"
  shows "\<exists>m1. wr m (Ptr ob i) h1 (Ptr os j) maxsize = Some (0, m1) \<and>
     wr m1 (Ptr ob i) h2 (Ptr os k) maxsize = Some (0, put_bytes m ob (i + unat (d_offset h1)) (xs @ ys))"
proof -
  let ?m1 = "put_bytes m ob (i + unat (d_offset h1)) xs"
  have 1: "wr m (Ptr ob i) h1 (Ptr os j) maxsize = Some (0, ?m1)"
    using sz fit src by (intro copied) auto
  have len: "i + unat maxsize \<le> length (?m1 ob)"
    using fit sz put_bytes_length [of "i + unat (d_offset h1)" xs m ob ob] by simp
  have "rd_bytes ?m1 os k (unat (d_size h2)) = Some ys" using src(2,3) sz(2)
    by (auto simp: rd_bytes_def put_bytes_def split: if_splits)
  then have "wr ?m1 (Ptr ob i) h2 (Ptr os k) maxsize = Some (0, put_bytes ?m1 ob (i + unat (d_offset h2)) ys)"
    using sz fit len by (intro copied) auto
  also have "put_bytes ?m1 ob (i + unat (d_offset h2)) ys = put_bytes m ob (i + unat (d_offset h1)) (xs @ ys)"
    using wr_bytes_put_append [of "i + unat (d_offset h2)" "i + unat (d_offset h1)" xs ys m ob] sz fit
      wr_bytes_put [of "i + unat (d_offset h2)" ys ?m1 ob] len by simp
  finally show ?thesis using 1 by blast
qed

end

lemma hdr_end_le: "hdr_end h \<le> maxsize \<longleftrightarrow> unat (d_size h) + unat (d_offset h) \<le> unat maxsize"
proof -
  have "unat (d_size h) < 2 ^ LENGTH(16)" "unat (d_offset h) < 2 ^ LENGTH(16)" by (rule unsigned_less)+
  then have "unat (hdr_end h) = unat (d_size h) + unat (d_offset h)"
    by (simp add: hdr_end_def unat_word_ariths ucast_u16_u32)
  then show ?thesis by (simp add: word_le_nat_alt)
qed

lemma bind_Some_pair: "do { m' \<leftarrow> x; Some (0 :: int, m') } = map_option (\<lambda>m'. (0, m')) x"
  by (cases x) auto

interpretation p2: struct_writer copyDataPToStructP2
  by unfold_locales (simp add: copyDataPToStructP2_def hdr_end_le bind_Some_pair)

interpretation pbuf: struct_writer copyDataBufPToStructP
  by unfold_locales (simp add: copyDataBufPToStructP_def hdr_end_le bind_Some_pair)

interpretation pdat: struct_writer "\<lambda>m sptr h src. copyDataPToStructP m sptr \<lparr>d_hdr = h, d_ptr = src\<rparr>"
  by unfold_locales (simp add: copyDataPToStructP_def hdr_end_le bind_Some_pair)

section \<open>Properties\<close>

text \<open>C3: the flagship round trip of the protocol. When \<^verbatim>\<open>is_comm_write_to_buf\<close> writes a data or
  set-data packet of up to 1024 bytes and an idle receiver that has Inertial Sense packets
  enabled holds the bytes written at its scan pointer, \<^verbatim>\<open>is_comm_parse\<close> returns
  \<^verbatim>\<open>_PTYPE_INERTIAL_SENSE_DATA\<close> with the identifier (its low byte), the offset, the size and the
  very bytes of the sender, consumes exactly the packet, leaves the rest of the buffer to the next
  call, counts the packet, and asks for an acknowledgement exactly for set-data.\<close>

theorem isb_roundtrip:
  assumes src: "tx_source m ob p dat" "length dat \<le> 1024"
    and room: "length dat + 10 \<le> unat buf_size" "buf + length dat + 10 \<le> length (m ob)"
    and fl: "fl AND PKT_TYPE_MASK = PKT_TYPE_DATA \<or> fl AND PKT_TYPE_MASK = PKT_TYPE_SET_DATA"
      "fl AND ISB_FLAGS_PAYLOAD_W_OFFSET = 0"
    and sent: "is_comm_write_to_buf m ob buf buf_size comm fl did (of_nat (length dat)) off p = Some (n, m1, comm1)"
    and wire: "rx_holds mr c (take (nat n) (drop buf (m1 ob)))"
    and idle: "processPkt c = None" "enabledMask c AND ENABLE_PROTOCOL_ISB \<noteq> 0"
  shows "\<exists>c'. is_comm_parse mr c = Some (PTYPE_INERTIAL_SENSE_DATA, c') \<and> data_received mr c c' fl did off dat"
proof -
  let ?f = "isb_frame fl did off dat" and ?pl = "(if off \<noteq> 0 then u16_bytes off else []) @ dat"
  have "is_comm_write_to_buf m ob buf buf_size comm fl did (of_nat (length dat)) off p =
    Some (int (length ?f), m(ob := take buf (m ob) @ ?f @ drop (buf + length ?f) (m ob)),
          comm\<lparr>txPktCount := txPktCount comm + 1\<rparr>)"
    using src room by (intro write_to_buf_frame) auto
  then have "take (nat n) (drop buf (m1 ob)) = ?f" using sent room(2) by auto
  then have h: "rx_holds mr c ?f" using wire by simp
  from isb_data_finish [OF h fl src(2)] obtain c' where
    "isb_finish mr (isb_run c (length ?pl + 7) 0 (of_nat (length ?pl + 8))) (int (length ?pl) + 8) =
      Some (PTYPE_INERTIAL_SENSE_DATA, c')" "data_received mr c (scan_inc c') fl did off dat" by blast
  moreover have "rx_holds mr c (isb_packet (isb_hdr fl did (of_nat (length dat)) off) ?pl)"
    using h by (simp add: isb_frame_packet)
  ultimately show ?thesis
    using isb_packet_received [of mr c "isb_hdr fl did (of_nat (length dat)) off" ?pl] src(2) idle
    by (auto simp: isb_hdr_def)
qed

lemma isb_roundtrip_witness:
  "\<exists>c'. is_comm_parse (\<lambda>_. isb_frame 5 9 2 [7]) (demo_comm\<lparr>rxBuf := (rxBuf demo_comm)\<lparr>rx_end := 11, rx_tail := 11\<rparr>\<rparr>) =
     Some (PTYPE_INERTIAL_SENSE_DATA, c') \<and> hdr_id (hdr (rxPkt c')) = 9 \<and> pkt_offset (rxPkt c') = 2 \<and>
     ackNeeded c' = 1"
proof -
  let ?m = "(\<lambda>_. [])(0 := replicate 11 0, 1 := [7]) :: cmem"
  let ?c = "demo_comm\<lparr>rxBuf := (rxBuf demo_comm)\<lparr>rx_end := 11, rx_tail := 11\<rparr>\<rparr>"
  let ?f = "isb_frame 5 9 2 [7]"
  have s: "tx_source ?m 0 (Ptr 1 0) [7]" by (simp add: tx_source_def rd_ptr_def rd_bytes_def)
  have w: "is_comm_write_to_buf ?m 0 0 11 demo_comm 5 9 (of_nat (length [7 :: u8])) 2 (Ptr 1 0) =
     Some (int (length ?f), ?m(0 := ?f), demo_comm\<lparr>txPktCount := txPktCount demo_comm + 1\<rparr>)"
    using write_to_buf_frame [OF s, of 5 9 2 11 0] by simp
  have r: "rx_holds (\<lambda>_. ?f) ?c (take (nat (int (length ?f))) (drop 0 ((?m(0 := ?f)) 0)))"
    by (simp add: rx_holds_def rd_bytes_def demo_comm_def)
  have i: "processPkt ?c = None" "enabledMask ?c AND ENABLE_PROTOCOL_ISB \<noteq> 0"
    by (simp_all add: demo_comm_def default_mask_def)
  have "\<exists>c'. is_comm_parse (\<lambda>_. ?f) ?c = Some (PTYPE_INERTIAL_SENSE_DATA, c') \<and> data_received (\<lambda>_. ?f) ?c c' 5 9 2 [7]"
    by (rule isb_roundtrip [OF s _ _ _ _ _ w r i]) simp_all
  then show ?thesis by (auto simp: data_received_def)
qed

text \<open>C17: the bytes on the wire. \<^verbatim>\<open>is_comm_write_to_buf\<close> with room for the packet writes the header,
  the offset if it is not zero, the data and the Fletcher checksum of all of them, leaves every
  other byte of the memory alone, counts one packet and returns the number of bytes written.\<close>

theorem is_comm_write_to_buf_bytes:
  assumes "tx_source m ob p dat" "length dat \<le> 65525"
    "length (isb_frame fl did off dat) \<le> unat buf_size"
    "buf + length (isb_frame fl did off dat) \<le> length (m ob)"
  shows "is_comm_write_to_buf m ob buf buf_size comm fl did (of_nat (length dat)) off p =
    Some (int (length (isb_frame fl did off dat)),
          m(ob := take buf (m ob) @ isb_frame fl did off dat @ drop (buf + length (isb_frame fl did off dat)) (m ob)),
          comm\<lparr>txPktCount := txPktCount comm + 1\<rparr>)"
  by (rule write_to_buf_frame [OF assms])

lemma is_comm_write_to_buf_bytes_witness:
  "is_comm_write_to_buf ((\<lambda>_. [])(0 := replicate 9 0, 1 := [7])) 0 0 9 demo_comm 4 9 1 0 (Ptr 1 0) =
    Some (9, (\<lambda>_. [])(0 := isb_frame 4 9 0 [7], 1 := [7]), demo_comm\<lparr>txPktCount := txPktCount demo_comm + 1\<rparr>)"
  using is_comm_write_to_buf_bytes [of "(\<lambda>_. [])(0 := replicate 9 0, 1 := [7])" 0 "Ptr 1 0" "[7]" 4 9 0 9 0 demo_comm]
  by (simp add: tx_source_def rd_ptr_def rd_bytes_def fun_upd_twist)

text \<open>C27: a header with payload size 65528 makes the 16-bit packet length wrap to zero. It passes
  the length check, the packet counts as complete at its seventh byte, and the checksum is
  then taken over a negative number of bytes: the read leaves the buffer, whatever the other
  header bytes and wherever the buffer ends.\<close>

theorem isb_length_wrap_faults:
  assumes h: "rx_holds m c [0xEF, 0x49, f, i, 0xF8, 0xFF, b]"
    and idle: "processPkt c = None" "enabledMask c AND ENABLE_PROTOCOL_ISB \<noteq> 0"
  shows "parse_step m (isb_run c 6 3 0) = None \<and> parse_loop m c = parse_loop m (isb_run c 6 3 0)"
proof
  show "parse_loop m c = parse_loop m (isb_run c 6 3 0)"
    by (rule isb_header [OF h idle]) (simp_all add: u16_of_def)
  have "head_bytes m (isb_run c 6 0 0) 0 (- 2) = None" by (simp add: head_bytes_def)
  then show "parse_step m (isb_run c 6 3 0) = None"
    using isb_run_reads(2) [OF h, of 4 6 0 0]
    by (simp add: parse_step_def call_processPkt_def processIsbPkt_def Let_def isb_finish_def)
qed

lemma isb_length_wrap_faults_witness:
  "parse_step (\<lambda>_. [0xEF, 0x49, 4, 1, 0xF8, 0xFF, 0])
     (isb_run (demo_comm\<lparr>rxBuf := (rxBuf demo_comm)\<lparr>rx_end := 7, rx_tail := 7\<rparr>\<rparr>) 6 3 0) = None"
  using isb_length_wrap_faults [of "\<lambda>_. [0xEF, 0x49, 4, 1, 0xF8, 0xFF, 0]"
      "demo_comm\<lparr>rxBuf := (rxBuf demo_comm)\<lparr>rx_end := 7, rx_tail := 7\<rparr>\<rparr>" 4 1 0]
  by (simp add: rx_holds_def rd_bytes_def demo_comm_def default_mask_def)

text \<open>Writing to a port. Whatever the port's write function does, \<^verbatim>\<open>is_comm_write\<close> hands it the
  pieces of the packet in order, whose concatenation is the packet \<^verbatim>\<open>is_comm_write_to_buf\<close> builds,
  and returns the packet size when the function accounts for exactly that many bytes and -1
  otherwise; the transmit counter moves in both cases.\<close>

theorem is_comm_write_pieces:
  assumes "tx_source m ob p dat" "length dat \<le> 65525"
  shows "is_comm_write (Some w) port m comm fl did (of_nat (length dat)) off p s =
    (let (n, s') = run_writes w port (tx_pieces fl did off dat) (0, s)
     in Some (if n = int (length (isb_frame fl did off dat)) then n else - 1,
              comm\<lparr>txPktCount := txPktCount comm + 1\<rparr>, s')) \<and>
    concat (tx_pieces fl did off dat) = isb_frame fl did off dat"
  by (rule conjI [OF write_to_port_pieces [OF assms] concat_tx_pieces])

lemma is_comm_write_pieces_witness:
  "is_comm_write (Some (\<lambda>_ bs s. (int (length bs), s @ bs))) 0 (\<lambda>_. [7]) demo_comm 4 9 1 0 (Ptr 1 0) [] =
     Some (9, demo_comm\<lparr>txPktCount := txPktCount demo_comm + 1\<rparr>, isb_frame 4 9 0 [7])"
proof -
  let ?w = "\<lambda>(_ :: nat) (bs :: u8 list) s. (int (length bs), s @ bs)"
  have src: "tx_source (\<lambda>_. [7]) 0 (Ptr 1 0) [7]" "length [7 :: u8] \<le> 65525"
    by (simp_all add: tx_source_def rd_ptr_def rd_bytes_def)
  have "run_writes ?w 0 (tx_pieces 4 9 0 [7]) (0, []) = (9, concat (tx_pieces 4 9 0 [7]))"
    by (simp add: tx_pieces_def)
  then show ?thesis
    using is_comm_write_pieces [OF src, of ?w 0 demo_comm 4 9 0 "[]"] by simp
qed

text \<open>C18: a structure can be received in pieces. Two data packets for consecutive ranges of a
  structure, copied one after the other by \<^verbatim>\<open>copyDataPToStructP\<close>, leave in the structure what one
  packet with the joined data would, and touch nothing else.\<close>

theorem copyDataPToStructP_pieces:
  assumes "unat (d_size h1) = length xs" "unat (d_size h2) = length ys"
      "unat (d_offset h2) = unat (d_offset h1) + length xs"
    "unat (d_offset h2) + length ys \<le> unat maxsize" "i + unat maxsize \<le> length (m ob)"
    "rd_bytes m os j (length xs) = Some xs" "rd_bytes m os k (length ys) = Some ys" "os \<noteq> ob"
  shows "\<exists>m1. copyDataPToStructP m (Ptr ob i) \<lparr>d_hdr = h1, d_ptr = Ptr os j\<rparr> maxsize = Some (0, m1) \<and>
     copyDataPToStructP m1 (Ptr ob i) \<lparr>d_hdr = h2, d_ptr = Ptr os k\<rparr> maxsize =
       Some (0, put_bytes m ob (i + unat (d_offset h1)) (xs @ ys))"
  by (rule pdat.pieces [OF assms])

lemma copyDataPToStructP_pieces_witness:
  "\<exists>m1. copyDataPToStructP ((\<lambda>_. [1, 2, 3])(0 := [0, 0, 0, 0])) (Ptr 0 0)
       \<lparr>d_hdr = \<lparr>d_id = 1, d_size = 1, d_offset = 1\<rparr>, d_ptr = Ptr 1 0\<rparr> 4 = Some (0, m1) \<and>
     copyDataPToStructP m1 (Ptr 0 0) \<lparr>d_hdr = \<lparr>d_id = 1, d_size = 2, d_offset = 2\<rparr>, d_ptr = Ptr 1 1\<rparr> 4 =
       Some (0, (\<lambda>_. [1, 2, 3])(0 := [0, 1, 2, 3]))"
proof -
  let ?m = "(\<lambda>_. [1, 2, 3])(0 := [0, 0, 0, 0]) :: cmem"
  let ?h1 = "\<lparr>d_id = 1, d_size = 1, d_offset = 1\<rparr>" and ?h2 = "\<lparr>d_id = 1, d_size = 2, d_offset = 2\<rparr>"
  have "put_bytes ?m 0 (0 + unat (d_offset ?h1)) ([1] @ [2, 3]) = (\<lambda>_. [1, 2, 3])(0 := [0, 1, 2, 3])"
    by (simp add: put_bytes_def)
  moreover have "\<exists>m1. copyDataPToStructP ?m (Ptr 0 0) \<lparr>d_hdr = ?h1, d_ptr = Ptr 1 0\<rparr> 4 = Some (0, m1) \<and>
     copyDataPToStructP m1 (Ptr 0 0) \<lparr>d_hdr = ?h2, d_ptr = Ptr 1 1\<rparr> 4 =
       Some (0, put_bytes ?m 0 (0 + unat (d_offset ?h1)) ([1] @ [2, 3]))"
    by (rule copyDataPToStructP_pieces) (simp_all add: rd_bytes_def)
  ultimately show ?thesis by simp
qed

end
