(* ===== verification/ComManager.thy ===== *)
theory ComManager
  imports CommTx
begin

text \<open>
  The communication manager (\<^verbatim>\<open>com_manager.c\<close>): a set of ports, the data sets an application
  registers, the requests of the other side and the periodic broadcasts they enable.

  The functions the application supplies are optional functions on the memory and the
  application state \<open>'s\<close>. The broadcast slots are an array the application provides; the
  manager uses the first \<^verbatim>\<open>MAX_NUM_BCAST_MSGS\<close> of them, and a null pointer is \<open>None\<close>. The
  receive buffer of a port is an object of the memory. The instance operations are modelled;
  the functions without the suffix \<^verbatim>\<open>Instance\<close> call them on the global instance. An operation
  returns \<open>None\<close> when it follows a null pointer or leaves an array. Code for the IMX-5 firmware
  (\<^verbatim>\<open>#ifdef IMX_5\<close>) and the disabled packet continuation are left out.
  The initialisation stores \<^verbatim>\<open>processIsb\<close> as the handler of ISB packets in the callbacks, where
  nothing replaces it; a function stored in the manager it acts on is not a value of the logic, so
  \<open>cm_callbacks\<close> supplies it, as \<open>isb_handler\<close>, wherever the receive step uses the callbacks.
\<close>

section \<open>State\<close>

abbreviation (input) MAX_NUM_BCAST_MSGS :: nat where "MAX_NUM_BCAST_MSGS \<equiv> 12"
abbreviation (input) DID_COUNT :: u16 where "DID_COUNT \<equiv> 132"
abbreviation (input) DID_REFERENCE_IMU :: u16 where "DID_REFERENCE_IMU \<equiv> 95"
abbreviation (input) DID_RMC :: u16 where "DID_RMC \<equiv> 9"
abbreviation (input) MIN_REQUEST_PERIOD_MS :: u16 where "MIN_REQUEST_PERIOD_MS \<equiv> 1"
abbreviation (input) MAX_REQUEST_PERIOD_MS :: u16 where "MAX_REQUEST_PERIOD_MS \<equiv> 65000"
abbreviation (input) MSG_PERIOD_SEND_ONCE :: int where "MSG_PERIOD_SEND_ONCE \<equiv> - 1"
abbreviation (input) MSG_PERIOD_DISABLED :: int where "MSG_PERIOD_DISABLED \<equiv> 0"

record broadcast_msg_t =
  bc_pkt :: packet_t
  bc_counter :: int
  bc_period :: int
  bc_pHandle :: int

record bufTxRxPtr_t =
  txPtr :: cptr
  rxPtr :: cptr
  ds_size :: u32

text \<open>\<open>preTxFnc\<close> may update the data header and the data before they are sent; \<open>pstRxFnc\<close> gets the
  received data and may change its local description.\<close>

type_synonym 's pre_send = "int \<Rightarrow> p_data_hdr_t \<Rightarrow> cmem \<Rightarrow> 's \<Rightarrow> (int \<times> p_data_hdr_t \<times> cmem \<times> 's) option"
type_synonym 's post_read = "int \<Rightarrow> p_data_t \<Rightarrow> cmem \<Rightarrow> 's \<Rightarrow> (p_data_t \<times> cmem \<times> 's) option"

record 's registered_data_t =
  dataSet :: bufTxRxPtr_t
  preTxFnc :: "'s pre_send option"
  reg_pstRxFnc :: "'s post_read option"
  pktFlags :: u8

record 's com_manager_t =
  portRead :: "'s port_read option"
  portWrite :: "'s port_write option"
  txFree :: "(int \<Rightarrow> 's \<Rightarrow> int \<times> 's) option"
  pstRxFnc :: "'s post_read option"
  pstAckFnc :: "(int \<Rightarrow> cptr \<Rightarrow> u8 \<Rightarrow> cmem \<Rightarrow> 's \<Rightarrow> (cmem \<times> 's) option) option"
  disableBcastFnc :: "(int \<Rightarrow> 's \<Rightarrow> 's) option"
  regData :: "nat \<Rightarrow> 's registered_data_t"
  ports :: "is_comm_instance_t list"
  numPorts :: int
  broadcastMessages :: "broadcast_msg_t list option"
  stepPeriodMilliseconds :: int
  userPointer :: cptr
  callbacks :: "'s is_comm_callbacks_t"

text \<open>What \<^verbatim>\<open>com_manager_init_t\<close> provides: null or the number of broadcast slots.\<close>

record com_manager_init_t =
  broadcastMsg :: bool
  broadcastMsgSlots :: nat

definition bcast_zero :: broadcast_msg_t where
  "bcast_zero = \<lparr>bc_pkt = packet_zero, bc_counter = 0, bc_period = 0, bc_pHandle = 0\<rparr>"

definition callbacks_zero :: "'s is_comm_callbacks_t" where
  "callbacks_zero =
     \<lparr>cb_isbData = None, cb_isb = None, cb_nmea = None, cb_ublox = None, cb_rtcm3 = None, cb_sony = None,
      cb_sprtn = None, cb_error = None, cb_all = None, cb_rmc = None\<rparr>"

definition com_manager_zero :: "'s com_manager_t" where
  "com_manager_zero =
     \<lparr>portRead = None, portWrite = None, txFree = None, pstRxFnc = None, pstAckFnc = None,
      disableBcastFnc = None,
      regData = (\<lambda>_. \<lparr>dataSet = \<lparr>txPtr = Null, rxPtr = Null, ds_size = 0\<rparr>, preTxFnc = None,
                       reg_pstRxFnc = None, pktFlags = 0\<rparr>),
      ports = [], numPorts = 0, broadcastMessages = None, stepPeriodMilliseconds = 0, userPointer = Null,
      callbacks = callbacks_zero\<rparr>"

section \<open>Initialisation and registration\<close>

text \<open>\<open>cmPorts\<close> lists the objects of the receive buffers of the ports.\<close>

fun init_ports :: "cmem \<Rightarrow> nat list \<Rightarrow> nat \<Rightarrow> (cmem \<times> is_comm_instance_t list) option" where
  "init_ports m obs 0 = Some (m, [])"
| "init_ports m [] (Suc n) = None"
| "init_ports m (ob # obs) (Suc n) =
     do { (m1, c) \<leftarrow> is_comm_init m ob 0 PKT_BUF_SIZE;
          (m2, cs) \<leftarrow> init_ports m1 obs n;
          Some (m2, c # cs) }"

definition initComManagerInstanceInternal ::
  "'s com_manager_t \<Rightarrow> int \<Rightarrow> int \<Rightarrow> 's port_read option \<Rightarrow> 's port_write option \<Rightarrow>
   (int \<Rightarrow> 's \<Rightarrow> int \<times> 's) option \<Rightarrow> 's post_read option \<Rightarrow>
   (int \<Rightarrow> cptr \<Rightarrow> u8 \<Rightarrow> cmem \<Rightarrow> 's \<Rightarrow> (cmem \<times> 's) option) option \<Rightarrow> (int \<Rightarrow> 's \<Rightarrow> 's) option \<Rightarrow>
   com_manager_init_t option \<Rightarrow> nat list option \<Rightarrow> 's is_comm_callbacks_t option \<Rightarrow> cmem \<Rightarrow>
   (int \<times> 's com_manager_t \<times> cmem) option" where
  "initComManagerInstanceInternal cm nPorts stepMs readF writeF txFreeF pstRx pstAck disableF buffers cmPorts cbs m =
     (if nPorts \<le> 0 then Some (- 1, cm, m)
      else
        let nPorts = min nPorts 1024;
            cm1 = cm\<lparr>portRead := readF, portWrite := writeF, txFree := txFreeF, pstRxFnc := pstRx,
              pstAckFnc := pstAck, disableBcastFnc := disableF, numPorts := nPorts,
              stepPeriodMilliseconds := stepMs,
              callbacks := (case cbs of None \<Rightarrow> callbacks cm | Some cb \<Rightarrow> cb)\<rparr>
        in case (buffers, cmPorts) of
             (Some b, Some obs) \<Rightarrow>
               if \<not> broadcastMsg b \<or> broadcastMsgSlots b < MAX_NUM_BCAST_MSGS then Some (- 1, cm1, m)
               else do { (m', cs) \<leftarrow> init_ports m obs (nat nPorts);
                         Some (0, cm1\<lparr>broadcastMessages := Some (replicate MAX_NUM_BCAST_MSGS bcast_zero),
                                      ports := cs\<rparr>, m') }
           | _ \<Rightarrow> Some (- 1, cm1, m))"

definition comManagerInitInstance ::
  "'s com_manager_t option \<Rightarrow> int \<Rightarrow> int \<Rightarrow> 's port_read option \<Rightarrow> 's port_write option \<Rightarrow>
   (int \<Rightarrow> 's \<Rightarrow> int \<times> 's) option \<Rightarrow> 's post_read option \<Rightarrow>
   (int \<Rightarrow> cptr \<Rightarrow> u8 \<Rightarrow> cmem \<Rightarrow> 's \<Rightarrow> (cmem \<times> 's) option) option \<Rightarrow> (int \<Rightarrow> 's \<Rightarrow> 's) option \<Rightarrow>
   com_manager_init_t option \<Rightarrow> nat list option \<Rightarrow> 's is_comm_callbacks_t option \<Rightarrow> cmem \<Rightarrow>
   (int \<times> 's com_manager_t option \<times> cmem) option" where
  "comManagerInitInstance cmHandle nPorts stepMs readF writeF txFreeF pstRx pstAck disableF buffers cmPorts cbs m =
     (case cmHandle of
        None \<Rightarrow> Some (0, None, m)
      | Some _ \<Rightarrow>
          map_option (\<lambda>(r, cm, m'). (r, Some cm, m'))
            (initComManagerInstanceInternal com_manager_zero nPorts stepMs readF writeF txFreeF pstRx pstAck
               disableF buffers cmPorts cbs m))"

definition comManagerRegisterInstance ::
  "'s com_manager_t \<Rightarrow> u16 \<Rightarrow> 's pre_send option \<Rightarrow> 's post_read option \<Rightarrow> cptr \<Rightarrow> cptr \<Rightarrow> u16 \<Rightarrow> u8 \<Rightarrow>
   's com_manager_t" where
  "comManagerRegisterInstance cm did txFnc rxFnc txDataPtr rxDataPtr sz fl =
     (if did \<ge> DID_COUNT then cm
      else cm\<lparr>regData := (regData cm)(unat did :=
             \<lparr>dataSet = \<lparr>txPtr = txDataPtr, rxPtr = rxDataPtr, ds_size = ucast sz\<rparr>,
              preTxFnc = txFnc, reg_pstRxFnc = rxFnc, pktFlags = fl\<rparr>)\<rparr>)"

definition reg_at :: "'s com_manager_t \<Rightarrow> u16 \<Rightarrow> 's registered_data_t option" where
  "reg_at cm did = (if did < DID_COUNT then Some (regData cm (unat did)) else None)"

definition comManagerGetRegisteredDataInfoInstance :: "'s com_manager_t \<Rightarrow> u16 \<Rightarrow> bufTxRxPtr_t option" where
  "comManagerGetRegisteredDataInfoInstance cm did = map_option dataSet (reg_at cm did)"

definition comManagerAssignUserPointer :: "'s com_manager_t \<Rightarrow> cptr \<Rightarrow> 's com_manager_t" where
  "comManagerAssignUserPointer cm p = cm\<lparr>userPointer := p\<rparr>"

definition comManagerGetUserPointer :: "'s com_manager_t \<Rightarrow> cptr" where
  "comManagerGetUserPointer cm = userPointer cm"

text \<open>\<^verbatim>\<open>comManagerGetIsCommInstance\<close> returns a pointer: here the index of the port, \<open>None\<close> for null.\<close>

definition comManagerGetIsCommInstance :: "'s com_manager_t \<Rightarrow> int \<Rightarrow> nat option" where
  "comManagerGetIsCommInstance cm pHandle =
     (if numPorts cm \<le> 0 \<or> pHandle < 0 \<or> pHandle \<ge> numPorts cm then None else Some (nat pHandle))"

definition comManagerValidateBaudRate :: "u32 \<Rightarrow> int" where
  "comManagerValidateBaudRate baudRate = validateBaudRate baudRate"

section \<open>Sending\<close>

definition port_ok :: "'s com_manager_t \<Rightarrow> int \<Rightarrow> bool" where
  "port_ok cm port \<longleftrightarrow> 0 \<le> port \<and> nat port < length (ports cm)"

definition comManagerSendInstance ::
  "'s com_manager_t \<Rightarrow> int \<Rightarrow> u8 \<Rightarrow> cptr \<Rightarrow> u16 \<Rightarrow> u16 \<Rightarrow> u16 \<Rightarrow> cmem \<Rightarrow> 's \<Rightarrow>
   (int \<times> 's com_manager_t \<times> 's) option" where
  "comManagerSendInstance cm port pFlags dat did sz offset m s =
     (if port_ok cm port
      then do { (bytes, c, s') \<leftarrow> is_comm_write (portWrite cm) (nat port) m (ports cm ! nat port) pFlags did sz offset dat s;
                Some (if bytes < 0 then - 1 else 0, cm\<lparr>ports := (ports cm)[nat port := c]\<rparr>, s') }
      else None)"

definition comManagerGetDataInstance ::
  "nat \<Rightarrow> 's com_manager_t \<Rightarrow> int \<Rightarrow> u16 \<Rightarrow> u16 \<Rightarrow> u16 \<Rightarrow> u16 \<Rightarrow> cmem \<Rightarrow> 's \<Rightarrow>
   (int \<times> 's com_manager_t \<times> 's) option" where
  "comManagerGetDataInstance stk cm pHandle did sz offset period m s =
     comManagerSendInstance cm pHandle PKT_TYPE_GET_DATA (Ptr stk 0) 0 8 0
       (m(stk := u16_bytes did @ u16_bytes sz @ u16_bytes offset @ u16_bytes period)) s"

definition comManagerSendDataInstance ::
  "'s com_manager_t \<Rightarrow> int \<Rightarrow> cptr \<Rightarrow> u16 \<Rightarrow> u16 \<Rightarrow> u16 \<Rightarrow> cmem \<Rightarrow> 's \<Rightarrow> (int \<times> 's com_manager_t \<times> 's) option" where
  "comManagerSendDataInstance cm pHandle dat did sz offset m s =
     comManagerSendInstance cm pHandle PKT_TYPE_SET_DATA dat did sz offset m s"

text \<open>The bytes of a little-endian integer, least significant first.\<close>

fun le_bytes :: "nat \<Rightarrow> 'a::len word \<Rightarrow> u8 list" where
  "le_bytes 0 w = []"
| "le_bytes (Suc n) w = ucast w # le_bytes n (drop_bit 8 w)"

definition comManagerGetDataRmcInstance ::
  "nat \<Rightarrow> 's com_manager_t \<Rightarrow> int \<Rightarrow> u64 \<Rightarrow> u32 \<Rightarrow> cmem \<Rightarrow> 's \<Rightarrow> (int \<times> 's com_manager_t \<times> 's) option" where
  "comManagerGetDataRmcInstance stk cm pHandle rmcBits rmcOptions m s =
     comManagerSendDataInstance cm pHandle (Ptr stk 0) DID_RMC 12 0
       (m(stk := le_bytes 8 rmcBits @ le_bytes 4 rmcOptions)) s"

definition comManagerSendDataNoAckInstance ::
  "'s com_manager_t \<Rightarrow> int \<Rightarrow> cptr \<Rightarrow> u16 \<Rightarrow> u16 \<Rightarrow> u16 \<Rightarrow> cmem \<Rightarrow> 's \<Rightarrow> (int \<times> 's com_manager_t \<times> 's) option" where
  "comManagerSendDataNoAckInstance cm pHandle dat did sz offset m s =
     comManagerSendInstance cm pHandle PKT_TYPE_DATA dat did sz offset m s"

definition comManagerSendRawDataInstance ::
  "'s com_manager_t \<Rightarrow> int \<Rightarrow> cptr \<Rightarrow> u16 \<Rightarrow> u16 \<Rightarrow> u16 \<Rightarrow> cmem \<Rightarrow> 's \<Rightarrow> (int \<times> 's com_manager_t \<times> 's) option" where
  "comManagerSendRawDataInstance cm pHandle dat did sz offset m s =
     comManagerSendInstance cm pHandle PKT_TYPE_SET_DATA dat did sz offset m s"

definition comManagerSendRawInstance ::
  "'s com_manager_t \<Rightarrow> int \<Rightarrow> cptr \<Rightarrow> nat \<Rightarrow> cmem \<Rightarrow> 's \<Rightarrow> (int \<times> 's) option" where
  "comManagerSendRawInstance cm pHandle dataPtr dataSize m s =
     (case portWrite cm of
        None \<Rightarrow> Some (0, s)
      | Some w \<Rightarrow>
          do { bs \<leftarrow> rd_ptr m dataPtr dataSize;
               (let (n, s') = w (nat pHandle) bs s in Some (if n \<noteq> 0 then 0 else - 1, s')) })"

definition comManagerDisableDataInstance ::
  "'s com_manager_t \<Rightarrow> int \<Rightarrow> u16 \<Rightarrow> cmem \<Rightarrow> 's \<Rightarrow> (int \<times> 's com_manager_t \<times> 's) option" where
  "comManagerDisableDataInstance cm pHandle did m s =
     comManagerSendInstance cm pHandle PKT_TYPE_STOP_DID_BROADCAST Null did 0 0 m s"

definition sendDataPacket ::
  "'s com_manager_t \<Rightarrow> int \<Rightarrow> packet_t \<Rightarrow> cmem \<Rightarrow> 's \<Rightarrow> (int \<times> packet_t \<times> 's com_manager_t \<times> 's) option" where
  "sendDataPacket cm port pkt m s =
     (case portWrite cm of
        None \<Rightarrow> None
      | Some w \<Rightarrow>
          if port_ok cm port
          then do { (bytes, c, pkt', s') \<leftarrow> is_comm_write_isb_precomp_to_port w (nat port) m (ports cm ! nat port) pkt s;
                    Some (if bytes < 0 then - 1 else 0, pkt', cm\<lparr>ports := (ports cm)[nat port := c]\<rparr>, s') }
          else None)"

text \<open>\<^verbatim>\<open>sendAck\<close> builds a \<^verbatim>\<open>p_ack_t\<close> of 9 bytes in the local object \<open>stk\<close>.\<close>

definition sendAck ::
  "nat \<Rightarrow> 's com_manager_t \<Rightarrow> int \<Rightarrow> packet_t \<Rightarrow> u8 \<Rightarrow> cmem \<Rightarrow> 's \<Rightarrow> ('s com_manager_t \<times> 's) option" where
  "sendAck stk cm pHandle pkt pTypeFlags m s =
     do { body \<leftarrow> (if flags (hdr pkt) AND PKT_TYPE_MASK = PKT_TYPE_SET_DATA
                   then rd_ptr m (dptr (pdata pkt)) 5 else Some (replicate 5 0));
          (_, cm', s') \<leftarrow> comManagerSendInstance cm pHandle pTypeFlags (Ptr stk 0) 0 9 0
                           (m(stk := u16_bytes (ucast (flags (hdr pkt))) @ u16_bytes 0 @ body)) s;
          Some (cm', s') }"

section \<open>Broadcasts\<close>

definition period_div :: "int \<Rightarrow> int \<Rightarrow> int option" where
  "period_div a b = (if b = 0 then None else Some (if 0 < b then a div b else - (a div - b)))"

definition enableBroadcastMsg :: "'s com_manager_t \<Rightarrow> broadcast_msg_t \<Rightarrow> int \<Rightarrow> broadcast_msg_t option" where
  "enableBroadcastMsg cm msg periodMultiple =
     (if periodMultiple > 0
      then do { p \<leftarrow> period_div periodMultiple (stepPeriodMilliseconds cm);
                Some (msg\<lparr>bc_period := p, bc_counter := - 1\<rparr>) }
      else Some (msg\<lparr>bc_period := MSG_PERIOD_SEND_ONCE, bc_counter := - 1\<rparr>))"

definition disableBroadcastMsg :: "broadcast_msg_t \<Rightarrow> broadcast_msg_t" where
  "disableBroadcastMsg msg = msg\<lparr>bc_period := MSG_PERIOD_DISABLED\<rparr>"

definition comManagerDisableBroadcastsInstance :: "'s com_manager_t \<Rightarrow> int \<Rightarrow> 's com_manager_t option" where
  "comManagerDisableBroadcastsInstance cm pHandle =
     do { bcs \<leftarrow> broadcastMessages cm;
          Some (cm\<lparr>broadcastMessages := Some (map (\<lambda>b.
                  if pHandle < 0 \<or> bc_pHandle b = pHandle then disableBroadcastMsg b else b) bcs)\<rparr>) }"

definition disableDidBroadcast ::
  "'s com_manager_t \<Rightarrow> int \<Rightarrow> u16 \<Rightarrow> 's \<Rightarrow> ('s com_manager_t \<times> 's) option" where
  "disableDidBroadcast cm pHandle did s =
     do { bcs \<leftarrow> broadcastMessages cm;
          (let cm' = cm\<lparr>broadcastMessages := Some (map (\<lambda>b.
                  if (pHandle < 0 \<or> pHandle = bc_pHandle b) \<and> ucast (hdr_id (hdr (bc_pkt b))) = did
                  then disableBroadcastMsg b else b) bcs)\<rparr>
           in case cb_rmc (callbacks cm) of
                None \<Rightarrow> Some (cm', s)
              | Some rmc \<Rightarrow>
                  (let (_, _, s') = rmc pHandle \<lparr>g_id = did, g_size = 0, g_offset = 0, g_period = 0\<rparr> s
                   in Some (cm', s'))) }"

text \<open>The data header of a packet shares its bytes with the packet header.\<close>

definition pkt_dataHdr :: "packet_t \<Rightarrow> p_data_hdr_t" where
  "pkt_dataHdr pkt = \<lparr>d_id = hdr_id (hdr pkt), d_size = payloadSize (hdr pkt), d_offset = pkt_offset pkt\<rparr>"

definition set_dataHdr :: "packet_t \<Rightarrow> p_data_hdr_t \<Rightarrow> packet_t" where
  "set_dataHdr pkt h =
     pkt\<lparr>hdr := (hdr pkt)\<lparr>hdr_id := d_id h, payloadSize := d_size h\<rparr>, pkt_offset := d_offset h\<rparr>"

definition call_preTx ::
  "'s pre_send option \<Rightarrow> int \<Rightarrow> packet_t \<Rightarrow> cmem \<Rightarrow> 's \<Rightarrow> (int \<times> packet_t \<times> cmem \<times> 's) option" where
  "call_preTx f pHandle pkt m s =
     (case f of
        None \<Rightarrow> Some (1, pkt, m, s)
      | Some g \<Rightarrow> do { (r, h, m', s') \<leftarrow> g pHandle (pkt_dataHdr pkt) m s; Some (r, set_dataHdr pkt h, m', s') })"

text \<open>The comparison with the free bytes is unsigned: a negative count is a large one.\<close>

definition tx_room :: "'s com_manager_t \<Rightarrow> int \<Rightarrow> u16 \<Rightarrow> 's \<Rightarrow> bool \<times> 's" where
  "tx_room cm pHandle sz s =
     (case txFree cm of
        None \<Rightarrow> (True, s)
      | Some f \<Rightarrow> (let (n, s') = f pHandle s in (ucast sz \<le> (word_of_int n :: u32), s')))"

text \<open>One slot of the transmit loop, after the test for room.\<close>

definition send_slot ::
  "'s com_manager_t \<Rightarrow> broadcast_msg_t \<Rightarrow> cmem \<Rightarrow> 's \<Rightarrow> (broadcast_msg_t \<times> 's com_manager_t \<times> cmem \<times> 's) option" where
  "send_slot cm b m s =
     (if bc_period b = MSG_PERIOD_SEND_ONCE
      then do { (_, pkt, cm', s') \<leftarrow> sendDataPacket cm (bc_pHandle b) (bc_pkt b) m s;
                Some (disableBroadcastMsg (b\<lparr>bc_pkt := pkt\<rparr>), cm', m, s') }
      else if bc_period b > 0
      then if bc_counter b + 1 \<ge> bc_period b
           then
             do { (r, pkt, m1, s1) \<leftarrow>
                    (if ucast (hdr_id (hdr (bc_pkt b))) < DID_COUNT
                     then call_preTx (preTxFnc (regData cm (unat (hdr_id (hdr (bc_pkt b)))))) (bc_pHandle b) (bc_pkt b) m s
                     else Some (1, bc_pkt b, m, s));
                  if r \<noteq> 0
                  then do { (_, pkt', cm', s2) \<leftarrow> sendDataPacket cm (bc_pHandle b) pkt m1 s1;
                            Some (b\<lparr>bc_counter := 0, bc_pkt := pkt'\<rparr>, cm', m1, s2) }
                  else Some (b\<lparr>bc_counter := 0, bc_pkt := pkt\<rparr>, cm, m1, s1) }
           else Some (b\<lparr>bc_counter := bc_counter b + 1\<rparr>, cm, m, s)
      else Some (b, cm, m, s))"

fun send_loop ::
  "'s com_manager_t \<Rightarrow> broadcast_msg_t list \<Rightarrow> cmem \<Rightarrow> 's \<Rightarrow>
   (broadcast_msg_t list \<times> 's com_manager_t \<times> cmem \<times> 's) option" where
  "send_loop cm [] m s = Some ([], cm, m, s)"
| "send_loop cm (b # bs) m s =
     (let (room, s1) = tx_room cm (bc_pHandle b) (pkt_size (bc_pkt b)) s in
      if \<not> room then Some (b # bs, cm, m, s1)
      else do { (b', cm1, m1, s2) \<leftarrow> send_slot cm b m s1;
                (bs', cm2, m2, s3) \<leftarrow> send_loop cm1 bs m1 s2;
                Some (b' # bs', cm2, m2, s3) })"

definition stepComManagerSendMessagesInstance ::
  "'s com_manager_t \<Rightarrow> cmem \<Rightarrow> 's \<Rightarrow> ('s com_manager_t \<times> cmem \<times> 's) option" where
  "stepComManagerSendMessagesInstance cm m s =
     do { bcs \<leftarrow> broadcastMessages cm;
          (bcs', cm', m', s') \<leftarrow> send_loop cm bcs m s;
          Some (cm'\<lparr>broadcastMessages := Some bcs'\<rparr>, m', s') }"

definition comManagerStepTxInstance ::
  "'s com_manager_t \<Rightarrow> cmem \<Rightarrow> 's \<Rightarrow> ('s com_manager_t \<times> cmem \<times> 's) option" where
  "comManagerStepTxInstance cm m s = stepComManagerSendMessagesInstance cm m s"

section \<open>Requests\<close>

text \<open>The size and offset a request asks for, after the defaults for a whole structure and for a
  request past its end.\<close>

definition request_default :: "'s com_manager_t \<Rightarrow> p_data_get_t \<Rightarrow> p_data_get_t" where
  "request_default cm req =
     (if g_size req = 0 \<and> g_offset req = 0 \<and> g_id req < DID_COUNT
      then req\<lparr>g_size := ucast (ds_size (dataSet (regData cm (unat (g_id req)))))\<rparr> else req)"

definition request_fit :: "bufTxRxPtr_t \<Rightarrow> p_data_get_t \<Rightarrow> p_data_get_t" where
  "request_fit ds req =
     (if ucast (g_offset req) + ucast (g_size req) > ds_size ds
      then req\<lparr>g_offset := 0, g_size := ucast (ds_size ds)\<rparr> else req)"

definition slot_matches :: "int \<Rightarrow> p_data_get_t \<Rightarrow> broadcast_msg_t \<Rightarrow> bool" where
  "slot_matches pHandle req b \<longleftrightarrow>
     bc_pHandle b = pHandle \<and> ucast (hdr_id (hdr (bc_pkt b))) = g_id req \<and>
     payloadSize (hdr (bc_pkt b)) = g_size req \<and> pkt_offset (bc_pkt b) = g_offset req"

fun find_index_from :: "nat \<Rightarrow> ('a \<Rightarrow> bool) \<Rightarrow> 'a list \<Rightarrow> nat option" where
  "find_index_from i P [] = None"
| "find_index_from i P (x # xs) = (if P x then Some i else find_index_from (Suc i) P xs)"

definition request_slot :: "broadcast_msg_t list \<Rightarrow> int \<Rightarrow> p_data_get_t \<Rightarrow> nat" where
  "request_slot bcs pHandle req =
     (case find_index_from 0 (slot_matches pHandle req) bcs of
        Some i \<Rightarrow> i
      | None \<Rightarrow>
          (case find_index_from 0 (\<lambda>b. bc_period b \<le> MSG_PERIOD_DISABLED) bcs of
             Some i \<Rightarrow> i
           | None \<Rightarrow> MAX_NUM_BCAST_MSGS - 1))"

definition request_period :: "u16 \<Rightarrow> u16" where
  "request_period p =
     (if p \<noteq> 0
      then (if p < MIN_REQUEST_PERIOD_MS then MIN_REQUEST_PERIOD_MS
            else if p > MAX_REQUEST_PERIOD_MS then MAX_REQUEST_PERIOD_MS else p)
      else p)"

text \<open>The end of a request: send now if there is room, then enable, disable or delay the slot.\<close>

definition request_send ::
  "'s com_manager_t \<Rightarrow> int \<Rightarrow> broadcast_msg_t \<Rightarrow> bool \<Rightarrow> u16 \<Rightarrow> cmem \<Rightarrow> 's \<Rightarrow>
   (broadcast_msg_t \<times> 's com_manager_t \<times> 's) option" where
  "request_send cm pHandle msg sendData period m s =
     (let (room, s1) = tx_room cm pHandle (pkt_size (bc_pkt msg)) s in
      do { (pkt, cm1, s2) \<leftarrow>
             (if room \<and> sendData
              then do { (_, pkt, cm1, s2) \<leftarrow> sendDataPacket cm pHandle (bc_pkt msg) m s1; Some (pkt, cm1, s2) }
              else Some (bc_pkt msg, cm, s1));
           msg' \<leftarrow>
             (if period > 0 then enableBroadcastMsg cm (msg\<lparr>bc_pkt := pkt\<rparr>) (uint period)
              else if room then Some (disableBroadcastMsg (msg\<lparr>bc_pkt := pkt\<rparr>))
              else enableBroadcastMsg cm (msg\<lparr>bc_pkt := pkt\<rparr>) (uint period));
           Some (msg', cm1, s2) })"

text \<open>The address of the data a request asks for, null when none is registered.\<close>

definition request_data :: "bufTxRxPtr_t \<Rightarrow> u16 \<Rightarrow> cptr" where
  "request_data ds offset = (case txPtr ds of Null \<Rightarrow> Null | p \<Rightarrow> ptr_add p (unat offset))"

text \<open>A request whose size is known: choose the slot, encode the packet, let the data set update
  it, send.\<close>

definition request_run ::
  "'s com_manager_t \<Rightarrow> int \<Rightarrow> p_data_get_t \<Rightarrow> cmem \<Rightarrow> 's \<Rightarrow>
   (int \<times> p_data_get_t \<times> 's com_manager_t \<times> cmem \<times> 's) option" where
  "request_run cm pHandle req m s =
     do { reg \<leftarrow> reg_at cm (g_id req);
          bcs \<leftarrow> broadcastMessages cm;
          (let req = request_fit (dataSet reg) req;
               i = request_slot bcs pHandle req;
               dat = request_data (dataSet reg) (g_offset req);
               pkt = is_comm_encode_hdr (bc_pkt (bcs ! i)) PKT_TYPE_DATA (g_id req) (g_size req) (g_offset req) dat
           in do { (sendData, pkt1, m1, s1) \<leftarrow> call_preTx (preTxFnc reg) pHandle pkt m s;
                   (let msg = (bcs ! i)\<lparr>bc_pHandle := pHandle, bc_pkt := pkt1\<rparr> in
                    if g_id req = DID_REFERENCE_IMU
                    then Some (- 1, req, cm\<lparr>broadcastMessages := Some (bcs[i := msg])\<rparr>, m1, s1)
                    else
                      let req = req\<lparr>g_period := request_period (g_period req)\<rparr> in
                      do { (msg', cm', s2) \<leftarrow> request_send cm pHandle msg (sendData \<noteq> 0) (g_period req) m1 s1;
                           Some (0, req, cm'\<lparr>broadcastMessages := Some (bcs[i := msg'])\<rparr>, m1, s2) }) }) }"

definition request_sized ::
  "'s com_manager_t \<Rightarrow> int \<Rightarrow> p_data_get_t \<Rightarrow> cmem \<Rightarrow> 's \<Rightarrow>
   (int \<times> p_data_get_t \<times> 's com_manager_t \<times> cmem \<times> 's) option" where
  "request_sized cm pHandle req m s =
     (let req = request_default cm req in
      if g_size req = 0 then Some (0, req, cm, m, s) else request_run cm pHandle req m s)"

definition comManagerGetDataRequestInstance ::
  "'s com_manager_t \<Rightarrow> int \<Rightarrow> p_data_get_t \<Rightarrow> cmem \<Rightarrow> 's \<Rightarrow>
   (int \<times> p_data_get_t \<times> 's com_manager_t \<times> cmem \<times> 's) option" where
  "comManagerGetDataRequestInstance cm pHandle req m s =
     (if g_id req \<ge> DID_COUNT then Some (- 1, req, cm, m, s)
      else case cb_rmc (callbacks cm) of
             None \<Rightarrow> request_sized cm pHandle req m s
           | Some rmc \<Rightarrow>
               (let (r, req', s') = rmc pHandle req s in
                if r = 0 then Some (0, req', cm, m, s') else request_sized cm pHandle req' m s'))"

section \<open>Receiving\<close>

text \<open>The size of received data, trimmed to the registered structure: \<open>None\<close> rejects the packet. The
  remaining room is computed in 32 bits and narrowed to 16, then to 8 bits.\<close>

definition trim_data :: "u32 \<Rightarrow> p_data_t \<Rightarrow> p_data_t option" where
  "trim_data setSize dat =
     (let h = d_hdr dat in
      if setSize \<noteq> 0 \<and> ucast (d_offset h) + ucast (d_size h) > setSize
      then (let room = ucast (setSize - ucast (d_offset h)) :: u16 in
            if room < 4 then None
            else Some (dat\<lparr>d_hdr := h\<lparr>d_size := min (d_size h) (ucast (ucast room :: u8))\<rparr>\<rparr>))
      else Some dat)"

definition call_pstRx ::
  "'s post_read option \<Rightarrow> int \<Rightarrow> p_data_t \<Rightarrow> cmem \<Rightarrow> 's \<Rightarrow> (p_data_t \<times> cmem \<times> 's) option" where
  "call_pstRx f pHandle dat m s = (case f of None \<Rightarrow> Some (dat, m, s) | Some g \<Rightarrow> g pHandle dat m s)"

text \<open>The cases \<^verbatim>\<open>PKT_TYPE_SET_DATA\<close> and \<^verbatim>\<open>PKT_TYPE_DATA\<close> of \<^verbatim>\<open>processIsb\<close>; \<open>c\<close> is the instance of the
  port.\<close>

definition process_data ::
  "nat \<Rightarrow> 's com_manager_t \<Rightarrow> int \<Rightarrow> u8 \<Rightarrow> is_comm_instance_t \<Rightarrow> cmem \<Rightarrow> 's \<Rightarrow>
   (int \<times> 's com_manager_t \<times> cmem \<times> 's) option" where
  "process_data stk cm pHandle ptype c m s =
     (let dat = is_comm_to_isb_p_data c in
      if ucast (d_id (d_hdr dat)) \<ge> DID_COUNT \<or> payloadSize (hdr (rxPkt c)) = 0 then Some (- 1, cm, m, s)
      else
        let reg = regData cm (unat (d_id (d_hdr dat))) in
        case trim_data (ds_size (dataSet reg)) dat of
          None \<Rightarrow> Some (- 1, cm, m, s)
        | Some dat1 \<Rightarrow>
            do { m1 \<leftarrow> (case rxPtr (dataSet reg) of
                          Null \<Rightarrow> Some m
                        | p \<Rightarrow> map_option snd (copyDataPToStructP m p dat1 (ds_size (dataSet reg))));
                 (dat2, m2, s2) \<leftarrow> call_pstRx (reg_pstRxFnc reg) pHandle dat1 m1 s;
                 (_, m3, s3) \<leftarrow> call_pstRx (pstRxFnc cm) pHandle dat2 m2 s2;
                 if ptype = PKT_TYPE_SET_DATA
                 then do { (cm', s4) \<leftarrow> sendAck stk cm pHandle (rxPkt c) PKT_TYPE_ACK m3 s3; Some (0, cm', m3, s4) }
                 else Some (0, cm, m3, s3) })"

text \<open>A request lies in the received payload; its fields are updated there.\<close>

definition get_of :: "u8 list \<Rightarrow> p_data_get_t" where
  "get_of bs =
     \<lparr>g_id = u16_of (bs ! 0) (bs ! 1), g_size = u16_of (bs ! 2) (bs ! 3), g_offset = u16_of (bs ! 4) (bs ! 5),
      g_period = u16_of (bs ! 6) (bs ! 7)\<rparr>"

definition bytes_of_get :: "p_data_get_t \<Rightarrow> u8 list" where
  "bytes_of_get g = u16_bytes (g_id g) @ u16_bytes (g_size g) @ u16_bytes (g_offset g) @ u16_bytes (g_period g)"

definition process_get ::
  "nat \<Rightarrow> 's com_manager_t \<Rightarrow> int \<Rightarrow> is_comm_instance_t \<Rightarrow> cmem \<Rightarrow> 's \<Rightarrow>
   (int \<times> 's com_manager_t \<times> cmem \<times> 's) option" where
  "process_get stk cm pHandle c m s =
     (case dptr (pdata (rxPkt c)) of
        Null \<Rightarrow> None
      | Ptr ob i \<Rightarrow>
          do { bs \<leftarrow> rd_bytes m ob i 8;
               (r, req, cm1, m1, s1) \<leftarrow> comManagerGetDataRequestInstance cm pHandle (get_of bs) m s;
               m2 \<leftarrow> wr_bytes m1 ob i (bytes_of_get req);
               if r \<noteq> 0
               then do { (cm2, s2) \<leftarrow> sendAck stk cm1 pHandle (rxPkt c) PKT_TYPE_NACK m2 s1; Some (0, cm2, m2, s2) }
               else Some (0, cm1, m2, s1) })"

definition process_stop ::
  "nat \<Rightarrow> 's com_manager_t \<Rightarrow> int \<Rightarrow> int \<Rightarrow> is_comm_instance_t \<Rightarrow> cmem \<Rightarrow> 's \<Rightarrow>
   (int \<times> 's com_manager_t \<times> cmem \<times> 's) option" where
  "process_stop stk cm pHandle which c m s =
     do { cm1 \<leftarrow> comManagerDisableBroadcastsInstance cm which;
          (let s1 = (case disableBcastFnc cm of None \<Rightarrow> s | Some f \<Rightarrow> f which s) in
           do { (cm2, s2) \<leftarrow> sendAck stk cm1 pHandle (rxPkt c) PKT_TYPE_ACK m s1; Some (0, cm2, m, s2) }) }"

text \<open>\<^verbatim>\<open>processIsb\<close> on the manager \<^verbatim>\<open>s_cmPtr\<close> points to.\<close>

definition processIsb_cm ::
  "nat \<Rightarrow> 's com_manager_t \<Rightarrow> int \<Rightarrow> is_comm_instance_t \<Rightarrow> cmem \<Rightarrow> 's \<Rightarrow>
   (int \<times> 's com_manager_t \<times> cmem \<times> 's) option" where
  "processIsb_cm stk cm pHandle c m s =
     (let ptype = is_comm_to_isb_pkt_type c in
      if ptype = PKT_TYPE_SET_DATA \<or> ptype = PKT_TYPE_DATA then process_data stk cm pHandle ptype c m s
      else if ptype = PKT_TYPE_GET_DATA then process_get stk cm pHandle c m s
      else if ptype = PKT_TYPE_STOP_BROADCASTS_ALL_PORTS then process_stop stk cm pHandle (- 1) c m s
      else if ptype = PKT_TYPE_STOP_BROADCASTS_CURRENT_PORT then process_stop stk cm pHandle pHandle c m s
      else if ptype = PKT_TYPE_STOP_DID_BROADCAST
      then do { (cm', s') \<leftarrow> disableDidBroadcast cm pHandle (ucast (hdr_id (hdr (rxPkt c)))) s; Some (0, cm', m, s') }
      else if ptype = PKT_TYPE_NACK \<or> ptype = PKT_TYPE_ACK
      then (case pstAckFnc cm of
              None \<Rightarrow> Some (0, cm, m, s)
            | Some f \<Rightarrow> do { (m', s') \<leftarrow> f pHandle (dptr (pdata (rxPkt c))) ptype m s; Some (0, cm, m', s') })
      else Some (- 1, cm, m, s))"

text \<open>The null test of \<^verbatim>\<open>s_cmPtr\<close>.\<close>

definition processIsb ::
  "nat \<Rightarrow> 's com_manager_t option \<Rightarrow> int \<Rightarrow> is_comm_instance_t \<Rightarrow> cmem \<Rightarrow> 's \<Rightarrow>
   (int \<times> 's com_manager_t option \<times> cmem \<times> 's) option" where
  "processIsb stk s_cmPtr pHandle c m s =
     (case s_cmPtr of
        None \<Rightarrow> Some (- 1, None, m, s)
      | Some cm \<Rightarrow> map_option (\<lambda>(r, cm', m', s'). (r, Some cm', m', s')) (processIsb_cm stk cm pHandle c m s))"

text \<open>The handlers the receive loop calls. They run on the manager and the application state: the
  application's handlers are lifted, the Inertial Sense handler is \<^verbatim>\<open>processIsb\<close>. The instance the
  parser works on is the one in the manager's port table, so it is stored there for the handler
  and fetched back.\<close>

definition lift_gen :: "'s gen_handler \<Rightarrow> ('s com_manager_t \<times> 's) gen_handler" where
  "lift_gen f port p n m = (\<lambda>(cm, s). do { (m', s') \<leftarrow> f port p n m s; Some (m', cm, s') })"

definition lift_comm :: "'s comm_handler \<Rightarrow> ('s com_manager_t \<times> 's) comm_handler" where
  "lift_comm f port m c = (\<lambda>(cm, s). do { (m', c', s') \<leftarrow> f port m c s; Some (m', c', cm, s') })"

definition isb_handler :: "nat \<Rightarrow> ('s com_manager_t \<times> 's) comm_handler" where
  "isb_handler stk port m c = (\<lambda>(cm, s).
     if port < length (ports cm)
     then do { (_, cm', m', s') \<leftarrow> processIsb_cm stk (cm\<lparr>ports := (ports cm)[port := c]\<rparr>) (int port) c m s;
               Some (m', ports cm' ! port, cm', s') }
     else None)"

definition cm_callbacks :: "nat \<Rightarrow> 's is_comm_callbacks_t \<Rightarrow> ('s com_manager_t \<times> 's) is_comm_callbacks_t" where
  "cm_callbacks stk cb =
     \<lparr>cb_isbData = map_option (\<lambda>f port d m. \<lambda>(cm, s). do { (m', s') \<leftarrow> f port d m s; Some (m', cm, s') }) (cb_isbData cb),
      cb_isb = Some (isb_handler stk), cb_nmea = map_option lift_gen (cb_nmea cb),
      cb_ublox = map_option lift_gen (cb_ublox cb), cb_rtcm3 = map_option lift_gen (cb_rtcm3 cb),
      cb_sony = map_option lift_gen (cb_sony cb), cb_sprtn = map_option lift_gen (cb_sprtn cb),
      cb_error = map_option lift_comm (cb_error cb), cb_all = map_option lift_comm (cb_all cb), cb_rmc = None\<rparr>"

definition lift_read :: "'s port_read \<Rightarrow> ('s com_manager_t \<times> 's) port_read" where
  "lift_read f port n = (\<lambda>(cm, s). case f port n s of (k, bs, s') \<Rightarrow> (k, bs, cm, s'))"

fun rx_ports ::
  "nat \<Rightarrow> 's port_read \<Rightarrow> nat \<Rightarrow> nat \<Rightarrow> 's com_manager_t \<Rightarrow> cmem \<Rightarrow> 's \<Rightarrow> ('s com_manager_t \<times> cmem \<times> 's) option" where
  "rx_ports stk rd port 0 cm m s = Some (cm, m, s)"
| "rx_ports stk rd port (Suc n) cm m s =
     (if port < length (ports cm)
      then do { (m', c', cm', s') \<leftarrow> is_comm_port_parse_messages (lift_read rd) port m (ports cm ! port)
                   (cm_callbacks stk (callbacks cm)) (cm, s);
                rx_ports stk rd (Suc port) n (cm'\<lparr>ports := (ports cm')[port := c']\<rparr>) m' s' }
      else None)"

definition comManagerStepRxInstance ::
  "nat \<Rightarrow> 's com_manager_t \<Rightarrow> u32 \<Rightarrow> cmem \<Rightarrow> 's \<Rightarrow> ('s com_manager_t \<times> cmem \<times> 's) option" where
  "comManagerStepRxInstance stk cm timeMs m s =
     (case portRead cm of
        None \<Rightarrow> Some (cm, m, s)
      | Some rd \<Rightarrow> rx_ports stk rd 0 (nat (numPorts cm)) cm m s)"

definition comManagerStepTimeout ::
  "nat \<Rightarrow> 's com_manager_t \<Rightarrow> u32 \<Rightarrow> cmem \<Rightarrow> 's \<Rightarrow> ('s com_manager_t \<times> cmem \<times> 's) option" where
  "comManagerStepTimeout stk cm timeMs m s =
     do { (cm1, m1, s1) \<leftarrow> comManagerStepRxInstance stk cm timeMs m s; comManagerStepTxInstance cm1 m1 s1 }"

definition comManagerStepInstance ::
  "nat \<Rightarrow> 's com_manager_t \<Rightarrow> cmem \<Rightarrow> 's \<Rightarrow> ('s com_manager_t \<times> cmem \<times> 's) option" where
  "comManagerStepInstance stk cm m s =
     do { (cm1, m1, s1) \<leftarrow> comManagerStepRxInstance stk cm 0 m s; comManagerStepTxInstance cm1 m1 s1 }"

end
