(* ===== verification/ComBroadcast.thy ===== *)
theory ComBroadcast
  imports ComManager
begin

text \<open>
  Broadcasting by the communication manager: what transmit steps send over time, and how the
  disable operations and stop messages silence a port. The library part says that a packet whose
  data is inside its object is always written (\<^verbatim>\<open>sendDataPacket\<close>, \<^verbatim>\<open>sendAck\<close>) and reduces one pass
  over the slots to independent ticks of each slot; the properties follow by induction on the number
  of steps.
\<close>

definition sendable :: "'s com_manager_t \<Rightarrow> cmem \<Rightarrow> broadcast_msg_t \<Rightarrow> bool" where
  "sendable cm m b \<longleftrightarrow> portWrite cm \<noteq> None \<and> port_ok cm (bc_pHandle b) \<and> tx_data m (bc_pkt b) \<noteq> None"

definition bump :: "'s com_manager_t \<Rightarrow> nat \<Rightarrow> 's com_manager_t" where
  "bump cm h = cm\<lparr>ports := (ports cm)[h := (ports cm ! h)\<lparr>txPktCount := txPktCount (ports cm ! h) + 1\<rparr>]\<rparr>"

lemma sendDataPacket_ok:
  assumes "portWrite cm \<noteq> None" "port_ok cm h" "tx_data m pkt \<noteq> None"
  shows "\<exists>r ck s'. sendDataPacket cm h pkt m s = Some (r, pkt\<lparr>checksum := ck\<rparr>, bump cm (nat h), s')"
proof -
  obtain w where w: "portWrite cm = Some w" using assms(1) by blast
  obtain bs ck where t: "tx_data m pkt = Some (bs, ck)" using assms(3) by auto
  show ?thesis
    by (simp add: sendDataPacket_def w assms(2) is_comm_write_isb_precomp_to_port_def t Let_def split_beta bump_def
        exI [of _ ck])
qed

definition slot_fires :: "broadcast_msg_t \<Rightarrow> bool" where
  "slot_fires b \<longleftrightarrow> bc_period b = MSG_PERIOD_SEND_ONCE \<or> (bc_period b > 0 \<and> bc_counter b + 1 \<ge> bc_period b)"

definition slot_tick :: "broadcast_msg_t \<Rightarrow> broadcast_msg_t" where
  "slot_tick b =
     (if bc_period b = MSG_PERIOD_SEND_ONCE then b\<lparr>bc_period := 0\<rparr>
      else if bc_period b > 0
      then b\<lparr>bc_counter := (if bc_counter b + 1 \<ge> bc_period b then 0 else bc_counter b + 1)\<rparr>
      else b)"

definition slot_next :: "broadcast_msg_t \<Rightarrow> broadcast_msg_t \<Rightarrow> bool" where
  "slot_next b b' \<longleftrightarrow> (\<exists>ck. b' = (slot_tick b)\<lparr>bc_pkt := (bc_pkt b)\<lparr>checksum := ck\<rparr>\<rparr>)"

definition no_prep :: "'s com_manager_t \<Rightarrow> broadcast_msg_t \<Rightarrow> bool" where
  "no_prep cm b \<longleftrightarrow> Option.is_none (preTxFnc (regData cm (unat (hdr_id (hdr (bc_pkt b))))))"

definition slot_ready :: "'s com_manager_t \<Rightarrow> cmem \<Rightarrow> broadcast_msg_t \<Rightarrow> bool" where
  "slot_ready cm m b \<longleftrightarrow>
     (bc_period b = MSG_PERIOD_SEND_ONCE \<or> bc_period b > 0 \<longrightarrow> sendable cm m b \<and> no_prep cm b) \<and>
     (bc_period b > 0 \<longrightarrow> bc_counter b < bc_period b)"

lemma send_slot_ok:
  assumes "slot_ready cm m b"
  shows "\<exists>b' s'. send_slot cm b m s =
     Some (b', if slot_fires b then bump cm (nat (bc_pHandle b)) else cm, m, s') \<and> slot_next b b'"
proof (cases "slot_fires b")
  case True
  then have s: "sendable cm m b" "no_prep cm b" using assms by (auto simp: slot_ready_def slot_fires_def)
  obtain r ck s' where e: "sendDataPacket cm (bc_pHandle b) (bc_pkt b) m s =
      Some (r, (bc_pkt b)\<lparr>checksum := ck\<rparr>, bump cm (nat (bc_pHandle b)), s')"
    using sendDataPacket_ok [of cm "bc_pHandle b" m "bc_pkt b" s] s(1) unfolding sendable_def by blast
  show ?thesis using True s(2) e
    by (auto simp: send_slot_def slot_fires_def call_preTx_def no_prep_def slot_next_def slot_tick_def
        disableBroadcastMsg_def Option.is_none_def intro!: exI [of _ ck] split: option.splits)
next
  case False
  show ?thesis using False
    by (cases b) (auto simp: send_slot_def slot_fires_def slot_next_def slot_tick_def
        intro!: exI [of _ "checksum (bc_pkt b)"])
qed

text \<open>The number of packets a slot sends in \<open>n\<close> transmit steps.\<close>

definition slot_sends :: "broadcast_msg_t \<Rightarrow> nat \<Rightarrow> nat" where
  "slot_sends b n =
     (if bc_period b = MSG_PERIOD_SEND_ONCE then (if n = 0 then 0 else 1)
      else if bc_period b > 0 then nat ((int n + bc_counter b) div bc_period b) else 0)"

definition port_sends :: "nat \<Rightarrow> broadcast_msg_t list \<Rightarrow> nat \<Rightarrow> nat" where
  "port_sends h bs n = (\<Sum>b\<leftarrow>bs. if bc_pHandle b = int h then slot_sends b n else 0)"

lemma slot_sends_Suc:
  assumes "bc_period b > 0 \<longrightarrow> bc_counter b < bc_period b" "slot_next b b'"
  shows "slot_sends b (Suc n) = slot_sends b' n + (if slot_fires b then 1 else 0)"
proof (cases "bc_period b > 0 \<and> bc_counter b + 1 \<ge> bc_period b")
  case True
  then have c: "bc_counter b = bc_period b - 1" using assms(1) by simp
  have "(int (Suc n) + bc_counter b) div bc_period b = int n div bc_period b + 1"
    using True div_add_self2 [of "bc_period b" "int n"] by (simp add: c)
  then show ?thesis using True assms(2)
    by (auto simp: slot_sends_def slot_next_def slot_tick_def slot_fires_def nat_add_distrib pos_imp_zdiv_nonneg_iff)
next
  case False
  then show ?thesis using assms(2)
    by (auto simp: slot_sends_def slot_next_def slot_tick_def slot_fires_def add.commute add.left_commute split: if_splits)
qed

lemma slot_sends_0: "bc_period b > 0 \<longrightarrow> bc_counter b < bc_period b \<Longrightarrow> slot_sends b 0 = 0"
  by (auto simp: slot_sends_def) (metis div_pos_pos_trivial div_neg_pos_less0 nat_0_iff not_le order.order_iff_strict verit_comp_simplify1(3))

definition with_ports :: "'s com_manager_t \<Rightarrow> 's com_manager_t \<Rightarrow> bool" where
  "with_ports cm cm' \<longleftrightarrow> (\<exists>ps. length ps = length (ports cm) \<and> cm' = cm\<lparr>ports := ps\<rparr>)"

lemma with_ports_simps:
  assumes "with_ports cm cm'"
  shows "portWrite cm' = portWrite cm" "txFree cm' = txFree cm" "regData cm' = regData cm"
    "broadcastMessages cm' = broadcastMessages cm" "length (ports cm') = length (ports cm)"
  using assms by (auto simp: with_ports_def)

lemma with_ports_bump: "with_ports cm (bump cm h)"
  unfolding with_ports_def bump_def
  by (intro exI [of _ "(ports cm)[h := (ports cm ! h)\<lparr>txPktCount := txPktCount (ports cm ! h) + 1\<rparr>]"]) simp

lemma with_ports_trans: "with_ports a b \<Longrightarrow> with_ports b c \<Longrightarrow> with_ports a c"
  by (auto simp: with_ports_def)

lemma with_ports_ready: "with_ports cm cm' \<Longrightarrow> slot_ready cm' m b = slot_ready cm m b"
  by (simp add: slot_ready_def sendable_def no_prep_def port_ok_def with_ports_simps)

lemma slot_next_ready:
  assumes "slot_next b b'" "slot_ready cm m b"
  shows "slot_ready cm m b'" "bc_pHandle b' = bc_pHandle b"
proof -
  obtain ck where b': "b' = (slot_tick b)\<lparr>bc_pkt := (bc_pkt b)\<lparr>checksum := ck\<rparr>\<rparr>"
    using assms(1) by (auto simp: slot_next_def)
  have t: "tx_data m (bc_pkt b') = tx_data m (bc_pkt b)" "hdr (bc_pkt b') = hdr (bc_pkt b)"
    by (simp_all add: b' tx_data_def)
  show h: "bc_pHandle b' = bc_pHandle b" by (simp add: b' slot_tick_def)
  have "sendable cm m b' = sendable cm m b" "no_prep cm b' = no_prep cm b"
    by (simp_all add: sendable_def no_prep_def t h)
  then show "slot_ready cm m b'" using assms(2) by (auto simp: slot_ready_def b' slot_tick_def split: if_splits)
qed

definition tx_count :: "'s com_manager_t \<Rightarrow> nat \<Rightarrow> u32" where
  "tx_count cm h = txPktCount (ports cm ! h)"

lemma tx_count_bump:
  "k < length (ports cm) \<Longrightarrow> tx_count (bump cm k) h = tx_count cm h + (if h = k then 1 else 0)"
  by (auto simp: tx_count_def bump_def nth_list_update)

lemma send_loop_ok:
  assumes "txFree cm = None" "\<forall>b \<in> set bs. slot_ready cm m b"
  shows "\<exists>bs' cm' s'. send_loop cm bs m s = Some (bs', cm', m, s') \<and> list_all2 slot_next bs bs' \<and>
     with_ports cm cm' \<and>
     (\<forall>h. tx_count cm' h = tx_count cm h + of_nat (\<Sum>b\<leftarrow>bs. if bc_pHandle b = int h \<and> slot_fires b then 1 else 0))"
  using assms
proof (induction bs arbitrary: cm s)
  case Nil
  have "with_ports cm cm" unfolding with_ports_def by (intro exI [of _ "ports cm"]) simp
  then show ?case by simp
next
  case (Cons b bs)
  define cm1 where "cm1 = (if slot_fires b then bump cm (nat (bc_pHandle b)) else cm)"
  obtain b' s1 where b: "send_slot cm b m s = Some (b', cm1, m, s1)" "slot_next b b'"
    using send_slot_ok [of cm m b s] Cons(3) unfolding cm1_def by (metis list.set_intros(1))
  have w: "with_ports cm cm1" unfolding cm1_def with_ports_def
    using with_ports_bump [of cm] by (auto simp: with_ports_def intro!: exI [of _ "ports cm"])
  obtain bs' cm' s' where r: "send_loop cm1 bs m s1 = Some (bs', cm', m, s')" "list_all2 slot_next bs bs'"
    "with_ports cm1 cm'"
    "\<And>h. tx_count cm' h = tx_count cm1 h + of_nat (\<Sum>b\<leftarrow>bs. if bc_pHandle b = int h \<and> slot_fires b then 1 else 0)"
    using Cons(1) [of cm1 s1] Cons(2,3) with_ports_simps [OF w] with_ports_ready [OF w] by auto
  have ok: "port_ok cm (bc_pHandle b)" if "slot_fires b"
    using Cons(3) that by (auto simp: slot_ready_def slot_fires_def sendable_def)
  have "tx_count cm1 h = tx_count cm h + (if bc_pHandle b = int h \<and> slot_fires b then 1 else 0)" for h
    using ok by (auto simp: cm1_def tx_count_bump port_ok_def)
  then have "tx_count cm' h = tx_count cm h +
      of_nat (\<Sum>b\<leftarrow>b # bs. if bc_pHandle b = int h \<and> slot_fires b then 1 else 0)" for h
    using r(4) by simp
  then show ?case using b r Cons(2) with_ports_trans [OF w r(3)] by (auto simp: tx_room_def)
qed

primrec tx_steps :: "nat \<Rightarrow> 's com_manager_t \<Rightarrow> cmem \<Rightarrow> 's \<Rightarrow> ('s com_manager_t \<times> cmem \<times> 's) option" where
  "tx_steps 0 cm m s = Some (cm, m, s)"
| "tx_steps (Suc n) cm m s =
     do { (cm1, m1, s1) \<leftarrow> comManagerStepTxInstance cm m s; tx_steps n cm1 m1 s1 }"

lemma port_sends_Suc:
  assumes "list_all2 slot_next bs bs'" "\<forall>b \<in> set bs. slot_ready cm m b"
  shows "port_sends h bs (Suc n) =
    (\<Sum>b\<leftarrow>bs. if bc_pHandle b = int h \<and> slot_fires b then 1 else 0) + port_sends h bs' n"
  using assms
proof (induction rule: list_all2_induct)
  case (Cons b bs b' bs')
  have rb: "slot_ready cm m b" using Cons(4) by simp
  have "bc_pHandle b' = bc_pHandle b" "bc_period b > 0 \<longrightarrow> bc_counter b < bc_period b"
    using slot_next_ready(2) [OF Cons(1) rb] rb by (simp_all add: slot_ready_def)
  then show ?case using Cons slot_sends_Suc [OF _ Cons(1), of n] by (simp add: port_sends_def)
qed (simp add: port_sends_def)

lemma port_sends_0: "\<forall>b \<in> set bs. slot_ready cm m b \<Longrightarrow> port_sends h bs 0 = 0"
proof (induction bs)
  case (Cons b bs)
  have "slot_sends b 0 = 0" using Cons(2) slot_sends_0 [of b] by (simp add: slot_ready_def)
  then show ?case using Cons by (simp add: port_sends_def)
qed (simp add: port_sends_def)

text \<open>C10: when every slot can be sent and no transmit limit is set, \<open>n\<close> transmit steps return and send
  on each port exactly the packets of its slots: a slot of period \<open>p\<close> whose counter is \<open>c\<close> sends
  \<open>(n + c) div p\<close> of them, one to be sent once sends one at the first step. A slot just enabled has
  counter -1 and so stays quiet for a whole period before its first packet.\<close>

theorem broadcast_schedule:
  assumes "txFree cm = None" "broadcastMessages cm = Some bcs" "\<forall>b \<in> set bcs. slot_ready cm m b"
  shows "\<exists>cm' s'. tx_steps n cm m s = Some (cm', m, s') \<and>
     (\<forall>h. txPktCount (ports cm' ! h) = txPktCount (ports cm ! h) + of_nat (port_sends h bcs n))"
  using assms
proof (induction n arbitrary: cm bcs s)
  case 0
  then show ?case by (simp add: port_sends_0)
next
  case (Suc n)
  obtain bs1 cm1 s1 where l: "send_loop cm bcs m s = Some (bs1, cm1, m, s1)" "list_all2 slot_next bcs bs1"
    "with_ports cm cm1"
    "\<And>h. tx_count cm1 h = tx_count cm h + of_nat (\<Sum>b\<leftarrow>bcs. if bc_pHandle b = int h \<and> slot_fires b then 1 else 0)"
    using send_loop_ok [OF Suc(2,4), of s] by blast
  let ?cm = "cm1\<lparr>broadcastMessages := Some bs1\<rparr>"
  have r: "\<forall>b \<in> set bs1. slot_ready ?cm m b"
  proof
    fix b' assume "b' \<in> set bs1"
    then obtain b where "b \<in> set bcs" "slot_next b b'"
      using l(2) by (metis in_set_conv_nth list_all2_conv_all_nth)
    then have "slot_ready cm1 m b'" using slot_next_ready(1) Suc(4) with_ports_ready [OF l(3)] by blast
    then show "slot_ready ?cm m b'" by (simp add: slot_ready_def sendable_def no_prep_def port_ok_def)
  qed
  obtain cm' s' where s: "tx_steps n ?cm m s1 = Some (cm', m, s')"
    "\<And>h. tx_count cm' h = tx_count ?cm h + of_nat (port_sends h bs1 n)"
    using Suc(1) [of ?cm bs1 s1] r Suc(2) with_ports_simps [OF l(3)] by (auto simp: tx_count_def)
  have "tx_steps (Suc n) cm m s = Some (cm', m, s')"
    using Suc(3) l(1) s(1) by (simp add: comManagerStepTxInstance_def stepComManagerSendMessagesInstance_def)
  moreover have "tx_count cm' h = tx_count cm h + of_nat (port_sends h bcs (Suc n))" for h
    using s(2) [of h] l(4) [of h] port_sends_Suc [OF l(2) Suc(4), of h n] by (simp add: tx_count_def)
  ultimately show ?case by (simp add: tx_count_def)
qed

text \<open>A manager with one port that appends what it writes to the application state.\<close>

definition demo_cm :: "u8 list com_manager_t" where
  "demo_cm = com_manager_zero\<lparr>portWrite := Some (\<lambda>_ bs s. (int (length bs), s @ bs)), ports := [demo_comm],
     numPorts := 1, stepPeriodMilliseconds := 1,
     broadcastMessages := Some (replicate 12 bcast_zero)\<rparr>"

definition demo_slot :: broadcast_msg_t where
  "demo_slot = \<lparr>bc_pkt = is_comm_encode_hdr packet_zero PKT_TYPE_DATA 4 0 0 Null, bc_counter = - 1, bc_period = 2,
     bc_pHandle = 0\<rparr>"

lemma broadcast_schedule_witness:
  "\<exists>cm' s'. tx_steps 5 (demo_cm\<lparr>broadcastMessages := Some (demo_slot # replicate 11 bcast_zero)\<rparr>) demo_mem [] =
     Some (cm', demo_mem, s') \<and> txPktCount (ports cm' ! 0) = txPktCount demo_comm + 2"
proof -
  let ?cm = "demo_cm\<lparr>broadcastMessages := Some (demo_slot # replicate 11 bcast_zero)\<rparr>"
  have r: "\<forall>b \<in> set (demo_slot # replicate 11 bcast_zero). slot_ready ?cm demo_mem b"
    by (simp add: slot_ready_def sendable_def no_prep_def demo_cm_def demo_slot_def bcast_zero_def com_manager_zero_def
        port_ok_def tx_data_def encode_hdr_simps)
  have p: "port_sends 0 (demo_slot # replicate 11 bcast_zero) 5 = 2"
    by (simp add: port_sends_def slot_sends_def demo_slot_def bcast_zero_def sum_list_replicate)
  show ?thesis
    using broadcast_schedule [of ?cm "demo_slot # replicate 11 bcast_zero" demo_mem 5 "[]"] r p
    by (auto simp: demo_cm_def com_manager_zero_def)
qed

section \<open>Disabling\<close>

text \<open>A step with no active slot only asks for room.\<close>

lemma send_loop_idle:
  "\<forall>b \<in> set bs. bc_period b = 0 \<Longrightarrow> \<exists>s'. send_loop cm bs m s = Some (bs, cm, m, s')"
proof (induction bs arbitrary: s)
  case (Cons b bs)
  obtain room s1 where t: "tx_room cm (bc_pHandle b) (pkt_size (bc_pkt b)) s = (room, s1)" by (meson surj_pair)
  show ?case using Cons(1) [of s1] Cons(2) by (auto simp: t send_slot_def)
qed simp

lemma send_slot_port:
  assumes "send_slot cm b m s = Some (b', cm', m', s')"
  shows "bc_pHandle b' = bc_pHandle b" "bc_period b = 0 \<Longrightarrow> bc_period b' = 0"
    "bc_period b = 0 \<or> bc_pHandle b \<noteq> int h \<Longrightarrow> ports cm' ! h = ports cm ! h"
    "length (ports cm') = length (ports cm)"
  using assms
  by (auto simp: send_slot_def sendDataPacket_def port_ok_def disableBroadcastMsg_def
      split: if_splits option.splits bind_splits)

definition silent :: "int \<Rightarrow> broadcast_msg_t list \<Rightarrow> bool" where
  "silent h bs \<longleftrightarrow> (\<forall>b \<in> set bs. bc_period b = 0 \<or> bc_pHandle b \<noteq> h)"

lemma send_loop_silent:
  assumes "send_loop cm bs m s = Some (bs', cm', m', s')" "silent (int h) bs"
  shows "silent (int h) bs' \<and> ports cm' ! h = ports cm ! h"
  using assms
proof (induction bs arbitrary: cm m s bs')
  case (Cons b bs)
  obtain room s1 where t: "tx_room cm (bc_pHandle b) (pkt_size (bc_pkt b)) s = (room, s1)" by (meson surj_pair)
  show ?case
  proof (cases room)
    case True
    then obtain b1 cm1 m1 s2 bs1 where u: "send_slot cm b m s1 = Some (b1, cm1, m1, s2)"
      "send_loop cm1 bs m1 s2 = Some (bs1, cm', m', s')" "bs' = b1 # bs1"
      using Cons(2) by (auto simp: t split: bind_splits)
    have "silent (int h) bs" "bc_period b = 0 \<or> bc_pHandle b \<noteq> int h" using Cons(3) by (auto simp: silent_def)
    then show ?thesis using Cons(1) [OF u(2)] send_slot_port [OF u(1)] u(3) by (auto simp: silent_def)
  qed (use Cons t in auto)
qed simp

lemma tx_steps_silent:
  assumes "tx_steps n cm m s = Some (cm', m', s')" "broadcastMessages cm = Some bs" "silent (int h) bs"
  shows "ports cm' ! h = ports cm ! h"
  using assms
proof (induction n arbitrary: cm m s bs)
  case (Suc n)
  obtain bs1 cm1 m1 s1 where u: "send_loop cm bs m s = Some (bs1, cm1, m1, s1)"
    "tx_steps n (cm1\<lparr>broadcastMessages := Some bs1\<rparr>) m1 s1 = Some (cm', m', s')"
    using Suc(2,3)
    by (auto simp: comManagerStepTxInstance_def stepComManagerSendMessagesInstance_def split: bind_splits)
  have "silent (int h) bs1" "ports cm1 ! h = ports cm ! h"
    using send_loop_silent [OF u(1) Suc(4)] by simp_all
  then show ?case using Suc(1) [OF u(2)] by simp
qed simp

lemma disable_silent:
  "broadcastMessages cm = Some bs \<Longrightarrow>
   comManagerDisableBroadcastsInstance cm h =
     Some (cm\<lparr>broadcastMessages := Some (map (\<lambda>b. if h < 0 \<or> bc_pHandle b = h then disableBroadcastMsg b else b) bs)\<rparr>) \<and>
   silent h (map (\<lambda>b. if h < 0 \<or> bc_pHandle b = h then disableBroadcastMsg b else b) bs)"
  by (simp add: comManagerDisableBroadcastsInstance_def) (simp add: silent_def disableBroadcastMsg_def ball_Un)

text \<open>After the broadcasts of all ports are disabled any number of transmit steps returns and
  changes neither the manager nor the memory, whatever the application's functions are: nothing is
  sent until a slot is enabled again.\<close>

theorem disable_all_silences:
  assumes "broadcastMessages cm = Some bcs" "h < 0"
  shows "\<exists>cm1. comManagerDisableBroadcastsInstance cm h = Some cm1 \<and> (\<exists>s'. tx_steps n cm1 m s = Some (cm1, m, s'))"
proof -
  let ?bs = "map (\<lambda>b. if h < 0 \<or> bc_pHandle b = h then disableBroadcastMsg b else b) bcs"
  let ?cm = "cm\<lparr>broadcastMessages := Some ?bs\<rparr>"
  have idle: "\<forall>b \<in> set ?bs. bc_period b = 0" using assms(2) by (auto simp: disableBroadcastMsg_def)
  have "\<exists>s'. tx_steps n ?cm m s = Some (?cm, m, s')"
  proof (induction n arbitrary: s)
    case (Suc n)
    obtain s1 where "send_loop ?cm ?bs m s = Some (?bs, ?cm, m, s1)" using send_loop_idle [OF idle, of ?cm m s] by blast
    then show ?case using Suc [of s1]
      by (simp add: comManagerStepTxInstance_def stepComManagerSendMessagesInstance_def)
  qed simp
  then show ?thesis using disable_silent [OF assms(1)] by blast
qed

lemma disable_all_silences_witness:
  "\<exists>cm1. comManagerDisableBroadcastsInstance (demo_cm\<lparr>broadcastMessages := Some [demo_slot]\<rparr>) (- 1) = Some cm1 \<and>
     (\<exists>s'. tx_steps 9 cm1 demo_mem [] = Some (cm1, demo_mem, s'))"
  by (rule disable_all_silences [of _ "[demo_slot]"]) simp_all

lemma comManagerSendInstance_ok:
  assumes "portWrite cm \<noteq> None" "port_ok cm h" "tx_data m (is_comm_encode_hdr packet_zero fl did sz off p) \<noteq> None"
  shows "\<exists>r s'. comManagerSendInstance cm h fl p did sz off m s = Some (r, bump cm (nat h), s')"
proof -
  obtain w where w: "portWrite cm = Some w" using assms(1) by blast
  obtain bs ck where t: "tx_data m (is_comm_encode_hdr packet_zero fl did sz off p) = Some (bs, ck)" using assms(3) by auto
  show ?thesis
    by (simp add: comManagerSendInstance_def is_comm_write_def is_comm_write_pkt_def w assms(2)
        is_comm_write_isb_precomp_to_port_def t Let_def split_beta bump_def)
qed

lemma tx_data_local:
  "length bs = unat n \<Longrightarrow> tx_data (m(stk := bs)) (is_comm_encode_hdr packet_zero fl did n off (Ptr stk 0)) \<noteq> None"
  by (simp add: tx_data_def encode_hdr_simps rd_ptr_def rd_bytes_def ucast_u16_u32)

lemma sendAck_ok:
  assumes "portWrite cm \<noteq> None" "port_ok cm h"
    and "flags (hdr pkt) AND PKT_TYPE_MASK = PKT_TYPE_SET_DATA \<longrightarrow> rd_ptr m (dptr (pdata pkt)) 5 \<noteq> None"
  shows "\<exists>s'. sendAck stk cm h pkt fl m s = Some (bump cm (nat h), s')"
proof -
  obtain body where b: "(if flags (hdr pkt) AND PKT_TYPE_MASK = PKT_TYPE_SET_DATA
      then rd_ptr m (dptr (pdata pkt)) 5 else Some (replicate 5 0)) = Some body" "length body = 5"
  proof (cases "flags (hdr pkt) AND PKT_TYPE_MASK = PKT_TYPE_SET_DATA")
    case True
    then obtain bs where "rd_ptr m (dptr (pdata pkt)) 5 = Some bs" using assms(3) by blast
    then show ?thesis using True that by (auto simp: rd_ptr_def rd_bytes_def split: cptr.splits if_splits)
  next
    case False
    then show ?thesis using that [of "replicate 5 0"] by simp
  qed
  let ?a = "u16_bytes (ucast (flags (hdr pkt))) @ u16_bytes 0 @ body"
  have l: "length ?a = unat (9 :: u16)" using b(2) by simp
  obtain r s' where "comManagerSendInstance cm h fl (Ptr stk 0) 0 9 0 (m(stk := ?a)) s = Some (r, bump cm (nat h), s')"
    using comManagerSendInstance_ok [OF assms(1,2), of "m(stk := ?a)" fl 0 9 0 "Ptr stk 0" s] tx_data_local [OF l] by blast
  then show ?thesis using b(1) unfolding sendAck_def by simp
qed

text \<open>C19: a stop message for the current port is processed: it is acknowledged with exactly one packet
  on that port, and however often the manager steps afterwards it sends nothing more there until a
  slot is enabled again.\<close>

theorem stop_message_silences_port:
  assumes "is_comm_to_isb_pkt_type c = PKT_TYPE_STOP_BROADCASTS_CURRENT_PORT" "broadcastMessages cm = Some bcs"
    and "portWrite cm \<noteq> None" "h < length (ports cm)"
  shows "\<exists>cm1 s1. processIsb_cm stk cm (int h) c m s = Some (0, cm1, m, s1) \<and>
     txPktCount (ports cm1 ! h) = txPktCount (ports cm ! h) + 1 \<and>
     (\<forall>n m' s' cm2 m2 s2. tx_steps n cm1 m' s' = Some (cm2, m2, s2) \<longrightarrow> ports cm2 ! h = ports cm1 ! h)"
proof -
  obtain bs cm0 where d: "comManagerDisableBroadcastsInstance cm (int h) = Some cm0"
    "cm0 = cm\<lparr>broadcastMessages := Some bs\<rparr>" "silent (int h) bs"
    using disable_silent [OF assms(2), of "int h"] by blast
  define s0 where "s0 = (case disableBcastFnc cm of None \<Rightarrow> s | Some f \<Rightarrow> f (int h) s)"
  have k: "portWrite cm0 \<noteq> None" "port_ok cm0 (int h)" using assms(3,4) d(2) by (simp_all add: port_ok_def)
  have nf: "flags (hdr (rxPkt c)) AND PKT_TYPE_MASK = PKT_TYPE_SET_DATA \<longrightarrow> rd_ptr m (dptr (pdata (rxPkt c))) 5 \<noteq> None"
    using assms(1) by (simp add: is_comm_to_isb_pkt_type_def)
  obtain s1 where a: "sendAck stk cm0 (int h) (rxPkt c) PKT_TYPE_ACK m s0 = Some (bump cm0 h, s1)"
    using sendAck_ok [OF k nf] by (metis nat_int)
  have "processIsb_cm stk cm (int h) c m s = Some (0, bump cm0 h, m, s1)"
    using assms(1) d(1) a by (simp add: processIsb_cm_def process_stop_def s0_def)
  moreover have b: "broadcastMessages (bump cm0 h) = Some bs" by (simp add: bump_def d(2))
  moreover have "txPktCount (ports (bump cm0 h) ! h) = txPktCount (ports cm ! h) + 1"
    using assms(4) by (simp add: bump_def d(2))
  moreover have "\<forall>n m' s' cm2 m2 s2. tx_steps n (bump cm0 h) m' s' = Some (cm2, m2, s2) \<longrightarrow>
      ports cm2 ! h = ports (bump cm0 h) ! h"
    using tx_steps_silent [OF _ b d(3)] by blast
  ultimately show ?thesis by (intro exI conjI)
qed

lemma stop_message_silences_port_witness:
  "\<exists>cm1 s1. processIsb_cm 9 (demo_cm\<lparr>broadcastMessages := Some [demo_slot]\<rparr>) (int 0)
       (demo_comm\<lparr>rxPkt := packet_zero\<lparr>hdr := \<lparr>preamble = 0x49EF, flags = 8, hdr_id = 0, payloadSize = 0\<rparr>\<rparr>\<rparr>)
       demo_mem [] = Some (0, cm1, demo_mem, s1) \<and>
     txPktCount (ports cm1 ! 0) = txPktCount demo_comm + 1"
  using stop_message_silences_port [of "demo_comm\<lparr>rxPkt := packet_zero\<lparr>hdr := \<lparr>preamble = 0x49EF, flags = 8, hdr_id = 0, payloadSize = 0\<rparr>\<rparr>\<rparr>"
      "demo_cm\<lparr>broadcastMessages := Some [demo_slot]\<rparr>" "[demo_slot]" 0 9 demo_mem "[]"]
  by (auto simp: demo_cm_def is_comm_to_isb_pkt_type_def)

end
