(* ===== verification/ComRequest.thy ===== *)
theory ComRequest
  imports ComBroadcast
begin

text \<open>
  Requests to the communication manager: which slot a request takes, what it sends, what it leaves
  in the slot, and the fate of repeated requests.
\<close>

lemma find_index_from_Some:
  "find_index_from k P xs = Some i \<Longrightarrow>
   k \<le> i \<and> i - k < length xs \<and> P (xs ! (i - k)) \<and> (\<forall>j < i - k. \<not> P (xs ! j))"
proof (induction xs arbitrary: k)
  case (Cons x xs)
  show ?case
  proof (cases "P x")
    case False
    then have r: "Suc k \<le> i" "i - Suc k < length xs" "P (xs ! (i - Suc k))" "\<forall>j < i - Suc k. \<not> P (xs ! j)"
      using Cons(1) [of "Suc k"] Cons(2) by auto
    then have e: "i - k = Suc (i - Suc k)" by simp
    show ?thesis using r False unfolding e by (auto simp: less_Suc_eq_0_disj)
  qed (use Cons in auto)
qed simp

lemma find_index_from_None: "find_index_from k P xs = None \<longleftrightarrow> (\<forall>x \<in> set xs. \<not> P x)"
  by (induction xs arbitrary: k) auto

lemma find_index_from_eq:
  assumes "i < length xs" "P (xs ! i)" "\<forall>j < i. \<not> P (xs ! j)"
  shows "find_index_from k P xs = Some (k + i)"
  using assms
proof (induction xs arbitrary: k i)
  case (Cons x xs)
  show ?case
  proof (cases i)
    case (Suc n)
    then have "\<not> P x" "find_index_from (Suc k) P xs = Some (Suc k + n)"
      using Cons(1) [of n "Suc k"] Cons(2-4) by force+
    then show ?thesis using Suc by simp
  qed (use Cons in simp)
qed simp

text \<open>The slot a request takes: the first one that matches; if there is none, the first free one; if
  all are in use, the last.\<close>

definition slot_choice :: "broadcast_msg_t list \<Rightarrow> int \<Rightarrow> p_data_get_t \<Rightarrow> nat \<Rightarrow> bool" where
  "slot_choice bcs h req i \<longleftrightarrow>
     i < length bcs \<and>
     (if \<exists>b \<in> set bcs. slot_matches h req b
      then slot_matches h req (bcs ! i) \<and> (\<forall>j < i. \<not> slot_matches h req (bcs ! j))
      else if \<exists>b \<in> set bcs. bc_period b \<le> 0
      then bc_period (bcs ! i) \<le> 0 \<and> (\<forall>j < i. bc_period (bcs ! j) > 0)
      else i = length bcs - 1)"

lemma request_slot_choice:
  assumes "length bcs = MAX_NUM_BCAST_MSGS"
  shows "slot_choice bcs h req (request_slot bcs h req)"
proof (cases "find_index_from 0 (slot_matches h req) bcs")
  case (Some i)
  then show ?thesis using find_index_from_Some [OF Some]
    by (auto simp: request_slot_def slot_choice_def)
next
  case None
  then have n: "\<forall>b \<in> set bcs. \<not> slot_matches h req b" by (simp add: find_index_from_None)
  show ?thesis
  proof (cases "find_index_from 0 (\<lambda>b. bc_period b \<le> MSG_PERIOD_DISABLED) bcs")
    case (Some i)
    then have p: "i < length bcs" "bc_period (bcs ! i) \<le> 0" "\<forall>j < i. bc_period (bcs ! j) > 0"
      using find_index_from_Some [OF Some] by auto
    then have "\<exists>b \<in> set bcs. bc_period b \<le> 0" using nth_mem by blast
    then show ?thesis using p n None Some by (simp add: request_slot_def slot_choice_def)
  next
    case no: None
    then have "\<forall>b \<in> set bcs. \<not> bc_period b \<le> 0" by (simp add: find_index_from_None)
    then show ?thesis using n None no assms by (auto simp: request_slot_def slot_choice_def)
  qed
qed

lemma request_slot_again:
  assumes "length bcs = MAX_NUM_BCAST_MSGS" "slot_matches h req msg"
  shows "request_slot (bcs[request_slot bcs h req := msg]) h req = request_slot bcs h req"
proof -
  let ?i = "request_slot bcs h req"
  have c: "slot_choice bcs h req ?i" by (rule request_slot_choice [OF assms(1)])
  have "\<forall>j < ?i. \<not> slot_matches h req (bcs ! j)"
    using c by (force simp: slot_choice_def split: if_splits)
  then have "find_index_from 0 (slot_matches h req) (bcs[?i := msg]) = Some (0 + ?i)"
    using c assms(2) by (intro find_index_from_eq) (simp_all add: slot_choice_def)
  then show ?thesis by (simp add: request_slot_def)
qed

text \<open>The packet a request leaves in its slot.\<close>

definition request_pkt :: "'s com_manager_t \<Rightarrow> packet_t \<Rightarrow> p_data_get_t \<Rightarrow> packet_t" where
  "request_pkt cm old req =
     is_comm_encode_hdr old PKT_TYPE_DATA (g_id req) (g_size req) (g_offset req)
       (request_data (dataSet (regData cm (unat (g_id req)))) (g_offset req))"

lemma request_pkt_matches:
  assumes "bc_pkt msg = (request_pkt cm old req)\<lparr>checksum := ck\<rparr>" "bc_pHandle msg = h" "g_id req < DID_COUNT"
  shows "slot_matches h req msg \<longleftrightarrow> g_offset req = 0"
proof -
  have "unat (g_id req) < 256" using assms(3) by (simp add: word_less_nat_alt)
  then have i: "ucast (ucast (g_id req) :: u8) = g_id req"
    by (intro word_unat_eq_iff [THEN iffD2]) (simp add: unsigned_ucast_eq unsigned_take_bit_eq take_bit_nat_eq_self)
  have "g_size req + 2 \<noteq> g_size req" by simp
  then show ?thesis
    by (auto simp: slot_matches_def assms(1,2) request_pkt_def encode_hdr_simps isb_hdr_def i)
qed

text \<open>What a request needs to be answered: the data set can be read, the port can be written, no
  other party handles it.\<close>

definition request_ready :: "'s com_manager_t \<Rightarrow> int \<Rightarrow> p_data_get_t \<Rightarrow> cmem \<Rightarrow> bool" where
  "request_ready cm h req m \<longleftrightarrow>
     g_id req < DID_COUNT \<and> g_id req \<noteq> DID_REFERENCE_IMU \<and> Option.is_none (cb_rmc (callbacks cm)) \<and>
     Option.is_none (txFree cm) \<and> \<not> Option.is_none (portWrite cm) \<and> port_ok cm h \<and> stepPeriodMilliseconds cm > 0 \<and>
     Option.is_none (preTxFnc (regData cm (unat (g_id req)))) \<and>
     (let r = request_fit (dataSet (regData cm (unat (g_id req)))) (request_default cm req)
      in \<not> Option.is_none (tx_data m (request_pkt cm packet_zero r)))"

definition request_final :: "'s com_manager_t \<Rightarrow> p_data_get_t \<Rightarrow> p_data_get_t" where
  "request_final cm req =
     (request_fit (dataSet (regData cm (unat (g_id req)))) (request_default cm req))
       \<lparr>g_period := request_period (g_period req)\<rparr>"

lemma request_fields [simp]:
  "g_id (request_default cm req) = g_id req" "g_period (request_default cm req) = g_period req"
  "g_id (request_fit ds req) = g_id req" "g_period (request_fit ds req) = g_period req"
  by (simp_all add: request_default_def request_fit_def)

lemma tx_data_request_pkt: "tx_data m (request_pkt cm old r) = tx_data m (request_pkt cm packet_zero r)"
  by (simp add: tx_data_def request_pkt_def encode_hdr_simps)

text \<open>A manager with data set 4 registered: two bytes of object 3.\<close>

definition demo_reg :: "u8 list com_manager_t" where
  "demo_reg = comManagerRegisterInstance (demo_cm\<lparr>stepPeriodMilliseconds := 2\<rparr>) 4 None None (Ptr 3 0) (Ptr 3 0) 2 0"

text \<open>C11: a request the manager can answer sends the data at once, exactly one packet, and takes the
  slot \<open>slot_choice\<close> describes; no other slot changes. With a period the slot is left enabled for
  the limited period divided by the step period, and silent for the first period; without, it is
  left disabled. A request that does not fit is turned into one for the whole structure.\<close>

theorem request_enables_broadcast:
  assumes "request_ready cm h req m" "broadcastMessages cm = Some bcs" "length bcs = MAX_NUM_BCAST_MSGS"
    and "g_size (request_default cm req) \<noteq> 0"
  shows "\<exists>i msg cm' s' ck. comManagerGetDataRequestInstance cm h req m s = Some (0, request_final cm req, cm', m, s') \<and>
     slot_choice bcs h (request_final cm req) i \<and> broadcastMessages cm' = Some (bcs[i := msg]) \<and>
     ports cm' = ports (bump cm (nat h)) \<and> bc_pHandle msg = h \<and>
     bc_pkt msg = (request_pkt cm (bc_pkt (bcs ! i)) (request_final cm req))\<lparr>checksum := ck\<rparr> \<and>
     bc_period msg = (if g_period req = 0 then 0 else uint (request_period (g_period req)) div stepPeriodMilliseconds cm) \<and>
     (g_period req \<noteq> 0 \<longrightarrow> bc_counter msg = - 1)"
proof -
  let ?reg = "regData cm (unat (g_id req))"
  define r where "r = request_fit (dataSet ?reg) (request_default cm req)"
  define i where "i = request_slot bcs h r"
  let ?pkt = "request_pkt cm (bc_pkt (bcs ! i)) r"
  have rf: "request_final cm req = r\<lparr>g_period := request_period (g_period req)\<rparr>" by (simp add: request_final_def r_def)
  have rp: "request_pkt cm old (r\<lparr>g_period := q\<rparr>) = request_pkt cm old r" for old q
    by (simp add: request_pkt_def)
  have q: "portWrite cm \<noteq> None" "port_ok cm h" "tx_data m ?pkt \<noteq> None"
    using assms(1) unfolding tx_data_request_pkt [of m cm "bc_pkt (bcs ! i)" r]
    by (auto simp: request_ready_def Option.is_none_def r_def Let_def)
  have n: "txFree cm = None" "cb_rmc (callbacks cm) = None" "preTxFnc ?reg = None" "g_id req < DID_COUNT"
    "g_id req \<noteq> DID_REFERENCE_IMU" "stepPeriodMilliseconds cm > 0"
    using assms(1) by (auto simp: request_ready_def Option.is_none_def)
  obtain t ck s' where sd: "sendDataPacket cm h ?pkt m s = Some (t, ?pkt\<lparr>checksum := ck\<rparr>, bump cm (nat h), s')"
    using sendDataPacket_ok [OF q, of s] by blast
  let ?msg0 = "(bcs ! i)\<lparr>bc_pHandle := h, bc_pkt := ?pkt\<lparr>checksum := ck\<rparr>\<rparr>"
  define msg where "msg = (if g_period req = 0 then disableBroadcastMsg ?msg0
     else ?msg0\<lparr>bc_period := uint (request_period (g_period req)) div stepPeriodMilliseconds cm, bc_counter := - 1\<rparr>)"
  have rid: "g_id r = g_id req" by (simp add: r_def)
  have pz: "request_period (g_period req) > 0 \<longleftrightarrow> g_period req \<noteq> 0"
    by (auto simp: request_period_def word_gt_0)
  have up: "uint (request_period (g_period req)) > 0" if "g_period req \<noteq> 0"
    using pz that by (simp add: word_less_def)
  have snd: "request_send cm h ((bcs ! i)\<lparr>bc_pHandle := h, bc_pkt := ?pkt\<rparr>) True (request_period (g_period req)) m s =
      Some (msg, bump cm (nat h), s')"
    using n(6) pz up sd
    by (auto simp: request_send_def tx_room_def n(1) enableBroadcastMsg_def period_div_def msg_def)
  have run: "comManagerGetDataRequestInstance cm h req m s =
      Some (0, request_final cm req, (bump cm (nat h))\<lparr>broadcastMessages := Some (bcs[i := msg])\<rparr>, m, s')"
    using n(4,5) assms(4) snd rid
    by (simp add: comManagerGetDataRequestInstance_def n(2) request_sized_def Let_def request_run_def reg_at_def assms(2)
        call_preTx_def n(3) r_def [symmetric] i_def [symmetric] rf request_pkt_def not_le)
  have ch: "slot_choice bcs h (request_final cm req) i"
  proof -
    have "slot_matches h (request_final cm req) = slot_matches h r" by (simp add: rf slot_matches_def fun_eq_iff)
    then show ?thesis using request_slot_choice [OF assms(3), of h r] by (simp add: slot_choice_def i_def)
  qed
  have m: "bc_pHandle msg = h" "bc_pkt msg = (request_pkt cm (bc_pkt (bcs ! i)) (request_final cm req))\<lparr>checksum := ck\<rparr>"
    "bc_period msg = (if g_period req = 0 then 0 else uint (request_period (g_period req)) div stepPeriodMilliseconds cm)"
    "g_period req \<noteq> 0 \<longrightarrow> bc_counter msg = - 1"
    by (simp_all add: msg_def disableBroadcastMsg_def rf rp)
  show ?thesis using run ch m by (intro exI conjI) (assumption | simp)+
qed

lemma request_enables_broadcast_witness:
  "\<exists>i msg cm' s' ck. comManagerGetDataRequestInstance demo_reg 0 \<lparr>g_id = 4, g_size = 2, g_offset = 0, g_period = 10\<rparr> demo_mem [] =
       Some (0, \<lparr>g_id = 4, g_size = 2, g_offset = 0, g_period = 10\<rparr>, cm', demo_mem, s') \<and>
     slot_choice (replicate 12 bcast_zero) 0 \<lparr>g_id = 4, g_size = 2, g_offset = 0, g_period = 10\<rparr> i \<and>
     broadcastMessages cm' = Some ((replicate 12 bcast_zero)[i := msg]) \<and> bc_period msg = 5"
proof -
  let ?req = "\<lparr>g_id = 4, g_size = 2, g_offset = 0, g_period = 10\<rparr>"
  have d: "request_default demo_reg ?req = ?req" "request_fit (dataSet (regData demo_reg 4)) ?req = ?req"
    by (simp_all add: request_default_def request_fit_def demo_reg_def comManagerRegisterInstance_def demo_cm_def com_manager_zero_def)
  have f: "request_final demo_reg ?req = ?req" "request_period (10) = 10"
    by (simp_all add: request_final_def request_period_def d)
  have r: "request_ready demo_reg 0 ?req demo_mem"
    by (simp add: request_ready_def Let_def d request_pkt_def tx_data_def encode_hdr_simps)
       (simp add: demo_reg_def comManagerRegisterInstance_def demo_cm_def com_manager_zero_def callbacks_zero_def port_ok_def
         rd_ptr_def rd_bytes_def demo_mem_def ptr_add_def request_data_def)
  have b: "broadcastMessages demo_reg = Some (replicate 12 bcast_zero)" "stepPeriodMilliseconds demo_reg = 2"
    by (simp_all add: demo_reg_def comManagerRegisterInstance_def demo_cm_def)
  show ?thesis
    using request_enables_broadcast [OF r b(1), of "[]"] by (simp add: d f b(2)) blast
qed

text \<open>A request that matches no slot, and leaves in its slot a packet that it does not match.\<close>

lemma request_slot_unmatched:
  assumes "length bcs = MAX_NUM_BCAST_MSGS" "\<forall>b \<in> set bcs. \<not> slot_matches h req b" "\<not> slot_matches h req msg"
  shows "request_slot (bcs[request_slot bcs h req := msg]) h req = request_slot bcs h req \<longleftrightarrow>
    bc_period msg \<le> 0 \<or> request_slot bcs h req = MAX_NUM_BCAST_MSGS - 1"
proof -
  let ?i = "request_slot bcs h req"
  let ?bcs = "bcs[?i := msg]"
  let ?j = "request_slot ?bcs h req"
  have i: "slot_choice bcs h req ?i" by (rule request_slot_choice [OF assms(1)])
  have len: "length ?bcs = MAX_NUM_BCAST_MSGS" using assms(1) by simp
  have j: "slot_choice ?bcs h req ?j" by (rule request_slot_choice [OF len])
  have il: "?i < length bcs" using i by (simp add: slot_choice_def)
  have low: "\<forall>k < ?i. bc_period (bcs ! k) > 0"
  proof (intro allI impI)
    fix k
    assume k: "k < ?i"
    then have "bcs ! k \<in> set bcs" using il by simp
    then show "bc_period (bcs ! k) > 0"
      using i assms(2) k
      by (cases "\<exists>b \<in> set bcs. bc_period b \<le> 0") (auto simp: slot_choice_def not_le)
  qed
  have no: "\<not> (\<exists>b \<in> set ?bcs. slot_matches h req b)"
    using assms(2,3) set_update_subset_insert [of bcs ?i msg] by auto
  have at: "?bcs ! ?i = msg" "\<And>k. k \<noteq> ?i \<Longrightarrow> ?bcs ! k = bcs ! k" using il by simp_all
  show ?thesis
  proof (cases "bc_period msg \<le> 0")
    case True
    have "msg \<in> set ?bcs" using il by (simp add: set_update_memI)
    then have f: "bc_period (?bcs ! ?j) \<le> 0" "\<forall>k < ?j. bc_period (?bcs ! k) > 0"
      using j no True by (auto simp: slot_choice_def split: if_splits)
    have "\<not> ?j < ?i" using f(1) low at(2) by force
    moreover have "\<not> ?i < ?j" using f(2) at(1) True by force
    ultimately show ?thesis using True by simp
  next
    case False
    have ne: "?j = ?i \<Longrightarrow> ?i = MAX_NUM_BCAST_MSGS - 1"
      using j no False at(1) len by (auto simp: slot_choice_def split: if_splits)
    have "?j = ?i" if last: "?i = MAX_NUM_BCAST_MSGS - 1"
    proof -
      have "bc_period (?bcs ! k) > 0" if "k < length ?bcs" for k
        using that last low False at assms(1) by (cases "k = ?i") auto
      then have "\<not> (\<exists>b \<in> set ?bcs. bc_period b \<le> 0)" by (metis in_set_conv_nth not_le)
      then show ?thesis using j no len last by (simp add: slot_choice_def)
    qed
    then show ?thesis using ne False by blast
  qed
qed

text \<open>C20: whether a repeated request takes its own slot again. The packet a request leaves matches
  the same request exactly when the request's offset is zero, because with an offset the payload size
  kept in the slot includes the two offset bytes. Accordingly, on a table where a request with an
  offset matches no slot, the repetition takes the same slot exactly when the offset is zero, or the
  slot was left free (a request for one transmission), or it was the last slot; a periodic request
  with an offset takes a further slot each time until the table is full.\<close>

theorem request_repeat_slot:
  assumes "length bcs = MAX_NUM_BCAST_MSGS" "g_id req < DID_COUNT" "bc_pHandle msg = h"
    and "bc_pkt msg = (request_pkt cm old req)\<lparr>checksum := ck\<rparr>"
    and "g_offset req \<noteq> 0 \<Longrightarrow> \<forall>b \<in> set bcs. \<not> slot_matches h req b"
  shows "(slot_matches h req msg \<longleftrightarrow> g_offset req = 0) \<and>
    (request_slot (bcs[request_slot bcs h req := msg]) h req = request_slot bcs h req \<longleftrightarrow>
      g_offset req = 0 \<or> bc_period msg \<le> 0 \<or> request_slot bcs h req = MAX_NUM_BCAST_MSGS - 1)"
proof (cases "g_offset req = 0")
  case True
  then show ?thesis
    using request_pkt_matches [OF assms(4,3,2)] request_slot_again [OF assms(1)] by simp
next
  case False
  then show ?thesis
    using request_pkt_matches [OF assms(4,3,2)] request_slot_unmatched [OF assms(1) assms(5)] by simp
qed

abbreviation demo_offset_req :: p_data_get_t where
  "demo_offset_req \<equiv> \<lparr>g_id = 4, g_size = 2, g_offset = 1, g_period = 10\<rparr>"

lemma request_repeat_slot_witness:
  "request_slot (replicate 12 bcast_zero) 0 demo_offset_req = 0 \<and>
   request_slot ((replicate 12 bcast_zero)[0 := demo_slot\<lparr>bc_pkt := request_pkt demo_reg packet_zero demo_offset_req\<rparr>])
     0 demo_offset_req \<noteq> 0"
proof -
  let ?msg = "demo_slot\<lparr>bc_pkt := request_pkt demo_reg packet_zero demo_offset_req\<rparr>"
  have z: "request_slot (replicate 12 bcast_zero) 0 demo_offset_req = 0"
    and n: "\<forall>b \<in> set (replicate 12 bcast_zero). \<not> slot_matches 0 demo_offset_req b"
    by (simp_all add: request_slot_def slot_matches_def bcast_zero_def packet_zero_def numeral_eq_Suc)
  have p: "bc_pkt ?msg = (request_pkt demo_reg packet_zero demo_offset_req)
      \<lparr>checksum := checksum (request_pkt demo_reg packet_zero demo_offset_req)\<rparr>"
    by simp
  show ?thesis
    using request_repeat_slot [of "replicate 12 bcast_zero" demo_offset_req ?msg 0, OF _ _ _ p n] z
    by (simp add: demo_slot_def)
qed

end
