(* ===== verification/ComReceive.thy ===== *)
theory ComReceive
  imports ComBroadcast
begin

text \<open>
  The receive side of the communication manager: initialisation, what a data packet may write and
  the acknowledgement it gets.
\<close>

section \<open>Data packets\<close>

lemma unat_min: "unat (min a b) = min (unat a) (unat b)" for a b :: "'a::len word"
  by (simp add: min_def word_le_nat_alt)

lemma unat_ucast_u8_u16: "unat (ucast b :: u16) = unat b" for b :: u8
proof -
  have "unat b < 2 ^ LENGTH(8)" by (rule unsigned_less)
  then show ?thesis by (simp add: unsigned_ucast_eq take_bit_nat_eq_self)
qed

lemma unat_ucast_u16_u8: "unat (ucast x :: u8) = unat x mod 256" for x :: u16
  by (simp add: unsigned_ucast_eq take_bit_eq_mod)

text \<open>What is left of the data after trimming.\<close>

lemma trim_data_fits:
  "unat (d_offset (d_hdr dat)) + unat (d_size (d_hdr dat)) \<le> unat setSize \<Longrightarrow> trim_data setSize dat = Some dat"
  using hdr_end_le [of "d_hdr dat" setSize] by (auto simp: trim_data_def Let_def hdr_end_def add.commute)

lemma trim_data_keeps:
  assumes "trim_data setSize dat = Some dat1"
  shows "d_offset (d_hdr dat1) = d_offset (d_hdr dat)" "d_ptr dat1 = d_ptr dat"
    "unat (d_size (d_hdr dat1)) \<le> unat (d_size (d_hdr dat))"
  using assms by (auto simp: trim_data_def Let_def unat_min split: if_splits)

lemma trim_data_cut:
  assumes "unat setSize < unat (d_offset (d_hdr dat)) + unat (d_size (d_hdr dat))"
    and sz: "unat (d_offset (d_hdr dat)) + 4 \<le> unat setSize" "unat setSize < 65536"
  shows "\<exists>dat1. trim_data setSize dat = Some dat1 \<and> unat (d_size (d_hdr dat1)) =
    min (unat (d_size (d_hdr dat))) ((unat setSize - unat (d_offset (d_hdr dat))) mod 256)"
proof -
  let ?o = "d_offset (d_hdr dat)"
  have g: "ucast ?o + ucast (d_size (d_hdr dat)) > setSize"
    using hdr_end_le [of "d_hdr dat" setSize] assms(1) by (simp add: hdr_end_def add.commute not_le)
  have le: "ucast ?o \<le> setSize" using sz(1) by (simp add: word_le_nat_alt ucast_u16_u32)
  have "unat (setSize - ucast ?o) = unat setSize - unat ?o" using unat_sub [OF le] by (simp add: ucast_u16_u32)
  then have r: "unat (ucast (setSize - ucast ?o) :: u16) = unat setSize - unat ?o"
    using sz(2) by (simp add: unsigned_ucast_eq take_bit_nat_eq_self)
  then have "\<not> (ucast (setSize - ucast ?o) :: u16) < 4" using sz(1) by (simp add: word_less_nat_alt)
  moreover have "unat (ucast (ucast (setSize - ucast ?o) :: u16) :: u8) = (unat setSize - unat ?o) mod 256"
    using unat_ucast_u16_u8 [of "ucast (setSize - ucast ?o)"] r by metis
  moreover have "setSize \<noteq> 0" using sz(1) by auto
  ultimately show ?thesis using g by (auto simp: trim_data_def Let_def unat_min unat_ucast_u8_u16)
qed

text \<open>A data packet on port \<open>h\<close> for a data set whose structure is \<open>ds_size\<close> bytes at offset \<open>i\<close> of the
  object \<open>ob\<close>; \<open>bs\<close> is its data, outside that object.\<close>

definition data_packet :: "'s com_manager_t \<Rightarrow> nat \<Rightarrow> is_comm_instance_t \<Rightarrow> cmem \<Rightarrow> nat \<Rightarrow> nat \<Rightarrow> u8 list \<Rightarrow> bool" where
  "data_packet cm h c m ob i bs \<longleftrightarrow>
     (let d = is_comm_to_isb_p_data c; reg = regData cm (unat (d_id (d_hdr d))); t = is_comm_to_isb_pkt_type c in
      (t = PKT_TYPE_DATA \<or> t = PKT_TYPE_SET_DATA) \<and> unat (d_id (d_hdr d)) < 132 \<and> payloadSize (hdr (rxPkt c)) \<noteq> 0 \<and>
      rxPtr (dataSet reg) = Ptr ob i \<and> i + unat (ds_size (dataSet reg)) \<le> length (m ob) \<and>
      rd_ptr m (d_ptr d) (unat (d_size (d_hdr d))) = Some bs \<and> (case d_ptr d of Null \<Rightarrow> False | Ptr os _ \<Rightarrow> os \<noteq> ob) \<and>
      Option.is_none (reg_pstRxFnc reg) \<and> Option.is_none (pstRxFnc cm) \<and>
      \<not> Option.is_none (portWrite cm) \<and> h < length (ports cm) \<and>
      \<not> Option.is_none (rd_ptr m (d_ptr d) 5))"

lemma rd_bytes_prefix: "rd_bytes m ob i n = Some bs \<Longrightarrow> k \<le> n \<Longrightarrow> rd_bytes m ob i k = Some (take k bs)"
  by (auto simp: rd_bytes_def min_def split: if_splits)

lemma put_bytes_Nil: "put_bytes m ob i [] = m"
  by (simp add: put_bytes_def)

lemma copy_trimmed:
  assumes "rd_bytes m os j n = Some bs" "unat (d_size (d_hdr dat1)) \<le> n" "d_ptr dat1 = Ptr os j"
    and "i + unat maxsize \<le> length (m ob)"
  shows "map_option snd (copyDataPToStructP m (Ptr ob i) dat1 maxsize) =
    Some (if unat (d_size (d_hdr dat1)) + unat (d_offset (d_hdr dat1)) \<le> unat maxsize
          then put_bytes m ob (i + unat (d_offset (d_hdr dat1))) (take (unat (d_size (d_hdr dat1))) bs) else m)"
proof -
  have e: "dat1 = \<lparr>d_hdr = d_hdr dat1, d_ptr = Ptr os j\<rparr>" using assms(3) by simp
  show ?thesis
    using pdat.copied [OF _ assms(4) rd_bytes_prefix [OF assms(1,2)]] pdat.rejected [of maxsize "d_hdr dat1" m "Ptr ob i" "Ptr os j"]
    by (subst e) (auto simp: not_le)
qed

text \<open>The two outcomes of \<^verbatim>\<open>processIsb\<close> on a data packet: refused by the trimming, or copied and
  acknowledged.\<close>

lemma data_packet_parts:
  fixes cm :: "'s com_manager_t"
  assumes "data_packet cm h c m ob i bs" "d = is_comm_to_isb_p_data c" "reg = regData cm (unat (d_id (d_hdr d)))"
  shows "is_comm_to_isb_pkt_type c = PKT_TYPE_DATA \<or> is_comm_to_isb_pkt_type c = PKT_TYPE_SET_DATA"
    "\<not> ucast (d_id (d_hdr d)) \<ge> DID_COUNT" "payloadSize (hdr (rxPkt c)) \<noteq> 0"
    "rxPtr (dataSet reg) = Ptr ob i" "i + unat (ds_size (dataSet reg)) \<le> length (m ob)"
    "reg_pstRxFnc reg = None" "pstRxFnc cm = None" "portWrite cm \<noteq> None" "port_ok cm (int h)"
    "rd_ptr m (d_ptr d) 5 \<noteq> None"
    "\<exists>os j. d_ptr d = Ptr os j \<and> os \<noteq> ob \<and> rd_bytes m os j (unat (d_size (d_hdr d))) = Some bs"
  using assms
  by (auto simp: data_packet_def Let_def Option.is_none_def word_le_nat_alt unat_ucast_u8_u16 port_ok_def rd_ptr_def
      split: cptr.splits)

lemma data_packet_rejected:
  assumes "data_packet cm h c m ob i bs" "d = is_comm_to_isb_p_data c"
    and "trim_data (ds_size (dataSet (regData cm (unat (d_id (d_hdr d)))))) d = None"
  shows "processIsb_cm stk cm (int h) c m s = Some (- 1, cm, m, s)"
  using data_packet_parts(1-3) [OF assms(1,2) refl] assms(2,3)
  by (auto simp: processIsb_cm_def process_data_def Let_def)

lemma data_packet_accepted:
  assumes dp: "data_packet cm h c m ob i bs" and d: "d = is_comm_to_isb_p_data c"
    and reg: "reg = regData cm (unat (d_id (d_hdr d)))" and tr: "trim_data (ds_size (dataSet reg)) d = Some dat1"
    and k: "k = (if unat (d_size (d_hdr dat1)) + unat (d_offset (d_hdr d)) \<le> unat (ds_size (dataSet reg))
                 then unat (d_size (d_hdr dat1)) else 0)"
  shows "\<exists>s'. processIsb_cm stk cm (int h) c m s =
     Some (0, if is_comm_to_isb_pkt_type c = PKT_TYPE_SET_DATA then bump cm h else cm,
           put_bytes m ob (i + unat (d_offset (d_hdr d))) (take k bs), s')"
proof -
  note h = data_packet_parts [OF dp d reg] and t = trim_data_keeps [OF tr]
  let ?m = "put_bytes m ob (i + unat (d_offset (d_hdr d))) (take k bs)"
  obtain os j where p: "d_ptr d = Ptr os j" "os \<noteq> ob" "rd_bytes m os j (unat (d_size (d_hdr d))) = Some bs"
    using h(11) by blast
  have cp: "map_option snd (copyDataPToStructP m (Ptr ob i) dat1 (ds_size (dataSet reg))) = Some ?m"
  proof -
    have "?m = (if unat (d_size (d_hdr dat1)) + unat (d_offset (d_hdr d)) \<le> unat (ds_size (dataSet reg))
        then put_bytes m ob (i + unat (d_offset (d_hdr d))) (take (unat (d_size (d_hdr dat1))) bs) else m)"
      by (simp add: k put_bytes_Nil)
    moreover have "d_ptr dat1 = Ptr os j" using t(2) p(1) by simp
    ultimately show ?thesis using copy_trimmed [OF p(3) t(3) _ h(5)] unfolding t(1) by (simp only:)
  qed
  have src: "rd_ptr ?m (dptr (pdata (rxPkt c))) 5 \<noteq> None"
    using h(10) p(1,2) d by (auto simp: rd_ptr_def rd_bytes_def put_bytes_def is_comm_to_isb_p_data_def split: if_splits)
  obtain s' where ack: "sendAck stk cm (int h) (rxPkt c) PKT_TYPE_ACK ?m s = Some (bump cm h, s')"
    using sendAck_ok [OF h(8,9), of "rxPkt c" ?m stk PKT_TYPE_ACK s] src by auto
  show ?thesis using h(1-3,6,7) tr cp ack unfolding d reg
    by (auto simp: processIsb_cm_def process_data_def Let_def h(4) [unfolded d reg] call_pstRx_def)
qed

text \<open>A set-data packet of six bytes at offset 2 for a structure of six bytes.\<close>

definition demo_rx_cm :: "u8 list com_manager_t" where
  "demo_rx_cm = comManagerRegisterInstance demo_cm 4 None None Null (Ptr 3 1) 6 0"

definition demo_rx_comm :: is_comm_instance_t where
  "demo_rx_comm = demo_comm\<lparr>rxPkt := packet_zero\<lparr>hdr := \<lparr>preamble = 0x49EF, flags = 5, hdr_id = 4, payloadSize = 8\<rparr>,
     pkt_offset := 2, pdata := \<lparr>dptr = Ptr 5 0, dsize = 6\<rparr>\<rparr>\<rparr>"

text \<open>C7: what a data packet does. Whatever offset and size it claims, \<^verbatim>\<open>processIsb\<close> returns and
  writes to no memory but the registered structure: \<open>k\<close> bytes of the data at the offset, or
  nothing. A packet that fits is copied whole. One that extends past the structure is cut to the
  remaining room, of which only the low eight bits count; set-data packets that are accepted are
  acknowledged with exactly one packet, plain data packets with none.\<close>

theorem data_packet_stays_inside:
  assumes dp: "data_packet cm h c m ob i bs"
    and off: "off = unat (pkt_offset (rxPkt c))"
    and sz: "sz = unat (ds_size (dataSet (regData cm (unat (hdr_id (hdr (rxPkt c)))))))"
  shows "\<exists>r k s'. processIsb_cm stk cm (int h) c m s =
     Some (r, if r = 0 \<and> is_comm_to_isb_pkt_type c = PKT_TYPE_SET_DATA then bump cm h else cm,
           put_bytes m ob (i + off) (take k bs), s') \<and>
     k \<le> length bs \<and> (k = 0 \<or> off + k \<le> sz) \<and>
     (off + length bs \<le> sz \<longrightarrow> r = 0 \<and> k = length bs) \<and>
     (sz < off + length bs \<and> off + 4 \<le> sz \<and> sz < 65536 \<longrightarrow> r = 0 \<and> k = min (length bs) ((sz - off) mod 256))"
proof -
  define d where "d = is_comm_to_isb_p_data c"
  define reg where "reg = regData cm (unat (d_id (d_hdr d)))"
  let ?S = "ds_size (dataSet reg)" and ?n = "unat (d_size (d_hdr d))"
  have o: "off = unat (d_offset (d_hdr d))" and S: "sz = unat ?S"
    by (simp_all add: off sz d_def reg_def is_comm_to_isb_p_data_def)
  obtain os j where "rd_bytes m os j ?n = Some bs" using data_packet_parts(11) [OF dp d_def reg_def] by blast
  then have lb: "length bs = ?n" by (rule rd_bytes_length)
  have fit: "trim_data ?S d = Some d" if "off + length bs \<le> sz"
    using that trim_data_fits [of d ?S] by (simp add: o S lb)
  have cut: "\<exists>dat1. trim_data ?S d = Some dat1 \<and> unat (d_size (d_hdr dat1)) = min (length bs) ((sz - off) mod 256)"
    if "sz < off + length bs" "off + 4 \<le> sz" "sz < 65536"
    using that trim_data_cut [of ?S d] by (auto simp: o S lb)
  show ?thesis
  proof (cases "trim_data ?S d")
    case None
    then show ?thesis using data_packet_rejected [OF dp d_def, of stk s] fit cut
      by (intro exI [of _ "- 1"] exI [of _ 0] exI [of _ s]) (auto simp: reg_def put_bytes_def)
  next
    case (Some dat1)
    note t = trim_data_keeps [OF Some]
    define k where "k = (if unat (d_size (d_hdr dat1)) + off \<le> sz then unat (d_size (d_hdr dat1)) else 0)"
    obtain s' where run: "processIsb_cm stk cm (int h) c m s =
       Some (0, if is_comm_to_isb_pkt_type c = PKT_TYPE_SET_DATA then bump cm h else cm,
             put_bytes m ob (i + off) (take k bs), s')"
      using data_packet_accepted [OF dp d_def reg_def Some refl, of stk s] by (auto simp: k_def o S)
    have "k \<le> length bs" "k = 0 \<or> off + k \<le> sz" using t(3) by (auto simp: k_def lb)
    moreover have "off + length bs \<le> sz \<longrightarrow> k = length bs" using fit Some by (auto simp: k_def lb)
    moreover have "sz < off + length bs \<and> off + 4 \<le> sz \<and> sz < 65536 \<longrightarrow> k = min (length bs) ((sz - off) mod 256)"
    proof
      assume a: "sz < off + length bs \<and> off + 4 \<le> sz \<and> sz < 65536"
      have "(sz - off) mod 256 \<le> sz - off" by simp
      then have "min (length bs) ((sz - off) mod 256) + off \<le> sz" using a by linarith
      then show "k = min (length bs) ((sz - off) mod 256)" using cut a Some by (auto simp: k_def)
    qed
    ultimately show ?thesis using run by (intro exI [of _ 0] exI [of _ k] exI [of _ s']) simp
  qed
qed

lemma data_packet_stays_inside_witness:
  "\<exists>r k s'. processIsb_cm 9 demo_rx_cm (int 0) demo_rx_comm demo_mem [] =
     Some (r, if r = 0 \<and> is_comm_to_isb_pkt_type demo_rx_comm = PKT_TYPE_SET_DATA then bump demo_rx_cm 0 else demo_rx_cm,
           put_bytes demo_mem 3 (1 + 2) (take k [7, 0xEF, 0x49, 4, 0, 0]), s') \<and> r = 0 \<and> k = 4"
proof -
  have dp: "data_packet demo_rx_cm 0 demo_rx_comm demo_mem 3 1 [7, 0xEF, 0x49, 4, 0, 0]"
    by (simp add: data_packet_def Let_def demo_rx_comm_def demo_rx_cm_def is_comm_to_isb_p_data_def
        is_comm_to_isb_pkt_type_def comManagerRegisterInstance_def demo_cm_def com_manager_zero_def rd_ptr_def rd_bytes_def demo_mem_def)
  have o: "2 = unat (pkt_offset (rxPkt demo_rx_comm))"
    and z: "6 = unat (ds_size (dataSet (regData demo_rx_cm (unat (hdr_id (hdr (rxPkt demo_rx_comm)))))))"
    by (simp_all add: demo_rx_comm_def demo_rx_cm_def comManagerRegisterInstance_def)
  show ?thesis using data_packet_stays_inside [OF dp o z, of 9 "[]"] by auto
qed

section \<open>Initialisation\<close>

lemma is_comm_init_ok:
  assumes "PKT_BUF_SIZE \<le> length (m ob)"
  shows "\<exists>m' c. is_comm_init m ob 0 PKT_BUF_SIZE = Some (m', c) \<and> rx_wf m' c \<and> proto_inv m' c \<and> pending m' c = [] \<and>
    rx_obj (rxBuf c) = ob \<and> length (m' ob) = length (m ob) \<and> (\<forall>o'. o' \<noteq> ob \<longrightarrow> m' o' = m o')"
  using assms by (simp add: is_comm_init_def wr_bytes_def rx_wf_def proto_inv_def pending_def)

definition port_fresh :: "cmem \<Rightarrow> nat \<Rightarrow> is_comm_instance_t \<Rightarrow> bool" where
  "port_fresh m ob c \<longleftrightarrow> rx_wf m c \<and> proto_inv m c \<and> pending m c = [] \<and> rx_obj (rxBuf c) = ob"

lemma port_fresh_other: "m' ob = m ob \<Longrightarrow> port_fresh m' ob c = port_fresh m ob c"
proof -
  assume e: "m' ob = m ob"
  have "rx_at m' c = rx_at m c" "rx_u16 m' c = rx_u16 m c" if "rx_obj (rxBuf c) = ob"
    using e that by (simp_all add: rx_at_def rx_u16_def fun_eq_iff)
  then have "inv_of f m' c = inv_of f m c" if "rx_obj (rxBuf c) = ob" for f
    using that by (cases f) (simp_all add: inv_of_def isb_inv_def nmea_inv_def ublox_inv_def rtcm3_inv_def
        spartn_inv_def sony_inv_def)
  then show ?thesis using e by (auto simp: port_fresh_def rx_wf_def proto_inv_def pending_def split: option.splits)
qed

lemma init_ports_ok:
  assumes "n \<le> length obs" "distinct obs" "\<forall>ob \<in> set obs. PKT_BUF_SIZE \<le> length (m ob)"
  shows "\<exists>m' cs. init_ports m obs n = Some (m', cs) \<and> length cs = n \<and>
     (\<forall>p < n. port_fresh m' (obs ! p) (cs ! p)) \<and> (\<forall>o'. o' \<notin> set obs \<longrightarrow> m' o' = m o')"
  using assms
proof (induction m obs n rule: init_ports.induct)
  case (3 m ob obs n)
  obtain m1 c where i: "is_comm_init m ob 0 PKT_BUF_SIZE = Some (m1, c)" "port_fresh m1 ob c"
    "\<forall>o'. o' \<noteq> ob \<longrightarrow> m1 o' = m o'"
    using is_comm_init_ok [of m ob] 3(4) by (auto simp: port_fresh_def)
  have ne: "o' \<noteq> ob" if "o' \<in> set obs" for o' using 3(3) that by auto
  have pre: "n \<le> length obs" "distinct obs" "\<forall>o' \<in> set obs. PKT_BUF_SIZE \<le> length (m1 o')"
    using 3(2-4) i(3) ne by simp_all
  obtain m2 cs where r: "init_ports m1 obs n = Some (m2, cs)" "length cs = n"
    "\<forall>p < n. port_fresh m2 (obs ! p) (cs ! p)" "\<forall>o'. o' \<notin> set obs \<longrightarrow> m2 o' = m1 o'"
    using 3(1) [OF i(1) refl pre] by blast
  have "port_fresh m2 ob c" using i(2) r(4) 3(3) port_fresh_other [of m2 ob m1 c] by simp
  then have "port_fresh m2 ((ob # obs) ! p) ((c # cs) ! p)" if "p < Suc n" for p
    using that r(3) by (cases p) simp_all
  then show ?case using i(1,3) r(1,2,4) by simp
qed simp_all

text \<open>C21: initialising a manager with enough broadcast slots and one buffer of 2048 bytes for each of
  its ports succeeds: every slot is free, every port has an instance of its own on its own buffer
  that satisfies the receive invariant with nothing pending, and exactly the handles of those ports
  are valid. More than 1024 ports are cut to 1024.\<close>

theorem initComManager_ready:
  assumes "0 < nPorts" "bs = Some b" "broadcastMsg b" "MAX_NUM_BCAST_MSGS \<le> broadcastMsgSlots b"
    and "nat (min nPorts 1024) \<le> length obs" "distinct obs" "\<forall>ob \<in> set obs. PKT_BUF_SIZE \<le> length (m ob)"
  shows "\<exists>cm' m'. initComManagerInstanceInternal cm nPorts stepMs rd wr fr pr pa db bs (Some obs) cbs m = Some (0, cm', m') \<and>
     broadcastMessages cm' = Some (replicate MAX_NUM_BCAST_MSGS bcast_zero) \<and>
     length (ports cm') = nat (min nPorts 1024) \<and>
     (\<forall>p < length (ports cm'). port_fresh m' (obs ! p) (ports cm' ! p)) \<and>
     (\<forall>h. comManagerGetIsCommInstance cm' h \<noteq> None \<longleftrightarrow> 0 \<le> h \<and> h < int (length (ports cm'))) \<and>
     portWrite cm' = wr \<and> regData cm' = regData cm"
proof -
  obtain m' cs where "init_ports m obs (nat (min nPorts 1024)) = Some (m', cs)" "length cs = nat (min nPorts 1024)"
    "\<forall>p < nat (min nPorts 1024). port_fresh m' (obs ! p) (cs ! p)"
    using init_ports_ok [OF assms(5-7)] by blast
  then show ?thesis using assms(1-4)
    by (auto simp: initComManagerInstanceInternal_def Let_def comManagerGetIsCommInstance_def min_less_iff_conj min_le_iff_disj)
qed

lemma initComManager_ready_witness:
  "\<exists>cm' m'. initComManagerInstanceInternal com_manager_zero 2 1 None None None None None None
       (Some \<lparr>broadcastMsg = True, broadcastMsgSlots = 12\<rparr>) (Some [5, 6]) None (\<lambda>_. replicate 2048 (0 :: u8)) =
       Some (0, cm' :: nat com_manager_t, m') \<and> length (ports cm') = 2 \<and> port_fresh m' 6 (ports cm' ! 1)"
  using initComManager_ready [where nPorts = 2 and obs = "[5, 6]" and m = "\<lambda>_. replicate 2048 (0 :: u8)"
      and bs = "Some \<lparr>broadcastMsg = True, broadcastMsgSlots = 12\<rparr>" and cm = "com_manager_zero :: nat com_manager_t"
      and stepMs = 1 and rd = None and wr = None and fr = None and pr = None and pa = None and db = None and cbs = None]
  by (auto simp: numeral_2_eq_2 less_Suc_eq)

end
