(* ===== verification/ComLink.thy ===== *)
theory ComLink
  imports ComReceive
begin

text \<open>
  Two communication managers joined by a link. The port functions are the application's; the link is
  lossless when the bytes written to one end are read in order at the other. The lemmas follow one
  data packet from the sending manager (\<^verbatim>\<open>comManagerSend\<close>, \<^verbatim>\<open>is_comm_write\<close>) over the link into the
  receive buffer (\<^verbatim>\<open>is_comm_port_parse_messages\<close>), through the parser and the dispatch to
  \<^verbatim>\<open>processIsb\<close>, and into the registered structure.
\<close>

definition lossless_link :: "'s port_write \<Rightarrow> nat \<Rightarrow> 's port_read \<Rightarrow> nat \<Rightarrow> ('s \<Rightarrow> u8 list) \<Rightarrow> bool" where
  "lossless_link w p r q flight \<longleftrightarrow>
     (\<forall>bs s. \<exists>s'. w p bs s = (int (length bs), s') \<and> flight s' = flight s @ bs) \<and>
     (\<forall>n s. int (length (flight s)) \<le> n \<longrightarrow> (\<exists>s'. r q n s = (int (length (flight s)), flight s, s') \<and> flight s' = []))"

text \<open>A port that waits for a packet, with room for \<open>k\<close> more bytes.\<close>

definition port_waits :: "cmem \<Rightarrow> is_comm_instance_t \<Rightarrow> nat \<Rightarrow> bool" where
  "port_waits m c k \<longleftrightarrow>
     processPkt c = None \<and> enabledMask c AND ENABLE_PROTOCOL_ISB \<noteq> 0 \<and>
     rx_scan (rxBuf c) = rx_tail (rxBuf c) \<and> rx_tail (rxBuf c) + k \<le> rx_end (rxBuf c) \<and>
     rx_end (rxBuf c) \<le> length (m (rx_obj (rxBuf c)))"

text \<open>A data set registered for reception at \<open>Ptr ob i\<close>, with no functions of the application involved.\<close>

definition receives_at :: "'s com_manager_t \<Rightarrow> nat \<Rightarrow> nat \<Rightarrow> nat \<Rightarrow> cmem \<Rightarrow> bool" where
  "receives_at cm did ob i m \<longleftrightarrow>
     did < 132 \<and> rxPtr (dataSet (regData cm did)) = Ptr ob i \<and> i + unat (ds_size (dataSet (regData cm did))) \<le> length (m ob) \<and>
     Option.is_none (reg_pstRxFnc (regData cm did)) \<and> Option.is_none (pstRxFnc cm) \<and> \<not> Option.is_none (portWrite cm) \<and>
     Option.is_none (cb_isbData (callbacks cm)) \<and> Option.is_none (cb_all (callbacks cm))"

section \<open>Sending\<close>

lemma run_writes_lossless:
  assumes "lossless_link w p r q flight"
  shows "\<exists>s'. run_writes w p bss (n, s) = (n + int (length (concat bss)), s') \<and> flight s' = flight s @ concat bss"
proof (induction bss arbitrary: n s)
  case (Cons bs bss)
  obtain s1 where s1: "w p bs s = (int (length bs), s1)" "flight s1 = flight s @ bs"
    using assms unfolding lossless_link_def by blast
  show ?case using Cons.IH [of "n + int (length bs)" s1] s1 by (auto simp: add.assoc)
qed simp

lemma send_on_link:
  assumes link: "lossless_link w p r q flight" and cm: "portWrite cm = Some w" "p < length (ports cm)"
    and src: "rd_ptr m ptr (length dat) = Some dat" "length dat \<le> 1024"
  shows "\<exists>cm' s'. comManagerSendInstance cm (int p) fl ptr did (of_nat (length dat)) off m s = Some (0, cm', s') \<and>
     flight s' = flight s @ isb_frame fl did off dat"
proof -
  obtain ob where ob: "\<forall>o' j. ptr = Ptr o' j \<longrightarrow> o' \<noteq> ob" by (metis n_not_Suc_n cptr.inject)
  have s: "tx_source m ob ptr dat" using src(1) ob by (simp add: tx_source_def)
  obtain s' where r: "run_writes w p (tx_pieces fl did off dat) (0, s) = (int (length (isb_frame fl did off dat)), s')"
    "flight s' = flight s @ isb_frame fl did off dat"
    using run_writes_lossless [OF link, of "tx_pieces fl did off dat" 0 s] by (auto simp: concat_tx_pieces)
  have "is_comm_write (Some w) p m (ports cm ! p) fl did (of_nat (length dat)) off ptr s =
      Some (int (length (isb_frame fl did off dat)), (ports cm ! p)\<lparr>txPktCount := txPktCount (ports cm ! p) + 1\<rparr>, s')"
    using write_to_port_pieces [OF s, of w p "ports cm ! p" fl did off s] src(2) r(1) by (simp del: length_isb_frame)
  then show ?thesis using cm r(2) by (simp add: comManagerSendInstance_def port_ok_def)
qed

section \<open>Receiving\<close>

text \<open>The bytes of a packet, stored at the tail of the buffer, are parsed into the packet.\<close>

lemma frame_parsed:
  assumes w: "port_waits m c (length (isb_frame fl did off dat))"
    and fl: "fl = PKT_TYPE_DATA \<or> fl = PKT_TYPE_SET_DATA" and dat: "length dat \<le> 1024"
    and m1: "m1 = put_bytes m (rx_obj (rxBuf c)) (rx_tail (rxBuf c)) (isb_frame fl did off dat)"
    and c1: "c1 = c\<lparr>rxBuf := (rxBuf c)\<lparr>rx_tail := rx_tail (rxBuf c) + length (isb_frame fl did off dat)\<rparr>\<rparr>"
  shows "\<exists>c2. is_comm_parse m1 c1 = Some (PTYPE_INERTIAL_SENSE_DATA, c2) \<and> data_received m1 c1 c2 fl did off dat"
proof -
  let ?f = "isb_frame fl did off dat" and ?pl = "(if off \<noteq> 0 then u16_bytes off else []) @ dat"
  have fl': "fl AND PKT_TYPE_MASK = PKT_TYPE_DATA \<or> fl AND PKT_TYPE_MASK = PKT_TYPE_SET_DATA" "fl AND ISB_FLAGS_PAYLOAD_W_OFFSET = 0"
    using fl by auto
  have idle: "processPkt c1 = None" "enabledMask c1 AND ENABLE_PROTOCOL_ISB \<noteq> 0" using w by (simp_all add: port_waits_def c1)
  have h: "rx_holds m1 c1 ?f"
    using w by (simp add: rx_holds_def port_waits_def c1 m1 rd_bytes_def put_bytes_def)
  from isb_data_finish [OF h fl' dat] obtain c' where
    "isb_finish m1 (isb_run c1 (length ?pl + 7) 0 (of_nat (length ?pl + 8))) (int (length ?pl) + 8) =
      Some (PTYPE_INERTIAL_SENSE_DATA, c')" "data_received m1 c1 (scan_inc c') fl did off dat" by blast
  moreover have "rx_holds m1 c1 (isb_packet (isb_hdr fl did (of_nat (length dat)) off) ?pl)"
    using h by (simp add: isb_frame_packet)
  ultimately show ?thesis
    using isb_packet_received [of m1 c1 "isb_hdr fl did (of_nat (length dat)) off" ?pl] dat idle
    by (auto simp: isb_hdr_def)
qed

text \<open>The handler copies a packet that fits into the registered structure.\<close>

lemma data_handled:
  assumes rcv: "data_received m1 c1 c2 fl did off dat" and fl: "fl = PKT_TYPE_DATA \<or> fl = PKT_TYPE_SET_DATA"
    and dat: "dat \<noteq> []" "length dat \<le> 1024"
    and reg: "receives_at cm (unat did) ob i m1" "ob \<noteq> rx_obj (rxBuf c1)"
      "unat off + length dat \<le> unat (ds_size (dataSet (regData cm (unat did))))"
    and buf: "rx_scan (rxBuf c1) + length (isb_frame fl did off dat) + 2 \<le> length (m1 (rx_obj (rxBuf c1)))"
    and h: "h < length (ports cm)"
  shows "\<exists>s'. processIsb_cm stk cm (int h) c2 m1 s =
     Some (0, if fl = PKT_TYPE_SET_DATA then bump cm h else cm, put_bytes m1 ob (i + unat off) dat, s')"
proof -
  define d where "d = is_comm_to_isb_p_data c2"
  have did: "unat did < 132" using reg(1) by (simp add: receives_at_def)
  have id: "unat (ucast did :: u8) = unat did" using did by (simp add: unsigned_ucast_eq take_bit_nat_eq_self)
  have n: "unat (of_nat (length dat) :: u16) = length dat" "ucast (of_nat (length dat) :: u32) = (of_nat (length dat) :: u16)"
    using dat(2) by (simp_all add: unsigned_of_nat take_bit_nat_eq_self)
  have dh: "unat (d_id (d_hdr d)) = unat did" "unat (d_size (d_hdr d)) = length dat" "d_offset (d_hdr d) = off"
    "d_ptr d = Ptr (rx_obj (rxBuf c1)) (rx_scan (rxBuf c1) + 6 + (if off \<noteq> 0 then 2 else 0))"
    using rcv dat(1) n id by (simp_all add: d_def is_comm_to_isb_p_data_def data_received_def)
  have ty: "is_comm_to_isb_pkt_type c2 = fl" using rcv fl by (auto simp: data_received_def)
  have ps: "payloadSize (hdr (rxPkt c2)) \<noteq> 0" using rcv n(1) dat(1) by (auto simp: data_received_def)
  have rd: "rd_ptr m1 (d_ptr d) (length dat) = Some dat"
  proof -
    have "d_ptr d = dptr (pdata (rxPkt c2))" by (simp add: d_def is_comm_to_isb_p_data_def)
    then show ?thesis using rcv dat(1) unfolding data_received_def by metis
  qed
  have five: "rd_ptr m1 (d_ptr d) 5 \<noteq> None"
    using buf dat(1) by (cases dat) (auto simp: dh(4) rd_ptr_def rd_bytes_def)
  have dp: "data_packet cm h c2 m1 ob i dat"
    using reg fl ty did ps rd five h unfolding data_packet_def Let_def d_def [symmetric] dh(1,2) receives_at_def
    by (auto simp: dh(4) Option.is_none_def)
  have tr: "trim_data (ds_size (dataSet (regData cm (unat (d_id (d_hdr d)))))) d = Some d"
    using reg(3) dh by (intro trim_data_fits) simp
  show ?thesis
    using data_packet_accepted [OF dp d_def refl tr refl, of stk s] reg(3) ty by (simp add: dh add.commute)
qed

text \<open>With nothing left in the buffer the receive loop stops.\<close>

lemma parse_messages_idle:
  assumes "processPkt c = None" "rx_scan (rxBuf c) = rx_tail (rxBuf c)"
  shows "parse_messages port cb m c s = Some (m, c, s)"
  using assms by (subst parse_messages.simps) (simp add: is_comm_parse_def is_comm_parse_timeout_def parse_loop.simps)

lemma port_receives:
  fixes cm :: "'s com_manager_t"
  assumes w: "port_waits m c (length (isb_frame fl did off dat) + 2)"
    and fl: "fl = PKT_TYPE_DATA \<or> fl = PKT_TYPE_SET_DATA" and dat: "dat \<noteq> []" "length dat \<le> 1024"
    and reg: "receives_at cm (unat did) ob i m" "ob \<noteq> rx_obj (rxBuf c)"
      "unat off + length dat \<le> unat (ds_size (dataSet (regData cm (unat did))))"
    and h: "h < length (ports cm)"
    and rd: "rd h (int (rx_end (rxBuf c)) - int (rx_tail (rxBuf c))) s =
      (int (length (isb_frame fl did off dat)), isb_frame fl did off dat, s1)"
  shows "\<exists>c2 c3 cm' s'. is_comm_port_parse_messages (lift_read rd) h m c (cm_callbacks stk (callbacks cm)) (cm, s) =
     Some (put_bytes (put_bytes m (rx_obj (rxBuf c)) (rx_tail (rxBuf c)) (isb_frame fl did off dat)) ob (i + unat off) dat,
           c3, cm', s') \<and>
     cm' = (if fl = PKT_TYPE_SET_DATA then bump (cm\<lparr>ports := (ports cm)[h := c2]\<rparr>) h else cm\<lparr>ports := (ports cm)[h := c2]\<rparr>) \<and>
     c3 = c2\<lparr>txPktCount := txPktCount c2 + (if fl = PKT_TYPE_SET_DATA then 1 else 0)\<rparr> \<and>
     data_received (put_bytes m (rx_obj (rxBuf c)) (rx_tail (rxBuf c)) (isb_frame fl did off dat))
       (c\<lparr>rxBuf := (rxBuf c)\<lparr>rx_tail := rx_tail (rxBuf c) + length (isb_frame fl did off dat)\<rparr>\<rparr>) c2 fl did off dat"
proof -
  let ?f = "isb_frame fl did off dat"
  define m1 where "m1 = put_bytes m (rx_obj (rxBuf c)) (rx_tail (rxBuf c)) ?f"
  define c1 where "c1 = c\<lparr>rxBuf := (rxBuf c)\<lparr>rx_tail := rx_tail (rxBuf c) + length ?f\<rparr>\<rparr>"
  have ne: "?f \<noteq> []" for fl using dat(1) by (simp add: isb_frame_def isb_body_def)
  have w': "port_waits m c (length ?f)" using w by (simp add: port_waits_def del: length_isb_frame)
  have room: "rx_tail (rxBuf c) + length ?f + 2 \<le> rx_end (rxBuf c)" "rx_end (rxBuf c) \<le> length (m (rx_obj (rxBuf c)))"
    "rx_scan (rxBuf c) = rx_tail (rxBuf c)"
    using w by (simp_all add: port_waits_def del: length_isb_frame)
  obtain c2 where c2: "is_comm_parse m1 c1 = Some (PTYPE_INERTIAL_SENSE_DATA, c2)" "data_received m1 c1 c2 fl did off dat"
    using frame_parsed [OF w' fl dat(2) m1_def c1_def] by blast
  have free: "is_comm_free m c = Some (int (rx_end (rxBuf c)) - int (rx_tail (rxBuf c)), m, c)"
    using room(1) by (auto simp: is_comm_free_def Let_def simp del: length_isb_frame)
  have r: "lift_read rd h (int (rx_end (rxBuf c)) - int (rx_tail (rxBuf c))) (cm, s) = (int (length ?f), ?f, cm, s1)"
    using rd by (simp add: lift_read_def del: length_isb_frame)
  have wr: "wr_bytes m (rx_obj (rxBuf c)) (rx_tail (rxBuf c)) ?f = Some m1"
    unfolding m1_def using room by (intro wr_bytes_put) (simp del: length_isb_frame)
  let ?cm = "cm\<lparr>ports := (ports cm)[h := c2]\<rparr>" and ?m2 = "put_bytes m1 ob (i + unat off) dat"
  have len: "length (m1 x) = length (m x)" for x
    unfolding m1_def using room by (intro put_bytes_length) (simp del: length_isb_frame)
  have reg1: "receives_at ?cm (unat did) ob i m1" using reg(1) len by (simp add: receives_at_def)
  obtain s2 where hd: "processIsb_cm stk ?cm (int h) c2 m1 s1 =
      Some (0, if fl = PKT_TYPE_SET_DATA then bump ?cm h else ?cm, ?m2, s2)"
    using data_handled [OF c2(2) fl dat reg1, of h stk s1] reg(2,3) room h len by (auto simp: c1_def simp del: length_isb_frame)
  let ?cm' = "if fl = PKT_TYPE_SET_DATA then bump ?cm h else ?cm"
    and ?c3 = "c2\<lparr>txPktCount := txPktCount c2 + (if fl = PKT_TYPE_SET_DATA then 1 else 0)\<rparr>"
  have p3: "ports ?cm' ! h = ?c3" using h by (simp add: bump_def)
  have idle: "parse_messages h (cm_callbacks stk (callbacks cm)) ?m2 ?c3 (?cm', s2) = Some (?m2, ?c3, ?cm', s2)"
    using c2(2) room(3) by (intro parse_messages_idle) (simp_all add: data_received_def c1_def)
  have cb: "cb_isbData (callbacks cm) = None" "cb_all (callbacks cm) = None" using reg(1) by (simp_all add: receives_at_def Option.is_none_def)
  have "dispatch (cm_callbacks stk (callbacks cm)) h PTYPE_INERTIAL_SENSE_DATA (m1, c2, cm, s1) = Some (?m2, ?c3, ?cm', s2)"
    using h hd p3 by (simp add: dispatch_def call_comm_def call_isbData_def cm_callbacks_def cb isb_handler_def)
  then have "parse_messages h (cm_callbacks stk (callbacks cm)) m1 c1 (cm, s1) = Some (?m2, ?c3, ?cm', s2)"
    using idle by (subst parse_messages.simps) (simp add: c2(1) call_comm_def cm_callbacks_def cb)
  then have "is_comm_port_parse_messages (lift_read rd) h m c (cm_callbacks stk (callbacks cm)) (cm, s) = Some (?m2, ?c3, ?cm', s2)"
    using ne by (simp add: is_comm_port_parse_messages_def free r wr c1_def del: length_isb_frame)
  then show ?thesis using c2(2) unfolding m1_def c1_def by blast
qed

end
