(* ===== verification/LinkedList.thy ===== *)
theory LinkedList
  imports Prelude
begin

text \<open>
  The doubly linked list of \<^verbatim>\<open>linked_list.c\<close>. A node is an address of the heap, a null pointer is
  \<open>None\<close>; nodes are part of the caller's structures, so a node handed to an insertion has whatever
  links it had before. The optional input checks (\<^verbatim>\<open>LL_VALIDATE_INPUT\<close>) are off, as in the source.
\<close>

section \<open>Model\<close>

record linked_list_node_t =
  prev :: "nat option"
  nextCt :: "nat option"

record linked_list_t =
  ll_head :: "nat option"
  ll_tail :: "nat option"

type_synonym ll_heap = "nat \<Rightarrow> linked_list_node_t"

definition set_prev :: "ll_heap \<Rightarrow> nat \<Rightarrow> nat option \<Rightarrow> ll_heap" where
  "set_prev h n p = h(n := (h n)\<lparr>prev := p\<rparr>)"

definition set_next :: "ll_heap \<Rightarrow> nat \<Rightarrow> nat option \<Rightarrow> ll_heap" where
  "set_next h n p = h(n := (h n)\<lparr>nextCt := p\<rparr>)"

definition linkedListClear :: "linked_list_t \<Rightarrow> linked_list_t" where
  "linkedListClear ll = ll\<lparr>ll_head := None, ll_tail := None\<rparr>"

definition linkedListInsertAtHead :: "ll_heap \<Rightarrow> linked_list_t \<Rightarrow> nat \<Rightarrow> ll_heap \<times> linked_list_t" where
  "linkedListInsertAtHead h ll newNode =
     (case ll_head ll of
        Some nd \<Rightarrow>
          (let h1 = set_prev h nd (Some newNode);
               h2 = set_next h1 newNode (ll_head ll);
               h3 = set_prev h2 newNode None
           in (h3, ll\<lparr>ll_head := Some newNode\<rparr>))
      | None \<Rightarrow> (h, ll\<lparr>ll_head := Some newNode, ll_tail := Some newNode\<rparr>))"

definition linkedListInsertBefore ::
  "ll_heap \<Rightarrow> linked_list_t \<Rightarrow> nat \<Rightarrow> nat \<Rightarrow> ll_heap \<times> linked_list_t" where
  "linkedListInsertBefore h ll node newNode =
     (let pv = prev (h node);
          (h1, ll1) =
            (case pv of
               Some p \<Rightarrow> (set_prev (set_next h p (Some newNode)) newNode pv, ll)
             | None \<Rightarrow> (set_prev h newNode None, ll\<lparr>ll_head := Some newNode\<rparr>));
          h2 = set_prev h1 node (Some newNode);
          h3 = set_next h2 newNode (Some node)
      in (h3, ll1))"

definition linkedListRemove :: "ll_heap \<Rightarrow> linked_list_t \<Rightarrow> nat \<Rightarrow> ll_heap \<times> linked_list_t" where
  "linkedListRemove h ll node =
     (let pv = prev (h node);
          nx = nextCt (h node);
          ll1 = (if ll_head ll = Some node then ll\<lparr>ll_head := nx\<rparr> else ll);
          ll2 = (if ll_tail ll1 = Some node then ll1\<lparr>ll_tail := pv\<rparr> else ll1);
          h1 = (case pv of Some p \<Rightarrow> set_next h p nx | None \<Rightarrow> h);
          h2 = (case nx of Some n \<Rightarrow> set_prev h1 n pv | None \<Rightarrow> h1)
      in (h2, ll2))"

section \<open>The sequence a list represents\<close>

definition first_of :: "nat list \<Rightarrow> nat option \<Rightarrow> nat option" where
  "first_of xs q = (case xs of [] \<Rightarrow> q | x # _ \<Rightarrow> Some x)"

definition last_of :: "nat option \<Rightarrow> nat list \<Rightarrow> nat option" where
  "last_of p xs = (if xs = [] then p else Some (last xs))"

text \<open>\<open>chain h p xs q\<close>: the nodes \<open>xs\<close> are linked both ways, after \<open>p\<close> and before \<open>q\<close>.\<close>

fun chain :: "ll_heap \<Rightarrow> nat option \<Rightarrow> nat list \<Rightarrow> nat option \<Rightarrow> bool" where
  "chain h p [] q = True"
| "chain h p (x # xs) q \<longleftrightarrow> prev (h x) = p \<and> nextCt (h x) = first_of xs q \<and> chain h (Some x) xs q"

definition ll_rep :: "ll_heap \<Rightarrow> linked_list_t \<Rightarrow> nat list \<Rightarrow> bool" where
  "ll_rep h ll xs \<longleftrightarrow> distinct xs \<and> ll_head ll = first_of xs None \<and> ll_tail ll = last_of None xs \<and> chain h None xs None"

lemma first_of_simps [simp]:
  "first_of [] q = q" "first_of (x # xs) q = Some x" "first_of (xs @ ys) q = first_of xs (first_of ys q)"
  by (simp_all add: first_of_def split: list.splits)

lemma first_of_ne: "xs \<noteq> [] \<Longrightarrow> first_of xs q = Some (hd xs)"
  by (cases xs) (simp_all add: first_of_def)

lemma last_of_simps [simp]:
  "last_of p [] = p" "last_of p (x # xs) = last_of (Some x) xs" "last_of p (xs @ ys) = last_of (last_of p xs) ys"
  by (simp_all add: last_of_def)

lemma chain_append [simp]:
  "chain h p (xs @ ys) q \<longleftrightarrow> chain h p xs (first_of ys q) \<and> chain h (last_of p xs) ys q"
  by (induction xs arbitrary: p) auto

lemma chain_other: "x \<notin> set xs \<Longrightarrow> chain (h(x := v)) p xs q = chain h p xs q"
  by (induction xs arbitrary: p) auto


lemma chain_set_other [simp]:
  "x \<notin> set xs \<Longrightarrow> chain (set_prev h x v) p xs q = chain h p xs q"
  "x \<notin> set xs \<Longrightarrow> chain (set_next h x v) p xs q = chain h p xs q"
  by (simp_all add: set_prev_def set_next_def chain_other)

lemma set_sel [simp]:
  "prev (set_prev h x v y) = (if y = x then v else prev (h y))"
  "nextCt (set_prev h x v y) = nextCt (h y)"
  "nextCt (set_next h x v y) = (if y = x then v else nextCt (h y))"
  "prev (set_next h x v y) = prev (h y)"
  by (simp_all add: set_prev_def set_next_def)

text \<open>Redirecting the link out of the end of a segment and into its start.\<close>

lemma chain_relink_next:
  "distinct xs \<Longrightarrow> chain h p xs q \<Longrightarrow> last_of None xs = Some e \<Longrightarrow> chain (set_next h e v) p xs v"
proof (induction xs arbitrary: p)
  case (Cons x xs)
  show ?case
  proof (cases xs)
    case Nil
    then show ?thesis using Cons by simp
  next
    case (Cons y ys)
    then have e: "last_of None xs = Some e" "e \<in> set xs" using Cons.prems(3) by (auto simp: last_of_def split: if_splits)
    then have "x \<noteq> e" using Cons.prems(1) by auto
    then show ?thesis using Cons.IH [of "Some x"] Cons.prems e Cons by simp
  qed
qed simp

lemma chain_relink_prev:
  "distinct (x # xs) \<Longrightarrow> chain h p (x # xs) q \<Longrightarrow> chain (set_prev h x v) v (x # xs) q"
  by simp

section \<open>The operations on the sequence\<close>

lemma last_of_Some: "last_of (Some x) xs = Some (if xs = [] then x else last xs)"
  by (simp add: last_of_def)

lemma in_first_last: "first_of xs None = Some x \<Longrightarrow> x \<in> set xs" "last_of None xs = Some x \<Longrightarrow> x \<in> set xs"
  by (auto simp: first_of_def last_of_def split: list.splits if_splits)

lemma insertBefore_rep:
  assumes "ll_rep h ll (xs @ node # ys)" "n \<notin> set (xs @ node # ys)" "linkedListInsertBefore h ll node n = (h', ll')"
  shows "ll_rep h' ll' (xs @ n # node # ys)"
proof (cases xs rule: rev_cases)
  case Nil
  then show ?thesis using assms by (auto simp: ll_rep_def linkedListInsertBefore_def Let_def)
next
  case (snoc zs p)
  have r: "distinct (zs @ p # node # ys)" "chain h None (zs @ [p]) (Some node)" "chain h (Some p) (node # ys) None"
    "ll_head ll = first_of (zs @ [p]) None" "ll_tail ll = last_of (Some node) ys"
    using assms(1) by (auto simp: ll_rep_def snoc)
  have "chain (set_next h p (Some n)) None (zs @ [p]) (Some n)"
    using r(1,2) by (intro chain_relink_next [where q = "Some node"]) auto
  then show ?thesis using assms(2,3) r
    by (auto simp: ll_rep_def linkedListInsertBefore_def Let_def snoc)
qed

lemma remove_rep:
  assumes "ll_rep h ll (xs @ node # ys)" "linkedListRemove h ll node = (h', ll')"
  shows "ll_rep h' ll' (xs @ ys)"
proof -
  have d: "distinct (xs @ node # ys)" and c1: "chain h None xs (Some node)" and c2: "prev (h node) = last_of None xs"
    "nextCt (h node) = first_of ys None" "chain h (Some node) ys None"
    and e: "ll_head ll = first_of xs (Some node)" "ll_tail ll = last_of (last_of None xs) (node # ys)"
    using assms(1) by (auto simp: ll_rep_def)
  let ?h1 = "case last_of None xs of Some p \<Rightarrow> set_next h p (first_of ys None) | None \<Rightarrow> h"
  let ?h2 = "case first_of ys None of Some n \<Rightarrow> set_prev ?h1 n (last_of None xs) | None \<Rightarrow> ?h1"
  have h': "h' = ?h2" using assms(2) by (auto simp: linkedListRemove_def Let_def c2)
  have hd: "first_of xs (Some node) = Some node \<longleftrightarrow> xs = []" using d by (cases xs) auto
  have tl: "last_of (Some node) ys = Some node \<longleftrightarrow> ys = []" using d by (auto simp: last_of_def dest: last_in_set)
  have ll': "ll_head ll' = first_of (xs @ ys) None" "ll_tail ll' = last_of None (xs @ ys)"
    using assms(2) e hd tl c2 first_of_ne [of xs]
    by (auto simp: linkedListRemove_def Let_def last_of_def split: if_splits)
  have 1: "chain ?h1 None xs (first_of ys None)"
  proof (cases "last_of None xs")
    case (Some p)
    then show ?thesis using chain_relink_next [OF _ c1 Some] d by simp
  qed (use c1 in \<open>auto simp: last_of_def split: if_splits\<close>)
  have 2: "chain ?h1 (Some node) ys None"
  proof (cases "last_of None xs")
    case (Some p)
    then have "p \<notin> set ys" using d in_first_last(2) [of xs p] by auto
    then show ?thesis using c2(3) Some by simp
  qed (use c2(3) in simp)
  have "chain ?h2 None xs (first_of ys None) \<and> chain ?h2 (last_of None xs) ys None"
  proof (cases ys)
    case (Cons y zs)
    then have "y \<notin> set xs" "y \<notin> set zs" using d by auto
    then show ?thesis using 1 2 Cons by simp
  qed (use 1 in simp)
  then show ?thesis using d ll' h' by (auto simp: ll_rep_def)
qed

text \<open>What a client of a linked sequence relies on, whatever the representation is.\<close>

locale linked_sequence =
  fixes rep :: "'h \<Rightarrow> 'l \<Rightarrow> 'n list \<Rightarrow> bool"
    and insert_before :: "'h \<Rightarrow> 'l \<Rightarrow> 'n \<Rightarrow> 'n \<Rightarrow> 'h \<times> 'l"
    and remove :: "'h \<Rightarrow> 'l \<Rightarrow> 'n \<Rightarrow> 'h \<times> 'l"
  assumes distinct_rep: "rep h l xs \<Longrightarrow> distinct xs"
    and insert_law: "rep h l (xs @ a # ys) \<Longrightarrow> n \<notin> set (xs @ a # ys) \<Longrightarrow> insert_before h l a n = (h', l') \<Longrightarrow>
      rep h' l' (xs @ n # a # ys)"
    and remove_law: "rep h l (xs @ a # ys) \<Longrightarrow> remove h l a = (h', l') \<Longrightarrow> rep h' l' (xs @ ys)"
begin

lemma remove_filter:
  assumes "rep h l xs" "a \<in> set xs" "remove h l a = (h', l')"
  shows "rep h' l' (filter (\<lambda>x. x \<noteq> a) xs)"
proof -
  have f: "filter (\<lambda>x. x \<noteq> a) us = us" if "a \<notin> set us" for us :: "'n list" using that by (induction us) auto
  obtain ys zs where x: "xs = ys @ a # zs" using assms(2) by (auto dest: split_list)
  then have "filter (\<lambda>x. x \<noteq> a) xs = ys @ zs"
    using distinct_rep [OF assms(1)] f by simp
  then show ?thesis using remove_law [of h l ys a zs] assms(1,3) x by simp
qed

lemma remove_all_filter:
  "rep h l xs \<Longrightarrow> distinct as \<Longrightarrow> set as \<subseteq> set xs \<Longrightarrow> fold (\<lambda>a (h, l). remove h l a) as (h, l) = (h', l') \<Longrightarrow>
   rep h' l' (filter (\<lambda>x. x \<notin> set as) xs)"
proof (induction as arbitrary: h l xs)
  case (Cons a as)
  obtain h1 l1 where r: "remove h l a = (h1, l1)" by (meson surj_pair)
  have "rep h1 l1 (filter (\<lambda>x. x \<noteq> a) xs)" using remove_filter [OF _ _ r] Cons.prems by simp
  then have "rep h' l' (filter (\<lambda>x. x \<notin> set as) (filter (\<lambda>x. x \<noteq> a) xs))"
    using Cons.prems r by (intro Cons.IH) auto
  moreover have "filter (\<lambda>x. x \<notin> set as) (filter (\<lambda>x. x \<noteq> a) xs) = filter (\<lambda>x. x \<notin> set (a # as)) xs"
    by (auto intro!: filter_cong)
  ultimately show ?case by simp
qed simp

lemma insert_remove:
  assumes "rep h l (xs @ a # ys)" "n \<notin> set (xs @ a # ys)" "insert_before h l a n = (h1, l1)" "remove h1 l1 n = (h2, l2)"
  shows "rep h2 l2 (xs @ a # ys)"
  using remove_law [OF insert_law [OF assms(1-3)] assms(4)] .

end

interpretation ll: linked_sequence ll_rep linkedListInsertBefore linkedListRemove
  by unfold_locales (simp add: ll_rep_def, rule insertBefore_rep, assumption+, rule remove_rep, assumption+)

section \<open>Properties\<close>

text \<open>Inserting a node that is not in the list at its head gives the list with the node in front;
  into an empty list this needs a node whose links are null, and only then does it hold, since the
  insertion leaves the links of the first node as they were.\<close>

theorem linkedListInsertAtHead_spec:
  assumes "ll_rep h ll xs" "n \<notin> set xs" "linkedListInsertAtHead h ll n = (h', ll')"
  shows "ll_rep h' ll' (n # xs) \<longleftrightarrow> xs \<noteq> [] \<or> (prev (h n) = None \<and> nextCt (h n) = None)"
proof (cases xs)
  case Nil
  then show ?thesis using assms by (auto simp: ll_rep_def linkedListInsertAtHead_def)
next
  case (Cons y ys)
  then show ?thesis using assms by (auto simp: ll_rep_def linkedListInsertAtHead_def Let_def)
qed

lemma linkedListInsertAtHead_spec_witness:
  "ll_rep (fst (linkedListInsertAtHead (\<lambda>_. \<lparr>prev = None, nextCt = None\<rparr>) \<lparr>ll_head = Some 1, ll_tail = Some 1\<rparr> 2))
     (snd (linkedListInsertAtHead (\<lambda>_. \<lparr>prev = None, nextCt = None\<rparr>) \<lparr>ll_head = Some 1, ll_tail = Some 1\<rparr> 2)) [2, 1]"
proof -
  have "ll_rep (\<lambda>_. \<lparr>prev = None, nextCt = None\<rparr>) \<lparr>ll_head = Some 1, ll_tail = Some 1\<rparr> [1]"
    by (simp add: ll_rep_def last_of_def)
  then show ?thesis
    using linkedListInsertAtHead_spec [of _ _ "[1]" 2] by (metis list.distinct(1) numeral_eq_one_iff prod.collapse semiring_norm(85)
      empty_iff empty_set insert_iff list.simps(15))
qed

text \<open>C39: insertion and removal on the sequence. Inserting a new node before a member puts it there and
  removing it again restores the sequence; removing any selection of members, in any order, leaves
  the others in their order, with head, tail and both directions of links right throughout.\<close>

theorem linkedList_insert_remove:
  assumes "ll_rep h ll (xs @ a # ys)" "n \<notin> set (xs @ a # ys)"
    and "linkedListInsertBefore h ll a n = (h1, ll1)" "linkedListRemove h1 ll1 n = (h2, ll2)"
    and "distinct as" "set as \<subseteq> set (xs @ a # ys)" "fold (\<lambda>a (h, l). linkedListRemove h l a) as (h2, ll2) = (h3, ll3)"
  shows "ll_rep h1 ll1 (xs @ n # a # ys) \<and> ll_rep h2 ll2 (xs @ a # ys) \<and>
    ll_rep h3 ll3 (filter (\<lambda>x. x \<notin> set as) (xs @ a # ys))"
  using ll.insert_law [OF assms(1-3)] ll.insert_remove [OF assms(1-4)]
    ll.remove_all_filter [OF ll.insert_remove [OF assms(1-4)] assms(5-7)] by simp

lemma linkedList_insert_remove_witness:
  "\<exists>h1 ll1. linkedListInsertBefore ((\<lambda>_. \<lparr>prev = None, nextCt = None\<rparr>)(1 := \<lparr>prev = None, nextCt = Some 2\<rparr>, 2 := \<lparr>prev = Some 1, nextCt = None\<rparr>))
      \<lparr>ll_head = Some 1, ll_tail = Some 2\<rparr> 2 3 = (h1, ll1) \<and> ll_rep h1 ll1 [1, 3, 2]"
proof -
  let ?h = "(\<lambda>_. \<lparr>prev = None, nextCt = None\<rparr>)(1 := \<lparr>prev = None, nextCt = Some 2\<rparr>, 2 := \<lparr>prev = Some 1, nextCt = None\<rparr>)"
  let ?l = "\<lparr>ll_head = Some 1, ll_tail = Some 2\<rparr>"
  have r: "ll_rep ?h ?l ([1] @ 2 # [])" by (simp add: ll_rep_def last_of_def)
  obtain h1 ll1 where i: "linkedListInsertBefore ?h ?l 2 3 = (h1, ll1)" by (meson surj_pair)
  obtain h2 ll2 where m: "linkedListRemove h1 ll1 3 = (h2, ll2)" by (meson surj_pair)
  show ?thesis using linkedList_insert_remove [OF r _ i m, of "[]" h2 ll2] i by auto
qed

end
