(* ===== verification/DataSets.thy ===== *)
theory DataSets
  imports Prelude
begin

text \<open>
  Routines of \<^verbatim>\<open>data_sets.c\<close> on whole data sets: reversing the byte order of messages, the tables
  from data ids to message-controller bits, satellite numbers, the run-time profiler and the
  hardware type of a device. Data is an object of bytes; an access outside it is \<open>None\<close>.
\<close>

section \<open>Byte order\<close>

definition flipFloat :: "u8 list \<Rightarrow> nat \<Rightarrow> u8 list option" where
  "flipFloat mem p = do { bs \<leftarrow> obj_rd mem p 4; obj_wr mem p (rev bs) }"

text \<open>A float and a double passed by value are their bytes.\<close>

definition flipFloatCopy :: "u8 list \<Rightarrow> u8 list" where
  "flipFloatCopy val = [val ! 3, val ! 2, val ! 1, val ! 0]"

definition flipDouble :: "u8 list \<Rightarrow> nat \<Rightarrow> u8 list option" where
  "flipDouble mem p = do { bs \<leftarrow> obj_rd mem p 8; obj_wr mem p (drop 4 bs @ take 4 bs) }"

definition flipDoubleCopy :: "u8 list \<Rightarrow> u8 list" where
  "flipDoubleCopy val = rev (drop 4 val) @ rev (take 4 val)"

fun swap_words :: "u8 list \<Rightarrow> u8 list" where
  "swap_words (a # b # c # d # bs) = d # c # b # a # swap_words bs"
| "swap_words bs = bs"

definition flipEndianess32 :: "u8 list \<Rightarrow> nat \<Rightarrow> int \<Rightarrow> u8 list option" where
  "flipEndianess32 mem p dataLength =
     (if dataLength mod 4 \<noteq> 0 \<or> dataLength \<le> 0 then Some mem
      else do { bs \<leftarrow> obj_rd mem p dataLength; obj_wr mem p (swap_words bs) })"

text \<open>The high bit of an offset marks a 64-bit integer instead of a double.\<close>

definition flip_one :: "u8 list \<Rightarrow> nat \<Rightarrow> int \<Rightarrow> int \<Rightarrow> u16 \<Rightarrow> u8 list option" where
  "flip_one mem p dataLength offset w =
     (let isDouble = (w AND 0x8000 = 0);
          off = uint (w AND 0x7FFF) - offset
      in if 0 \<le> off \<and> off \<le> dataLength - 8
         then (if isDouble then flipDouble mem (p + nat off)
               else do { bs \<leftarrow> obj_rd mem (p + nat off) 8; obj_wr mem (p + nat off) (rev bs) })
         else Some mem)"

fun flipDoubles :: "u8 list \<Rightarrow> nat \<Rightarrow> int \<Rightarrow> int \<Rightarrow> u16 list \<Rightarrow> u8 list option" where
  "flipDoubles mem p dataLength offset [] = Some mem"
| "flipDoubles mem p dataLength offset (w # ws) =
     do { mem' \<leftarrow> flip_one mem p dataLength offset w; flipDoubles mem' p dataLength offset ws }"

text \<open>Offsets and lengths alternate; an odd list is read past its end.\<close>

fun flipStrings :: "u8 list \<Rightarrow> nat \<Rightarrow> int \<Rightarrow> int \<Rightarrow> u16 list \<Rightarrow> u8 list option" where
  "flipStrings mem p dataLength offset [] = Some mem"
| "flipStrings mem p dataLength offset [w] = None"
| "flipStrings mem p dataLength offset (w # l # ws) =
     (let off = uint w - offset in
      do { mem' \<leftarrow> (if 0 \<le> off \<and> off \<le> dataLength - uint l
                    then flipEndianess32 mem (p + nat off) (uint l) else Some mem);
           flipStrings mem' p dataLength offset ws })"

section \<open>Message-controller bits\<close>

text \<open>Arrays with designated initialisers: entries not listed are zero.\<close>

definition table_at :: "(nat \<times> u64) list \<Rightarrow> u32 \<Rightarrow> u64 option" where
  "table_at t dataId =
     (if dataId < 132 then Some (case map_of t (unat dataId) of None \<Rightarrow> 0 | Some v \<Rightarrow> v) else None)"

definition g_didToRmcBit :: "(nat \<times> u64) list" where
  "g_didToRmcBit =
     [(4, 0x1), (5, 0x2), (65, 0x4), (66, 0x8),
      (57, 0x80000), (96, 0x10000000000), (97, 0x20000000000), (58, 0x10),
      (3, 0x20), (95, 0x4000000000), (62, 0x8000000000), (53, 0x40),
      (52, 0x80), (13, 0x400), (14, 0x800), (30, 0x100000),
      (31, 0x200000), (15, 0x4000), (16, 0x8000), (45, 0x40000000000),
      (84, 0x80000000000), (69, 0x1000), (70, 0x2000), (60, 0x10000),
      (6, 0x400000), (54, 0x800000), (21, 0x1000000), (22, 0x4000000),
      (91, 0x1000000000), (92, 0x2000000000), (68, 0x20000), (72, 0x40000),
      (67, 0x8000000), (76, 0x10000000), (78, 0x20000000), (77, 0x40000000),
      (71, 0x80000000), (87, 0x100000000), (85, 0x400000000), (86, 0x800000000),
      (119, 0x800000000000000), (123, 0x400000000000), (122, 0x100000000000), (124, 0x200000000000),
      (120, 0x800000000000), (121, 0x2000000000000), (126, 0x1000000000000), (125, 0x4000000000000),
      (127, 0x8000000000000)]"

definition didToRmcBit :: "u32 \<Rightarrow> u64 \<Rightarrow> u64 \<Rightarrow> u64 option" where
  "didToRmcBit dataId defaultRmcBits devInfoRmcBits =
     (if dataId = 1 then Some devInfoRmcBits
      else do { v \<leftarrow> table_at g_didToRmcBit dataId; Some (if v \<noteq> 0 then v else defaultRmcBits) })"

definition g_didToNmeaRmcBit :: "(nat \<times> u64) list" where
  "g_didToNmeaRmcBit =
     [(58, push_bit 1 1), (3, push_bit 2 1), (97, push_bit 3 1),
      (4, push_bit 4 1), (5, push_bit 5 1), (15, push_bit 15 1),
      (13, push_bit 17 1 OR push_bit 6 1 OR push_bit 7 1 OR push_bit 8 1 OR push_bit 9 1 OR push_bit 10 1 OR push_bit 11 1 OR push_bit 16 1 OR push_bit 12 1), (1, push_bit 14 1)]"

definition g_gpxDidToGrmcBit :: "(nat \<times> u64) list" where
  "g_gpxDidToGrmcBit =
     [(120, push_bit 0 1), (121, push_bit 1 1), (122, push_bit 3 1), (123, push_bit 2 1), (124, push_bit 4 1),
      (13, push_bit 5 1), (30, push_bit 6 1), (69, push_bit 9 1), (15, push_bit 7 1), (45, push_bit 8 1),
      (17, push_bit 10 1), (14, push_bit 11 1), (31, push_bit 12 1), (16, push_bit 13 1), (84, push_bit 14 1),
      (70, push_bit 15 1), (18, push_bit 16 1), (54, push_bit 17 1), (22, push_bit 18 1), (21, push_bit 19 1),
      (92, push_bit 20 1), (91, push_bit 21 1), (79, push_bit 22 1), (75, push_bit 23 1), (127, push_bit 24 1)]"

definition g_gpxGRMCPresetLookup :: "u16 list" where
  "g_gpxGRMCPresetLookup =
     [1000, 1, 500, 500, 500, 1, 1, 1, 1, 1, 1000, 1, 1, 1, 1, 1, 1000, 1, 1, 1, 1, 1, 1000, 0, 500]"

section \<open>Satellite numbers\<close>

text \<open>The configuration of \<^verbatim>\<open>rtk_defines.h\<close>: GPS and Galileo are enabled, the ranges of the other
  systems are empty.\<close>

definition ubxSys :: "int \<Rightarrow> int" where
  "ubxSys gnssID =
     (if gnssID = 0 then 0x01 else if gnssID = 1 then 0x02 else if gnssID = 2 then 0x08
      else if gnssID = 3 then 0x20 else if gnssID = 5 then 0x10 else if gnssID = 6 then 0x04 else 0)"

definition sat_range :: "int \<Rightarrow> int \<Rightarrow> int \<Rightarrow> int \<Rightarrow> int" where
  "sat_range base minprn maxprn prn = (if prn < minprn \<or> maxprn < prn then 0 else base + prn - minprn + 1)"

abbreviation (input) NSATGPS :: int where "NSATGPS \<equiv> 32"
abbreviation (input) NSATGLO :: int where "NSATGLO \<equiv> 0"
abbreviation (input) NSATGAL :: int where "NSATGAL \<equiv> 36"

definition satNo :: "int \<Rightarrow> int \<Rightarrow> int" where
  "satNo sys prn =
     (if prn \<le> 0 then 0
      else if sys = 0x01 then sat_range 0 1 32 prn
      else if sys = 0x04 then sat_range NSATGPS 0 0 prn
      else if sys = 0x08 then sat_range (NSATGPS + NSATGLO) 1 36 prn
      else if sys = 0x10 \<or> sys = 0x20 \<or> sys = 0x40 \<or> sys = 0x80 \<or> sys = 0x02
      then sat_range (NSATGPS + NSATGLO + NSATGAL) 0 0 prn
      else 0)"

text \<open>An overflow of \<open>svID + 192\<close> is undefined.\<close>

definition satNumCalc :: "int \<Rightarrow> int \<Rightarrow> int option" where
  "satNumCalc gnssID svID =
     (let sys = ubxSys gnssID; prn = svID + (if sys = 0x10 then 192 else 0)
      in if prn < 2 ^ 31 then Some (satNo sys prn) else None)"

section \<open>Profiler and device type\<close>

record runtime_profile_t =
  runTimeUs :: u32
  maxRuntimeUs :: u32
  StartTimeUs :: u32
  startPeriodUs :: u32

definition profiler_start :: "runtime_profile_t \<Rightarrow> u32 \<Rightarrow> runtime_profile_t" where
  "profiler_start p timeUs = p\<lparr>startPeriodUs := timeUs - StartTimeUs p, StartTimeUs := timeUs\<rparr>"

definition profiler_stop :: "runtime_profile_t \<Rightarrow> u32 \<Rightarrow> runtime_profile_t" where
  "profiler_stop p timeUs =
     (let r = timeUs - StartTimeUs p in p\<lparr>runTimeUs := r, maxRuntimeUs := (if maxRuntimeUs p > r then maxRuntimeUs p else r)\<rparr>)"

text \<open>The static counter of \<^verbatim>\<open>profiler_maintenance_1s\<close> is part of the state.\<close>

definition profiler_maintenance_1s :: "u8 \<Rightarrow> runtime_profile_t list \<Rightarrow> u8 \<times> runtime_profile_t list" where
  "profiler_maintenance_1s count ps =
     (if count + 1 < 5 then (count + 1, ps)
      else (0, map (\<lambda>p. p\<lparr>maxRuntimeUs := runTimeUs p\<rparr>) ps))"

record dev_info_t =
  di_reserved :: u16
  hardwareType :: u8
  reserved2 :: u8
  serialNumber :: u32
  hardwareVer :: "u8 list"
  firmwareVer :: "u8 list"
  buildNumber :: u32
  protocolVer :: "u8 list"
  repoRevision :: u32
  manufacturer :: "u8 list"
  buildType :: u8
  buildYear :: u8
  buildMonth :: u8
  buildDay :: u8
  buildHour :: u8
  buildMinute :: u8
  buildSecond :: u8
  buildMillisecond :: u8
  addInfo :: "u8 list"

definition devInfoPopulateMissingHardware :: "dev_info_t \<Rightarrow> dev_info_t" where
  "devInfoPopulateMissingHardware d =
     (if hardwareType d \<noteq> 0 then d
      else if uint (buildYear d) + 2000 \<le> 2024
      then (if hardwareVer d ! 0 = 2 then d\<lparr>hardwareType := 2\<rparr>
            else if hardwareVer d ! 0 = 3 then d\<lparr>hardwareType := 1\<rparr>
            else if hardwareVer d ! 0 = 5 then d\<lparr>hardwareType := 3\<rparr> else d)
      else d)"

section \<open>What the byte-order routines do\<close>

definition word_index :: "nat \<Rightarrow> nat" where
  "word_index j = 4 * (j div 4) + 3 - j mod 4"

lemma length_swap_words [simp]: "length (swap_words bs) = length bs"
  by (induction bs rule: swap_words.induct) simp_all

lemma dvd4: "4 dvd Suc (Suc (Suc (Suc n))) \<longleftrightarrow> 4 dvd n" "\<not> 4 dvd Suc 0" "\<not> 4 dvd Suc (Suc 0)" "\<not> 4 dvd Suc (Suc (Suc 0))" for n :: nat
  by presburger+

lemma word_index_Suc4: "word_index (Suc (Suc (Suc (Suc j)))) = word_index j + 4"
proof -
  have "Suc (Suc (Suc (Suc j))) div 4 = Suc (j div 4)" "Suc (Suc (Suc (Suc j))) mod 4 = j mod 4" by presburger+
  moreover have "j mod 4 < 4" by simp
  ultimately show ?thesis unfolding word_index_def by linarith
qed

lemma word_index_base: "word_index 0 = 3" "word_index 1 = 2" "word_index (Suc 0) = 2" "word_index 2 = 1" "word_index 3 = 0"
  by (simp_all add: word_index_def)

lemma word_index_block:
  assumes "i < 8"
  shows "word_index (4 * q + i) = 4 * q + (if i < 4 then 3 - i else 11 - i)"
proof (cases "i < 4")
  case False
  then obtain k where k: "i = 4 + k" "k < 4" using assms by (metis add_less_cancel_left le_iff_add not_less numeral_Bit0)
  then have "(4 * q + i) div 4 = Suc q" "(4 * q + i) mod 4 = k" by auto
  then show ?thesis using k unfolding word_index_def by simp
qed (simp add: word_index_def)

lemma word_index_less:
  assumes "j < n" "4 dvd n"
  shows "word_index j < n"
proof -
  obtain k where n: "n = 4 * k" using assms(2) by (auto simp: dvd_def)
  then have "j div 4 < k" using assms(1) by (simp add: less_mult_imp_div_less mult.commute)
  then show ?thesis unfolding word_index_def n by linarith
qed

lemma nth_swap_words: "4 dvd length bs \<Longrightarrow> j < length bs \<Longrightarrow> swap_words bs ! j = bs ! word_index j"
proof (induction bs arbitrary: j rule: swap_words.induct)
  case (1 a b c d bs)
  consider "j = 0" | "j = 1" | "j = 2" | "j = 3" | k where "j = Suc (Suc (Suc (Suc k)))"
    by (cases j; cases "j - 1"; cases "j - 2"; cases "j - 3") auto
  then show ?case
  proof cases
    case (5 k)
    then show ?thesis using 1 by (simp add: word_index_Suc4 dvd4)
  qed (simp_all add: word_index_base)
qed (auto simp: dvd4)

lemma swap_words_twice: "4 dvd length bs \<Longrightarrow> swap_words (swap_words bs) = bs"
  by (induction bs rule: swap_words.induct) (simp_all add: dvd4)

lemma flipEndianess32_whole:
  assumes "length mem = n" "4 dvd n"
  shows "flipEndianess32 mem 0 (int n) = Some (swap_words mem)"
proof -
  have "int n mod 4 = 0" using assms(2) by presburger
  moreover have "int n \<le> 0 \<Longrightarrow> mem = []" using assms(1) by simp
  ultimately show ?thesis using assms(1) unfolding flipEndianess32_def obj_rd_def obj_wr_def by (cases "int n \<le> 0") simp_all
qed

text \<open>The byte an offset entry \<open>w\<close> moves to position \<open>j\<close>.\<close>

definition blk :: "u16 \<Rightarrow> nat" where
  "blk w = unat (w AND 0x7FFF)"

definition fp :: "u16 \<Rightarrow> nat \<Rightarrow> nat" where
  "fp w j = (let o' = blk w in
     if o' \<le> j \<and> j < o' + 8
     then (if w AND 0x8000 = 0 then (if j < o' + 4 then j + 4 else j - 4) else 2 * o' + 7 - j) else j)"

lemma flip_one_nth:
  assumes "blk w + 8 \<le> length mem"
  shows "\<exists>mem'. flip_one mem 0 (int (length mem)) 0 w = Some mem' \<and> length mem' = length mem \<and>
    (\<forall>j < length mem. mem' ! j = mem ! fp w j)"
proof -
  have u: "uint (w AND 0x7FFF) = int (blk w)" by (simp add: blk_def uint_nat del: of_nat_unat)
  let ?bs = "take 8 (drop (blk w) mem)"
  let ?new = "if w AND 0x8000 = 0 then drop 4 ?bs @ take 4 ?bs else rev ?bs"
  let ?m = "take (blk w) mem @ ?new @ drop (blk w + 8) mem"
  have l: "length ?bs = 8" "length ?new = 8" using assms by auto
  have run: "flip_one mem 0 (int (length mem)) 0 w = Some ?m"
    using assms l by (simp add: flip_one_def Let_def u flipDouble_def obj_rd_def obj_wr_def)
  have "?m ! j = mem ! fp w j" if "j < length mem" for j
  proof -
    consider "j < blk w" | "blk w + 8 \<le> j" | k where "j = blk w + k" "k < 8"
      by (metis le_add_diff_inverse less_diff_conv2 not_le add.commute)
    then show ?thesis
    proof cases
      case 3
      then have "?m ! j = ?new ! k" using assms l by (simp add: nth_append)
      then show ?thesis using 3 assms
        by (auto simp: fp_def Let_def nth_append rev_nth add.assoc algebra_simps Suc_diff_Suc intro!: arg_cong [where f = "(!) mem"])
    qed (use assms l in \<open>auto simp: nth_append fp_def\<close>)
  qed
  then show ?thesis using run l assms by auto
qed

fun fps :: "u16 list \<Rightarrow> nat \<Rightarrow> nat" where
  "fps [] j = j"
| "fps (w # ws) j = (if blk w \<le> j \<and> j < blk w + 8 then fp w j else fps ws j)"

definition apart :: "u16 \<Rightarrow> u16 \<Rightarrow> bool" where
  "apart v w \<longleftrightarrow> blk v + 8 \<le> blk w \<or> blk w + 8 \<le> blk v"

lemma fp_block: "blk w \<le> fp w j \<and> fp w j < blk w + 8 \<longleftrightarrow> blk w \<le> j \<and> j < blk w + 8"
  by (auto simp: fp_def Let_def)

lemma fps_cases:
  "(\<exists>w \<in> set ws. blk w \<le> j \<and> j < blk w + 8 \<and> fps ws j = fp w j) \<or>
   ((\<forall>w \<in> set ws. \<not> (blk w \<le> j \<and> j < blk w + 8)) \<and> fps ws j = j)"
  by (induction ws) auto

lemma fps_member:
  assumes "sorted_wrt apart ws" "w \<in> set ws" "blk w \<le> j" "j < blk w + 8"
  shows "fps ws j = fp w j"
  using assms
proof (induction ws)
  case (Cons v ws)
  show ?case
  proof (cases "v = w")
    case False
    then have "w \<in> set ws" "apart v w" using Cons.prems by auto
    then show ?thesis using Cons by (auto simp: apart_def)
  qed (use Cons.prems in simp)
qed simp

lemma flipDoubles_nth:
  assumes "sorted_wrt apart ws" "\<forall>w \<in> set ws. blk w + 8 \<le> length mem"
  shows "\<exists>mem'. flipDoubles mem 0 (int (length mem)) 0 ws = Some mem' \<and> length mem' = length mem \<and>
    (\<forall>j < length mem. mem' ! j = mem ! fps ws j)"
  using assms
proof (induction ws arbitrary: mem)
  case (Cons w ws)
  obtain m1 where m1: "flip_one mem 0 (int (length mem)) 0 w = Some m1" "length m1 = length mem"
    "\<And>j. j < length mem \<Longrightarrow> m1 ! j = mem ! fp w j"
    using flip_one_nth [of w mem] Cons.prems(2) by auto
  obtain m2 where m2: "flipDoubles m1 0 (int (length m1)) 0 ws = Some m2" "length m2 = length m1"
    "\<And>j. j < length m1 \<Longrightarrow> m2 ! j = m1 ! fps ws j"
    using Cons.IH [of m1] Cons.prems m1(2) by auto
  have "m2 ! j = mem ! fps (w # ws) j" if j: "j < length mem" for j
    using fps_cases [of ws j]
  proof
    assume "\<exists>v \<in> set ws. blk v \<le> j \<and> j < blk v + 8 \<and> fps ws j = fp v j"
    then obtain v where v: "v \<in> set ws" "blk v \<le> j" "j < blk v + 8" "fps ws j = fp v j" by blast
    have a: "apart w v" "blk v + 8 \<le> length mem" using Cons.prems v(1) by auto
    have k: "blk v \<le> fp v j" "fp v j < blk v + 8" using fp_block [of v j] v(2,3) by auto
    have "fp w (fp v j) = fp v j" "\<not> (blk w \<le> j \<and> j < blk w + 8)"
      using a(1) k v(2,3) by (auto simp: apart_def fp_def [of w])
    then show ?thesis using m2(3) [of j] m1(2,3) v(4) j k(2) a(2) by auto
  next
    assume "(\<forall>v \<in> set ws. \<not> (blk v \<le> j \<and> j < blk v + 8)) \<and> fps ws j = j"
    then show ?thesis using m2(3) [of j] m1(2,3) j by (auto simp: fp_def Let_def)
  qed
  then show ?case using m1(1,2) m2(1,2) by simp
qed simp

text \<open>C40: reversing a message as \<^verbatim>\<open>flipEndianess32\<close> and then \<^verbatim>\<open>flipDoubles\<close> do, with the 64-bit values at
  aligned offsets that do not overlap: every double ends up with its eight bytes reversed, every
  other 32-bit word with its four bytes reversed. A 64-bit integer is not reversed: its two words
  are exchanged with their bytes in the original order, since the second step reverses the bytes
  the first one has already swapped.\<close>

theorem flip_message_bytes:
  assumes len: "length mem = n" "4 dvd n" and ws: "sorted_wrt apart ws" "\<forall>w \<in> set ws. blk w + 8 \<le> n \<and> 4 dvd blk w"
  shows "\<exists>d1 d2. flipEndianess32 mem 0 (int n) = Some d1 \<and> flipDoubles d1 0 (int n) 0 ws = Some d2 \<and> length d2 = n \<and>
     (\<forall>w \<in> set ws. \<forall>k < 8. d2 ! (blk w + k) =
        (if w AND 0x8000 = 0 then mem ! (blk w + 7 - k) else mem ! (blk w + (if k < 4 then k + 4 else k - 4)))) \<and>
     (\<forall>j < n. (\<forall>w \<in> set ws. \<not> (blk w \<le> j \<and> j < blk w + 8)) \<longrightarrow> d2 ! j = mem ! word_index j)"
proof -
  let ?d1 = "swap_words mem"
  obtain d2 where d2: "flipDoubles ?d1 0 (int n) 0 ws = Some d2" "length d2 = n"
    "\<And>j. j < n \<Longrightarrow> d2 ! j = ?d1 ! fps ws j"
    using flipDoubles_nth [OF ws(1), of ?d1] ws(2) len by auto
  have 1: "d2 ! (blk w + k) = (if w AND 0x8000 = 0 then mem ! (blk w + 7 - k) else mem ! (blk w + (if k < 4 then k + 4 else k - 4)))"
    if w: "w \<in> set ws" and k: "k < 8" for w k
  proof -
    obtain q where q: "blk w = 4 * q" using ws(2) w by (auto simp: dvd_def)
    have f: "fps ws (blk w + k) = fp w (blk w + k)" using fps_member [OF ws(1) w] k by simp
    have "fp w (blk w + k) < blk w + 8" using fp_block [of w "blk w + k"] k by simp
    then have b: "fp w (blk w + k) < n" using ws(2) w by fastforce
    have wi: "word_index (4 * q + i) = 4 * q + (if i < 4 then 3 - i else 11 - i)" if "i < 8" for i
      using that by (rule word_index_block)
    have "d2 ! (blk w + k) = mem ! word_index (fp w (blk w + k))"
    proof -
      have "blk w + k < n" using ws(2) w k by fastforce
      then show ?thesis using d2(3) f b nth_swap_words [of mem "fp w (blk w + k)"] len by simp
    qed
    also have "word_index (fp w (blk w + k)) =
        (if w AND 0x8000 = 0 then blk w + 7 - k else blk w + (if k < 4 then k + 4 else k - 4))"
      using k wi [of "k + 4"] wi [of "k - 4"] wi [of "7 - k"] unfolding fp_def Let_def q by (auto simp: add.assoc)
    finally show ?thesis by simp
  qed
  have 2: "d2 ! j = mem ! word_index j" if "j < n" "\<forall>w \<in> set ws. \<not> (blk w \<le> j \<and> j < blk w + 8)" for j
    using that d2(3) [of j] fps_cases [of ws j] nth_swap_words [of mem j] len by auto
  show ?thesis using flipEndianess32_whole [OF len] d2(1,2) 1 2 by (intro exI conjI ballI allI impI) auto
qed

lemma flip_message_bytes_witness:
  "\<exists>d1 d2. flipEndianess32 [1, 2, 3, 4, 5, 6, 7, 8, 9, 10, 11, 12] 0 (int 12) = Some d1 \<and> flipDoubles d1 0 (int 12) 0 [4] = Some d2 \<and>
     d2 ! 4 = 12 \<and> d2 ! 11 = 5 \<and> d2 ! 0 = 4"
proof -
  let ?m = "[1, 2, 3, 4, 5, 6, 7, 8, 9, 10, 11, 12] :: u8 list"
  have b: "blk 4 = 4" by (simp add: blk_def)
  obtain d1 d2 where f: "flipEndianess32 ?m 0 (int 12) = Some d1" "flipDoubles d1 0 (int 12) 0 [4] = Some d2"
    "\<And>k. k < 8 \<Longrightarrow> d2 ! (4 + k) = ?m ! (4 + 7 - k)" "\<And>j. j < 12 \<Longrightarrow> j < 4 \<Longrightarrow> d2 ! j = ?m ! word_index j"
    using flip_message_bytes [of ?m 12 "[4]"] by (auto simp: b)
  show ?thesis using f(1,2) f(3) [of 0] f(3) [of 7] f(4) [of 0] by (intro exI conjI) (simp_all add: word_index_base)
qed

section \<open>Tables, satellites and the profiler\<close>

text \<open>The tables by bit position.\<close>

definition rmc_positions :: "(nat \<times> nat) list" where
  "rmc_positions =
     [(4, 0), (5, 1), (65, 2), (66, 3), (57, 19), (96, 40), (97, 41), (58, 4), (3, 5), (95, 38), (62, 39),
      (53, 6), (52, 7), (13, 10), (14, 11), (30, 20), (31, 21), (15, 14), (16, 15), (45, 42), (84, 43),
      (69, 12), (70, 13), (60, 16), (6, 22), (54, 23), (21, 24), (22, 26), (91, 36), (92, 37), (68, 17),
      (72, 18), (67, 27), (76, 28), (78, 29), (77, 30), (71, 31), (87, 32), (85, 34), (86, 35), (119, 59),
      (123, 46), (122, 44), (124, 45), (120, 47), (121, 49), (126, 48), (125, 50), (127, 51)]"

definition grmc_positions :: "(nat \<times> nat) list" where
  "grmc_positions =
     [(120, 0), (121, 1), (122, 3), (123, 2), (124, 4), (13, 5), (30, 6), (69, 9), (15, 7), (45, 8), (17,
      10), (14, 11), (31, 12), (16, 13), (84, 14), (70, 15), (18, 16), (54, 17), (22, 18), (21, 19), (92,
      20), (91, 21), (79, 22), (75, 23), (127, 24)]"

definition at_positions :: "(nat \<times> nat) list \<Rightarrow> (nat \<times> u64) list" where
  "at_positions ps = map (\<lambda>(d, k). (d, push_bit k 1)) ps"

lemma g_didToRmcBit_positions: "g_didToRmcBit = at_positions rmc_positions"
  by (simp add: g_didToRmcBit_def at_positions_def rmc_positions_def)

lemma g_gpxDidToGrmcBit_positions: "g_gpxDidToGrmcBit = at_positions grmc_positions"
  by (simp add: g_gpxDidToGrmcBit_def at_positions_def grmc_positions_def)

lemma positions_distinct: "distinct (map snd rmc_positions)" "distinct (map snd grmc_positions)"
  by (simp_all add: rmc_positions_def grmc_positions_def)

lemma map_of_at_positions: "map_of (at_positions ps) d = map_option (\<lambda>k. push_bit k 1) (map_of ps d)"
  by (induction ps) (auto simp: at_positions_def)

lemma single_bits_disjoint: "k \<noteq> l \<Longrightarrow> 2 ^ k AND 2 ^ l = (0 :: u64)"
  by (rule bit_word_eqI) (auto simp: bit_and_iff bit_exp_iff)

lemma table_disjoint:
  assumes "distinct (map snd ps)" "unat d \<noteq> unat e" "d < 132" "e < 132"
  shows "\<exists>a b. table_at (at_positions ps) d = Some a \<and> table_at (at_positions ps) e = Some b \<and> a AND b = 0"
proof -
  have "k \<noteq> l" if "map_of ps (unat d) = Some k" "map_of ps (unat e) = Some l" for k l
    using map_of_SomeD [OF that(1)] map_of_SomeD [OF that(2)] assms(1,2)
    by (force simp: distinct_map inj_on_def)
  then show ?thesis using assms(3,4)
    by (auto simp: table_at_def map_of_at_positions single_bits_disjoint split: option.splits)
qed

text \<open>No two data sets share a message-controller bit, in the table of the IMX and in that of the
  GPX: enabling the stream of one never enables another. Every valid data id has an entry (zero when
  it is not streamed), and \<^verbatim>\<open>didToRmcBit\<close> returns a nonzero value for it whenever its defaults are
  nonzero.\<close>

theorem rmc_bits_disjoint:
  assumes "d \<noteq> e" "d < 132" "e < 132" "dflt \<noteq> 0" "dev \<noteq> 0"
  shows "(\<exists>a b. table_at g_didToRmcBit d = Some a \<and> table_at g_didToRmcBit e = Some b \<and> a AND b = 0) \<and>
     (\<exists>a b. table_at g_gpxDidToGrmcBit d = Some a \<and> table_at g_gpxDidToGrmcBit e = Some b \<and> a AND b = 0) \<and>
     (\<exists>v. didToRmcBit d dflt dev = Some v \<and> v \<noteq> 0)"
proof -
  have u: "unat d \<noteq> unat e" using assms(1) word_unat_eq_iff by blast
  show ?thesis
    using table_disjoint [OF positions_distinct(1) u assms(2,3)] table_disjoint [OF positions_distinct(2) u assms(2,3)]
      assms(2,4,5) unfolding g_didToRmcBit_positions [symmetric] g_gpxDidToGrmcBit_positions [symmetric]
    by (auto simp: didToRmcBit_def)
qed

lemma rmc_bits_disjoint_witness:
  "(\<exists>a b. table_at g_didToRmcBit 4 = Some a \<and> table_at g_didToRmcBit 5 = Some b \<and> a AND b = 0) \<and>
   (\<exists>v. didToRmcBit 4 1 1 = Some v \<and> v \<noteq> 0)"
  using rmc_bits_disjoint [of 4 5 1 1] by simp

text \<open>The numbers of the satellites: GPS (gnssID 0) with PRN 1 to 32 keeps its PRN, Galileo (gnssID 2)
  with PRN 1 to 36 follows at 33, and every other system and PRN is refused with 0, so that 1 to 68
  are given exactly once.\<close>

lemma satNo_ranges:
  "satNo sys prn =
     (if sys = 0x01 \<and> 1 \<le> prn \<and> prn \<le> 32 then prn
      else if sys = 0x08 \<and> 1 \<le> prn \<and> prn \<le> 36 then 32 + prn else 0)"
  by (simp add: satNo_def sat_range_def)

lemma satNumCalc_numbering:
  assumes "svID < 2 ^ 31 - 192"
  shows "satNumCalc gnssID svID =
      Some (if gnssID = 0 \<and> 1 \<le> svID \<and> svID \<le> 32 then svID
            else if gnssID = 2 \<and> 1 \<le> svID \<and> svID \<le> 36 then 32 + svID else 0)"
  using assms by (simp add: satNumCalc_def ubxSys_def satNo_ranges)

lemma satNo_numbering: "bij_betw (\<lambda>(sys, prn). satNo sys prn) {(sys, prn). satNo sys prn \<noteq> 0} {1..68}"
proof (rule bij_betw_byWitness [where f' = "\<lambda>n. if n \<le> 32 then (1, n) else (8, n - 32)"])
  show "\<forall>a \<in> {(sys, prn). satNo sys prn \<noteq> 0}.
      (if (case a of (sys, prn) \<Rightarrow> satNo sys prn) \<le> 32 then (1, case a of (sys, prn) \<Rightarrow> satNo sys prn)
       else (8, (case a of (sys, prn) \<Rightarrow> satNo sys prn) - 32)) = a"
    by (auto simp: satNo_ranges split: if_splits)
qed (auto simp: satNo_ranges split: if_splits)

primrec profiler_runs :: "(u32 \<times> u32) list \<Rightarrow> runtime_profile_t \<Rightarrow> runtime_profile_t" where
  "profiler_runs [] p = p"
| "profiler_runs (x # xs) p = profiler_runs xs (profiler_stop (profiler_start p (fst x)) (fst x + snd x))"

text \<open>The profiler over any sequence of runs given by start time and duration: the longest run
  since the last reset and the duration of the last run, also when the microsecond timer wraps during
  a run; after the fifth maintenance call, and only then, the longest run starts over from the last.\<close>

lemma profiler_max_runtime:
  "maxRuntimeUs (profiler_runs xs p) = fold max (map snd xs) (maxRuntimeUs p) \<and>
   runTimeUs (profiler_runs xs p) = (if xs = [] then runTimeUs p else snd (last xs)) \<and>
   snd (profiler_maintenance_1s c [profiler_runs xs p]) =
     [profiler_runs xs p\<lparr>maxRuntimeUs :=
        (if c + 1 < 5 then fold max (map snd xs) (maxRuntimeUs p) else runTimeUs (profiler_runs xs p))\<rparr>]"
proof -
  have 1: "maxRuntimeUs (profiler_runs xs p) = fold max (map snd xs) (maxRuntimeUs p) \<and>
    runTimeUs (profiler_runs xs p) = (if xs = [] then runTimeUs p else snd (last xs))"
    by (induction xs arbitrary: p) (auto simp: profiler_stop_def profiler_start_def Let_def max_def intro!: arg_cong [where f = "fold _ _"])
  then show ?thesis by (simp add: profiler_maintenance_1s_def)
qed

end
