(* ===== verification/SerialPort.thy ===== *)
theory SerialPort
  imports CommParser
begin

text \<open>
  The serial port layer (\<^verbatim>\<open>serialPort.c\<close>). The platform supplies the functions of a port (open, read,
  write, ...): each is optional and works on the data of the port and on the platform state \<open>'s\<close>. A
  read returns a count and the bytes it stored at the start of the buffer; a write gets the bytes.
  The handle of a port is null or not.
\<close>

section \<open>Data\<close>

abbreviation (input) MAX_SERIAL_PORT_NAME_LENGTH :: nat where "MAX_SERIAL_PORT_NAME_LENGTH \<equiv> 63"
abbreviation (input) SERIAL_PORT_OPTIONS_MASK :: u32 where "SERIAL_PORT_OPTIONS_MASK \<equiv> 3"
abbreviation (input) SERIAL_PORT_DEFAULT_TIMEOUT :: int where "SERIAL_PORT_DEFAULT_TIMEOUT \<equiv> 2500"

text \<open>The fields of \<^verbatim>\<open>serial_port_t\<close> that hold data. The port name is its characters up to the null, the
  byte counters are unbounded. The error fields are set by the platform functions only and belong to
  their state.\<close>

record sp_data =
  sp_handle :: bool
  sp_port :: string
  sp_txBytes :: int
  sp_rxBytes :: int
  sp_options :: u32

type_synonym 's sp_state = "sp_data \<times> 's"
type_synonym 's sp_fun = "'s sp_state \<Rightarrow> int \<times> 's sp_state"

record 's serial_port_t =
  pfnOpen :: "(string \<Rightarrow> int \<Rightarrow> int \<Rightarrow> 's sp_fun) option"
  pfnIsOpen :: "'s sp_fun option"
  pfnRead :: "(int \<Rightarrow> int \<Rightarrow> 's sp_state \<Rightarrow> int \<times> u8 list \<times> 's sp_state) option"
  pfnAsyncRead :: "(int \<Rightarrow> 's sp_state \<Rightarrow> int \<times> u8 list \<times> 's sp_state) option"
  pfnWrite :: "(u8 list \<Rightarrow> 's sp_fun) option"
  pfnClose :: "'s sp_fun option"
  pfnFlush :: "'s sp_fun option"
  pfnDrain :: "'s sp_fun option"
  pfnGetByteCountAvailableToRead :: "'s sp_fun option"
  pfnGetByteCountAvailableToWrite :: "'s sp_fun option"
  pfnSleep :: "(int \<Rightarrow> 's sp_fun) option"

definition add_rx :: "int \<Rightarrow> 's sp_state \<Rightarrow> 's sp_state" where
  "add_rx n w = ((fst w)\<lparr>sp_rxBytes := sp_rxBytes (fst w) + n\<rparr>, snd w)"

definition add_tx :: "int \<Rightarrow> 's sp_state \<Rightarrow> 's sp_state" where
  "add_tx n w = ((fst w)\<lparr>sp_txBytes := sp_txBytes (fst w) + n\<rparr>, snd w)"

section \<open>Operations\<close>

text \<open>The pointer to the port is not null; the null tests of the buffers are left to the option
  arguments below.\<close>

definition serialPortSetOptions :: "u32 \<Rightarrow> sp_data \<Rightarrow> sp_data" where
  "serialPortSetOptions opts p = (if opts AND SERIAL_PORT_OPTIONS_MASK = 0 then p\<lparr>sp_options := opts\<rparr> else p)"

definition serialPortSetPort :: "string option \<Rightarrow> sp_data \<Rightarrow> sp_data" where
  "serialPortSetPort port p =
     (case port of None \<Rightarrow> p | Some nm \<Rightarrow> p\<lparr>sp_port := take MAX_SERIAL_PORT_NAME_LENGTH nm\<rparr>)"

definition serialPortOpen :: "'s serial_port_t \<Rightarrow> string option \<Rightarrow> int \<Rightarrow> int \<Rightarrow> 's sp_fun" where
  "serialPortOpen sp port baudRate blocking w =
     (case (port, pfnOpen sp) of
        (Some nm, Some f) \<Rightarrow> f nm baudRate blocking w
      | _ \<Rightarrow> (0, w))"

definition serialPortClose :: "'s serial_port_t \<Rightarrow> 's sp_fun" where
  "serialPortClose sp w = (case pfnClose sp of Some f \<Rightarrow> f w | None \<Rightarrow> (0, w))"

definition serialPortSleep :: "'s serial_port_t \<Rightarrow> int \<Rightarrow> 's sp_fun" where
  "serialPortSleep sp ms w = (case pfnSleep sp of Some f \<Rightarrow> f ms w | None \<Rightarrow> (0, w))"

fun open_retries :: "nat \<Rightarrow> 's serial_port_t \<Rightarrow> string option \<Rightarrow> int \<Rightarrow> int \<Rightarrow> 's sp_fun" where
  "open_retries 0 sp port baudRate blocking w = (0, w)"
| "open_retries (Suc n) sp port baudRate blocking w =
     (let (r, w1) = serialPortOpen sp port baudRate blocking w in
      if r \<noteq> 0 then (1, w1)
      else let (_, w2) = serialPortSleep sp 100 w1 in open_retries n sp port baudRate blocking w2)"

definition serialPortOpenRetry :: "'s serial_port_t \<Rightarrow> string option \<Rightarrow> int \<Rightarrow> int \<Rightarrow> 's sp_fun" where
  "serialPortOpenRetry sp port baudRate blocking w =
     (if port = None \<or> Option.is_none (pfnOpen sp) then (0, w)
      else
        let (_, w1) = serialPortClose sp w;
            (r, w2) = open_retries 30 sp port baudRate blocking w1
        in if r \<noteq> 0 then (1, w2) else let (_, w3) = serialPortClose sp w2 in (0, w3))"

definition serialPortIsOpen :: "'s serial_port_t \<Rightarrow> 's sp_fun" where
  "serialPortIsOpen sp w =
     (if \<not> sp_handle (fst w) then (0, w) else case pfnIsOpen sp of Some f \<Rightarrow> f w | None \<Rightarrow> (1, w))"

text \<open>The operations that only forward to the platform when the port is open.\<close>

definition forward :: "'s sp_fun option \<Rightarrow> 's sp_fun" where
  "forward f w = (if \<not> sp_handle (fst w) then (0, w) else case f of Some g \<Rightarrow> g w | None \<Rightarrow> (0, w))"

definition serialPortFlush :: "'s serial_port_t \<Rightarrow> 's sp_fun" where
  "serialPortFlush sp w = forward (pfnFlush sp) w"

definition serialPortDrain :: "'s serial_port_t \<Rightarrow> 's sp_fun" where
  "serialPortDrain sp w = forward (pfnDrain sp) w"

definition serialPortGetByteCountAvailableToRead :: "'s serial_port_t \<Rightarrow> 's sp_fun" where
  "serialPortGetByteCountAvailableToRead sp w = forward (pfnGetByteCountAvailableToRead sp) w"

definition serialPortGetByteCountAvailableToWrite :: "'s serial_port_t \<Rightarrow> 's sp_fun" where
  "serialPortGetByteCountAvailableToWrite sp w = forward (pfnGetByteCountAvailableToWrite sp) w"

definition serialPortReadTimeout ::
  "'s serial_port_t \<Rightarrow> int \<Rightarrow> int \<Rightarrow> 's sp_state \<Rightarrow> int \<times> u8 list \<times> 's sp_state" where
  "serialPortReadTimeout sp readCount timeoutMilliseconds w =
     (if \<not> sp_handle (fst w) \<or> readCount < 1 then (0, [], w)
      else case pfnRead sp of
             None \<Rightarrow> (0, [], w)
           | Some f \<Rightarrow>
               (case f readCount timeoutMilliseconds w of
                  (count, bs, w1) \<Rightarrow> if count < 0 then (0, bs, w1) else (count, bs, add_rx count w1)))"

definition serialPortRead :: "'s serial_port_t \<Rightarrow> int \<Rightarrow> 's sp_state \<Rightarrow> int \<times> u8 list \<times> 's sp_state" where
  "serialPortRead sp readCount w = serialPortReadTimeout sp readCount (- 1) w"

text \<open>\<open>completion\<close> says whether a completion function is given.\<close>

definition serialPortReadTimeoutAsync ::
  "'s serial_port_t \<Rightarrow> int \<Rightarrow> bool \<Rightarrow> 's sp_state \<Rightarrow> int \<times> u8 list \<times> 's sp_state" where
  "serialPortReadTimeoutAsync sp readCount completion w =
     (if \<not> sp_handle (fst w) \<or> readCount < 1 \<or> \<not> completion then (0, [], w)
      else case pfnAsyncRead sp of
             None \<Rightarrow> (0, [], w)
           | Some f \<Rightarrow>
               (case f readCount w of
                  (count, bs, w1) \<Rightarrow> if count < 0 then (0, bs, w1) else (count, bs, add_rx count w1)))"

definition serialPortReadCharTimeout ::
  "'s serial_port_t \<Rightarrow> int \<Rightarrow> 's sp_state \<Rightarrow> int \<times> u8 list \<times> 's sp_state" where
  "serialPortReadCharTimeout sp timeoutMilliseconds w = serialPortReadTimeout sp 1 timeoutMilliseconds w"

definition serialPortReadChar :: "'s serial_port_t \<Rightarrow> 's sp_state \<Rightarrow> int \<times> u8 list \<times> 's sp_state" where
  "serialPortReadChar sp w = serialPortReadCharTimeout sp SERIAL_PORT_DEFAULT_TIMEOUT w"

text \<open>The loop of \<^verbatim>\<open>serialPortReadLineTimeout\<close>; \<open>n\<close> is the room left in the buffer, \<open>acc\<close> the bytes stored so
  far. A read that reports one byte and stores none is outside the platform's contract: \<open>None\<close>.\<close>

fun read_line_loop ::
  "nat \<Rightarrow> 's serial_port_t \<Rightarrow> int \<Rightarrow> u8 list \<Rightarrow> bool \<Rightarrow> 's sp_state \<Rightarrow> (int \<times> u8 list \<times> 's sp_state) option" where
  "read_line_loop 0 sp tmo acc prevCR w = Some (- 1, acc, w)"
| "read_line_loop (Suc n) sp tmo acc prevCR w =
     (case serialPortReadCharTimeout sp tmo w of
        (count, bs, w1) \<Rightarrow>
          if count \<noteq> 1 then Some (- 1, acc, w1)
          else case bs of
                 [] \<Rightarrow> None
               | c # _ \<Rightarrow>
                   if c = 0x0A \<and> prevCR
                   then Some (int (length acc) - 1, take (length acc - 1) acc @ [0, c], w1)
                   else read_line_loop n sp tmo (acc @ [c]) (c = 0x0D) w1)"

text \<open>The result holds the start of the caller's buffer: what was read and stored there.\<close>

definition serialPortReadLineTimeout ::
  "'s serial_port_t \<Rightarrow> int \<Rightarrow> int \<Rightarrow> 's sp_state \<Rightarrow> (int \<times> u8 list \<times> 's sp_state) option" where
  "serialPortReadLineTimeout sp bufferLength timeoutMilliseconds w =
     (if \<not> sp_handle (fst w) \<or> bufferLength < 8 \<or> Option.is_none (pfnRead sp) then Some (0, [], w)
      else read_line_loop (nat bufferLength) sp timeoutMilliseconds [] False w)"

definition serialPortReadLine ::
  "'s serial_port_t \<Rightarrow> int \<Rightarrow> 's sp_state \<Rightarrow> (int \<times> u8 list \<times> 's sp_state) option" where
  "serialPortReadLine sp bufferLength w = serialPortReadLineTimeout sp bufferLength SERIAL_PORT_DEFAULT_TIMEOUT w"

text \<open>\<^verbatim>\<open>serialPortReadAsciiTimeout\<close>: \<open>buf\<close> is the caller's buffer, of which the line just read replaces the
  start. The start of the sentence is an offset in the buffer.\<close>

fun find_dollar :: "nat \<Rightarrow> u8 list \<Rightarrow> nat \<Rightarrow> int \<Rightarrow> nat option" where
  "find_dollar 0 buf i count = None"
| "find_dollar (Suc n) buf i count =
     (if i < length buf
      then (if buf ! i \<noteq> 0x24 \<and> int i < count then find_dollar n buf (Suc i) count else Some i)
      else None)"

definition ascii_check :: "u8 list \<Rightarrow> int \<Rightarrow> (int \<times> nat option) option" where
  "ascii_check buf count =
     do { i \<leftarrow> find_dollar (Suc (length buf)) buf 0 count;
          if count - int i > 7
          then
            (let n = nat count in
             do { bs \<leftarrow> obj_rd buf (i + 1) (count - 3 - (int i + 1));
                  star \<leftarrow> obj_rd buf (n - 3) 1;
                  if star = [0x2A]
                  then do { existingChecksum \<leftarrow> strtol16 (drop (n - 2) buf);
                            Some (if existingChecksum = nmea_cal_checksum bs then count else - 1, Some i) }
                  else Some (- 1, Some i) })
          else Some (- 1, None) }"

definition serialPortReadAsciiTimeout ::
  "'s serial_port_t \<Rightarrow> u8 list \<Rightarrow> int \<Rightarrow> 's sp_state \<Rightarrow> (int \<times> nat option \<times> u8 list \<times> 's sp_state) option" where
  "serialPortReadAsciiTimeout sp buf timeoutMilliseconds w =
     do { (count, bs, w1) \<leftarrow> serialPortReadLineTimeout sp (int (length buf)) timeoutMilliseconds w;
          buf1 \<leftarrow> obj_wr buf 0 bs;
          (r, asciiData) \<leftarrow> ascii_check buf1 count;
          Some (r, asciiData, buf1, w1) }"

definition serialPortReadAscii ::
  "'s serial_port_t \<Rightarrow> u8 list \<Rightarrow> 's sp_state \<Rightarrow> (int \<times> nat option \<times> u8 list \<times> 's sp_state) option" where
  "serialPortReadAscii sp buf w = serialPortReadAsciiTimeout sp buf SERIAL_PORT_DEFAULT_TIMEOUT w"

definition serialPortWrite :: "'s serial_port_t \<Rightarrow> u8 list \<Rightarrow> 's sp_fun" where
  "serialPortWrite sp bs w =
     (if \<not> sp_handle (fst w) \<or> length bs < 1 then (0, w)
      else case pfnWrite sp of
             None \<Rightarrow> (0, w)
           | Some f \<Rightarrow> (case f bs w of (count, w1) \<Rightarrow> if count < 0 then (0, w1) else (count, add_tx count w1)))"

definition serialPortWriteLine :: "'s serial_port_t \<Rightarrow> u8 list \<Rightarrow> 's sp_fun" where
  "serialPortWriteLine sp bs w =
     (if \<not> sp_handle (fst w) \<or> length bs < 1 then (0, w)
      else let (n1, w1) = serialPortWrite sp bs w; (n2, w2) = serialPortWrite sp [0x0D, 0x0A] w1 in (n1 + n2, w2))"

definition hexdigit :: "nat \<Rightarrow> u8" where
  "hexdigit n = (if n < 10 then 0x30 + of_nat n else 0x57 + of_nat n)"

text \<open>The first five bytes of \<^verbatim>\<open>*%.2x\r\n\<close> for a checksum of one byte.\<close>

definition ascii_trailer :: "int \<Rightarrow> u8 list" where
  "ascii_trailer ck = [0x2A, hexdigit (nat (ck div 16)), hexdigit (nat (ck mod 16)), 0x0D, 0x0A]"

definition serialPortWriteAscii :: "'s serial_port_t \<Rightarrow> u8 list \<Rightarrow> 's sp_fun" where
  "serialPortWriteAscii sp bs w =
     (if \<not> sp_handle (fst w) \<or> length bs < 2 then (0, w)
      else
        let dollar = (bs ! 0 = 0x24);
            (n1, w1) = (if dollar then (0, w) else serialPortWrite sp [0x24] w);
            len = (if dollar then length bs - 1 else length bs);
            (n2, w2) = serialPortWrite sp (take len bs) w1;
            ck = nmea_cal_checksum (if dollar then drop 1 bs else bs);
            (n3, w3) = serialPortWrite sp (ascii_trailer ck) w2
        in (n1 + n2 + n3, w3))"

definition serialPortWaitForTimeout :: "'s serial_port_t \<Rightarrow> u8 list option \<Rightarrow> int \<Rightarrow> 's sp_fun" where
  "serialPortWaitForTimeout sp waitFor timeoutMilliseconds w =
     (case waitFor of
        None \<Rightarrow> (1, w)
      | Some xs \<Rightarrow>
          if \<not> sp_handle (fst w) \<or> length xs < 1 then (1, w)
          else if length xs > 128 then (0, w)
          else (case serialPortReadTimeout sp (int (length xs)) timeoutMilliseconds w of
                  (count, bs, w1) \<Rightarrow>
                    (if count = int (length xs) \<and> take (length xs) (bs @ drop (length bs) (replicate 128 0)) = xs then 1 else 0, w1)))"

definition serialPortWaitFor :: "'s serial_port_t \<Rightarrow> u8 list option \<Rightarrow> 's sp_fun" where
  "serialPortWaitFor sp waitFor w = serialPortWaitForTimeout sp waitFor SERIAL_PORT_DEFAULT_TIMEOUT w"

definition serialPortWriteAndWaitForTimeout ::
  "'s serial_port_t \<Rightarrow> u8 list \<Rightarrow> u8 list option \<Rightarrow> int \<Rightarrow> 's sp_fun" where
  "serialPortWriteAndWaitForTimeout sp bs waitFor timeoutMilliseconds w =
     (case waitFor of
        None \<Rightarrow> (0, w)
      | Some xs \<Rightarrow>
          if \<not> sp_handle (fst w) \<or> length bs < 1 \<or> length xs < 1 then (0, w)
          else let (n, w1) = serialPortWrite sp bs w in
               if n \<noteq> int (length bs) then (0, w1) else serialPortWaitForTimeout sp waitFor timeoutMilliseconds w1)"

definition serialPortWriteAndWaitFor :: "'s serial_port_t \<Rightarrow> u8 list \<Rightarrow> u8 list option \<Rightarrow> 's sp_fun" where
  "serialPortWriteAndWaitFor sp bs waitFor w =
     serialPortWriteAndWaitForTimeout sp bs waitFor SERIAL_PORT_DEFAULT_TIMEOUT w"

section \<open>A platform with a byte queue\<close>

text \<open>What the read and write functions of a platform promise, for a port whose output comes back as
  its input: \<open>q\<close> is the bytes written and not yet read. A write stores all its bytes; a read of one
  byte returns the first one, or nothing.\<close>

definition loopback :: "'s serial_port_t \<Rightarrow> ('s \<Rightarrow> u8 list) \<Rightarrow> bool" where
  "loopback sp q \<longleftrightarrow>
     (\<exists>f. pfnWrite sp = Some f \<and>
        (\<forall>bs w. \<exists>w'. f bs w = (int (length bs), w') \<and> q (snd w') = q (snd w) @ bs \<and> sp_handle (fst w') = sp_handle (fst w))) \<and>
     (\<exists>g. pfnRead sp = Some g \<and>
        (\<forall>t w. case q (snd w) of
            [] \<Rightarrow> g 1 t w = (0, [], w)
          | c # cs \<Rightarrow> \<exists>w'. g 1 t w = (1, [c], w') \<and> q (snd w') = cs \<and> sp_handle (fst w') = sp_handle (fst w)))"

lemma add_simps [simp]:
  "snd (add_rx n w) = snd w" "sp_handle (fst (add_rx n w)) = sp_handle (fst w)"
  "snd (add_tx n w) = snd w" "sp_handle (fst (add_tx n w)) = sp_handle (fst w)"
  by (simp_all add: add_rx_def add_tx_def)

lemma loopback_write:
  assumes "loopback sp q" "sp_handle (fst w)" "bs \<noteq> []"
  shows "\<exists>w'. serialPortWrite sp bs w = (int (length bs), w') \<and> q (snd w') = q (snd w) @ bs \<and> sp_handle (fst w')"
proof -
  obtain f where f: "pfnWrite sp = Some f"
    "\<And>bs w. \<exists>w'. f bs w = (int (length bs), w') \<and> q (snd w') = q (snd w) @ bs \<and> sp_handle (fst w') = sp_handle (fst w)"
    using assms(1) unfolding loopback_def by blast
  obtain w1 where "f bs w = (int (length bs), w1)" "q (snd w1) = q (snd w) @ bs" "sp_handle (fst w1) = sp_handle (fst w)"
    using f(2) by blast
  then show ?thesis using f(1) assms(2,3) by (cases bs) (auto simp: serialPortWrite_def)
qed

lemma loopback_read:
  assumes "loopback sp q" "sp_handle (fst w)" "q (snd w) = c # cs"
  shows "\<exists>w'. serialPortReadCharTimeout sp t w = (1, [c], w') \<and> q (snd w') = cs \<and> sp_handle (fst w')"
proof -
  obtain g where g: "pfnRead sp = Some g" "\<And>t w. case q (snd w) of [] \<Rightarrow> g 1 t w = (0, [], w)
      | c # cs \<Rightarrow> \<exists>w'. g 1 t w = (1, [c], w') \<and> q (snd w') = cs \<and> sp_handle (fst w') = sp_handle (fst w)"
    using assms(1) unfolding loopback_def by blast
  obtain w1 where "g 1 t w = (1, [c], w1)" "q (snd w1) = cs" "sp_handle (fst w1) = sp_handle (fst w)"
    using g(2) [where w = w and t = t] assms(3) by auto
  then show ?thesis using g(1) assms(2) by (auto simp: serialPortReadCharTimeout_def serialPortReadTimeout_def)
qed

section \<open>Lines and sentences\<close>

text \<open>No line end inside; \<open>prev\<close> says whether a carriage return comes before.\<close>

fun no_crlf :: "bool \<Rightarrow> u8 list \<Rightarrow> bool" where
  "no_crlf prev [] = True"
| "no_crlf prev (c # cs) \<longleftrightarrow> \<not> (prev \<and> c = 0x0A) \<and> no_crlf (c = 0x0D) cs"

lemma no_crlf_append: "no_crlf p xs \<Longrightarrow> 0x0A \<notin> set ys \<Longrightarrow> no_crlf p (xs @ ys)"
proof (induction xs arbitrary: p)
  case Nil
  then show ?case by (induction ys arbitrary: p) auto
qed auto

lemma read_line_loop_ok:
  assumes "loopback sp q" "sp_handle (fst w)" "q (snd w) = line @ [0x0D, 0x0A] @ rest" "no_crlf prev line" "length line + 2 \<le> n"
  shows "\<exists>w'. read_line_loop n sp t acc prev w = Some (int (length acc + length line), acc @ line @ [0, 0x0A], w') \<and>
    q (snd w') = rest \<and> sp_handle (fst w')"
  using assms
proof (induction line arbitrary: acc prev w n)
  case Nil
  obtain n' where n: "n = Suc (Suc n')" using Nil(5) by (cases n; cases "n - 1") auto
  obtain w1 where 1: "serialPortReadCharTimeout sp t w = (1, [0x0D], w1)" "q (snd w1) = 0x0A # rest" "sp_handle (fst w1)"
    using loopback_read [OF Nil(1,2), of "0x0D" "0x0A # rest" t] Nil(3) by auto
  obtain w2 where 2: "serialPortReadCharTimeout sp t w1 = (1, [0x0A], w2)" "q (snd w2) = rest" "sp_handle (fst w2)"
    using loopback_read [OF Nil(1) 1(3,2), of t] by auto
  show ?case using 1(1) 2 by (simp add: n)
next
  case (Cons c line)
  obtain n' where n: "n = Suc n'" using Cons.prems(5) by (cases n) auto
  obtain w1 where 1: "serialPortReadCharTimeout sp t w = (1, [c], w1)" "q (snd w1) = line @ [0x0D, 0x0A] @ rest" "sp_handle (fst w1)"
    using loopback_read [OF Cons.prems(1,2), of c "line @ [0x0D, 0x0A] @ rest" t] Cons.prems(3) by auto
  have "\<exists>w'. read_line_loop n' sp t (acc @ [c]) (c = 0x0D) w1 =
      Some (int (length (acc @ [c]) + length line), (acc @ [c]) @ line @ [0, 0x0A], w') \<and> q (snd w') = rest \<and> sp_handle (fst w')"
    using Cons.prems(4,5) n by (intro Cons.IH [OF Cons.prems(1) 1(3,2)]) auto
  then show ?case using 1(1) Cons.prems(4) by (auto simp: n)
qed

lemma hexdigit_table:
  "list_all (\<lambda>n. hexval (hexdigit n) = Some (int n) \<and> \<not> is_space (hexdigit n) \<and> hexdigit n \<noteq> 0x2D \<and> hexdigit n \<noteq> 0x2B \<and>
     hexdigit n \<noteq> 0x78 \<and> hexdigit n \<noteq> 0x58 \<and> hexdigit n \<noteq> 0x0A) [0..<16]"
  by code_simp

lemma hexdigit_facts:
  assumes "n < 16"
  shows "hexval (hexdigit n) = Some (int n)" "\<not> is_space (hexdigit n)" "hexdigit n \<noteq> 0x2D" "hexdigit n \<noteq> 0x2B"
    "hexdigit n \<noteq> 0x78" "hexdigit n \<noteq> 0x58" "hexdigit n \<noteq> 0x0A"
proof -
  have "n \<in> set [0..<16]" using assms by simp
  note h = bspec [OF hexdigit_table [unfolded list_all_iff] this]
  show "hexval (hexdigit n) = Some (int n)" "\<not> is_space (hexdigit n)" "hexdigit n \<noteq> 0x2D" "hexdigit n \<noteq> 0x2B"
    "hexdigit n \<noteq> 0x78" "hexdigit n \<noteq> 0x58" "hexdigit n \<noteq> 0x0A"
    using h by blast+
qed

lemma strtol16_two:
  assumes "a < 16" "b < 16"
  shows "strtol16 (hexdigit a # hexdigit b # 0 # bs) = Some (16 * int a + int b)"
  using hexdigit_facts [OF assms(1)] hexdigit_facts [OF assms(2)]
  by (simp add: strtol16_def strtol_prefix_def)

lemma nmea_cal_u8: "nmea_cal_checksum bs = uint (fold (\<lambda>b c. c XOR b) bs (0 :: u8))"
proof -
  have "fold (\<lambda>b cks. cks XOR uint b) bs (uint a) = uint (fold (\<lambda>b c. c XOR b) bs a)" for a :: u8
    by (induction bs arbitrary: a) (simp_all flip: unsigned_xor_eq)
  from this [of 0] show ?thesis by (simp add: nmea_cal_checksum_def)
qed

lemma nmea_cal_bounds: "0 \<le> nmea_cal_checksum bs" "nmea_cal_checksum bs < 256"
  using uint_bounded [of "fold (\<lambda>b c. c XOR b) bs (0 :: u8)"] by (simp_all add: nmea_cal_u8)

lemma ascii_check_sentence:
  assumes "find_dollar (Suc (length B)) B 0 (int L) = Some 0" "8 \<le> L" "obj_rd B 1 (int L - 4) = Some mid"
    and "obj_rd B (L - 3) 1 = Some [0x2A]" "strtol16 (drop (L - 2) B) = Some v"
  shows "ascii_check B (int L) = Some (if v = nmea_cal_checksum mid then int L else - 1, Some 0)"
  using assms by (simp add: ascii_check_def)

text \<open>A sentence in the queue: dollar, text, star, two digits, line end.\<close>

lemma read_ascii_sentence:
  assumes lb: "loopback sp q" "sp_handle (fst w)" and len: "4 \<le> length mid" "length mid + 6 \<le> length buf"
    and ck: "0 \<le> ck" "ck < 256" and q: "q (snd w) = 0x24 # mid @ ascii_trailer ck" and nc: "no_crlf False mid"
  shows "\<exists>w2. serialPortReadAsciiTimeout sp buf t w =
    Some (if ck = nmea_cal_checksum mid then int (length mid) + 4 else - 1, Some 0,
      0x24 # mid @ take 3 (ascii_trailer ck) @ [0, 0x0A] @ drop (length mid + 6) buf, w2) \<and>
    q (snd w2) = []"
proof -
  define h l where "h = nat (ck div 16)" and "l = nat (ck mod 16)"
  have hl: "h < 16" "l < 16" "16 * int h + int l = ck" using ck by (auto simp: h_def l_def)
  let ?line = "0x24 # mid @ [0x2A, hexdigit h, hexdigit l]"
  have tr: "ascii_trailer ck = [0x2A, hexdigit h, hexdigit l, 0x0D, 0x0A]" by (simp add: ascii_trailer_def h_def l_def)
  have "no_crlf False (mid @ [0x2A, hexdigit h, hexdigit l])"
    using nc hexdigit_facts(7) [OF hl(1)] hexdigit_facts(7) [OF hl(2)] by (intro no_crlf_append) auto
  then have "no_crlf False ?line" by simp
  then obtain w2 where r: "read_line_loop (length buf) sp t [] False w = Some (int (length ?line), ?line @ [0, 0x0A], w2)"
    "q (snd w2) = []"
    using read_line_loop_ok [OF lb, of ?line "[]" False "length buf" t "[]"] q len(2) by (auto simp: tr)
  have pr: "\<not> Option.is_none (pfnRead sp)" using lb(1) by (auto simp: loopback_def)
  let ?b = "?line @ [0, 0x0A] @ drop (length mid + 6) buf"
  have b: "obj_wr buf 0 (?line @ [0, 0x0A]) = Some ?b" using len(2) by (simp add: obj_wr_def numeral_eq_Suc)
  have "ascii_check ?b (int (length mid + 4)) =
      Some (if ck = nmea_cal_checksum mid then int (length mid + 4) else - 1, Some 0)"
    using len(1) strtol16_two [OF hl(1,2)] hl(3)
    by (intro ascii_check_sentence) (simp_all add: obj_rd_def)
  then have ac: "ascii_check ?b (int (length ?line)) =
      Some (if ck = nmea_cal_checksum mid then int (length mid) + 4 else - 1, Some 0)"
    by (simp add: add.commute)
  show ?thesis using r b ac lb(2) pr len
    by (simp add: tr numeral_3_eq_3 serialPortReadAsciiTimeout_def serialPortReadLineTimeout_def)
qed

section \<open>Properties\<close>

text \<open>Reading a line. When the port delivers a line without an inner line end, the two line-end
  bytes and more, and the buffer has room for the line and its end, \<^verbatim>\<open>serialPortReadLineTimeout\<close> returns
  the length of the line with the line terminated by a null byte in the buffer, and exactly the rest
  is left to read.\<close>

theorem serialPortReadLine_spec:
  assumes "loopback sp q" "sp_handle (fst w)" "q (snd w) = line @ [0x0D, 0x0A] @ rest" "no_crlf False line"
    and "int (length line) + 2 \<le> bufferLength" "8 \<le> bufferLength"
  shows "\<exists>w'. serialPortReadLineTimeout sp bufferLength t w = Some (int (length line), line @ [0, 0x0A], w') \<and>
    q (snd w') = rest"
proof -
  have "\<not> Option.is_none (pfnRead sp)" using assms(1) by (auto simp: loopback_def)
  moreover have "length line + 2 \<le> nat bufferLength" using assms(5) by linarith
  ultimately show ?thesis
    using read_line_loop_ok [OF assms(1-4), of "nat bufferLength" t "[]"] assms(2,6)
    by (auto simp: serialPortReadLineTimeout_def)
qed

text \<open>A loop-back port whose platform state is the queue.\<close>

definition demo_sp :: "u8 list serial_port_t" where
  "demo_sp = \<lparr>pfnOpen = None, pfnIsOpen = None,
     pfnRead = Some (\<lambda>n t w. (int (length (take (nat n) (snd w))), take (nat n) (snd w), fst w, drop (nat n) (snd w))),
     pfnAsyncRead = None, pfnWrite = Some (\<lambda>bs w. (int (length bs), fst w, snd w @ bs)), pfnClose = None,
     pfnFlush = None, pfnDrain = None, pfnGetByteCountAvailableToRead = None,
     pfnGetByteCountAvailableToWrite = None, pfnSleep = None\<rparr>"

definition demo_sp_data :: sp_data where
  "demo_sp_data = \<lparr>sp_handle = True, sp_port = [], sp_txBytes = 0, sp_rxBytes = 0, sp_options = 0\<rparr>"

lemma demo_loopback: "loopback demo_sp (\<lambda>s. s)"
  by (auto simp: loopback_def demo_sp_def split: list.splits)

lemma serialPortReadLine_spec_witness:
  "\<exists>w'. serialPortReadLineTimeout demo_sp 8 5 (demo_sp_data, [0x41, 0x42, 0x0D, 0x0A, 0x43]) =
     Some (int (length [0x41, 0x42 :: u8]), [0x41, 0x42] @ [0, 0x0A], w') \<and> snd w' = [0x43]"
  using serialPortReadLine_spec [OF demo_loopback, of "(demo_sp_data, [0x41, 0x42, 0x0D, 0x0A, 0x43])" "[0x41, 0x42]" "[0x43]" 8 5]
  by (simp add: demo_sp_data_def)

lemma loopback_write_trailer:
  assumes "loopback sp q" "sp_handle (fst w)" "xs \<noteq> []"
  shows "\<exists>w1 w2. serialPortWrite sp xs w = (int (length xs), w1) \<and> serialPortWrite sp (ascii_trailer ck) w1 = (5, w2) \<and>
    q (snd w2) = q (snd w) @ xs @ ascii_trailer ck \<and> sp_handle (fst w2)"
proof -
  obtain w1 where 1: "serialPortWrite sp xs w = (int (length xs), w1)" "q (snd w1) = q (snd w) @ xs" "sp_handle (fst w1)"
    using loopback_write [OF assms] by blast
  obtain w2 where "serialPortWrite sp (ascii_trailer ck) w1 = (int (length (ascii_trailer ck)), w2)"
    "q (snd w2) = q (snd w1) @ ascii_trailer ck" "sp_handle (fst w2)"
    using loopback_write [OF assms(1) 1(3), of "ascii_trailer ck"] by (auto simp: ascii_trailer_def)
  then show ?thesis using 1 by (intro exI conjI) (simp_all add: ascii_trailer_def)
qed

text \<open>C38: sentences written by \<^verbatim>\<open>serialPortWriteAscii\<close> and read back by \<^verbatim>\<open>serialPortReadAsciiTimeout\<close>. A text
  given without its dollar is put on the wire between a dollar and a star with its checksum and a
  line end; the reader accepts it and leaves in the buffer exactly the dollar, the text, the star and
  the two digits, the carriage return replaced by a null, and the rest of the buffer as it was. A
  text given with its dollar loses its last character on the way, while the checksum still covers it: the
  reader rejects the sentence, whatever the text is, unless that character is zero.\<close>

theorem serialPort_ascii_roundtrip:
  assumes lb: "loopback sp q" "sp_handle (fst w)" "q (snd w) = []"
    and body: "no_crlf False body" "4 \<le> length body" "length body + 6 \<le> length buf" "hd body \<noteq> 0x24" "c \<noteq> 0"
  shows "(\<exists>w1 w2. serialPortWriteAscii sp body w = (int (length body) + 6, w1) \<and>
      q (snd w1) = 0x24 # body @ ascii_trailer (nmea_cal_checksum body) \<and>
      serialPortReadAsciiTimeout sp buf t w1 =
        Some (int (length body) + 4, Some 0, 0x24 # body @ take 3 (ascii_trailer (nmea_cal_checksum body)) @
          [0, 0x0A] @ drop (length body + 6) buf, w2) \<and> q (snd w2) = []) \<and>
    (\<exists>w1 b w2. serialPortWriteAscii sp (0x24 # body @ [c]) w = (int (length body) + 6, w1) \<and>
      q (snd w1) = 0x24 # body @ ascii_trailer (nmea_cal_checksum (body @ [c])) \<and>
      serialPortReadAsciiTimeout sp buf t w1 = Some (- 1, Some 0, b, w2))"
proof
  have nz: "body \<noteq> []" using body(2) by auto
  then have h: "body ! 0 \<noteq> 0x24" using body(4) by (simp add: hd_conv_nth)
  obtain w0 where 0: "serialPortWrite sp [0x24] w = (1, w0)" "q (snd w0) = [0x24]" "sp_handle (fst w0)"
    using loopback_write [OF lb(1,2), of "[0x24]"] lb(3) by auto
  obtain w1 w2 where w: "serialPortWrite sp body w0 = (int (length body), w1)"
    "serialPortWrite sp (ascii_trailer (nmea_cal_checksum body)) w1 = (5, w2)"
    "q (snd w2) = 0x24 # body @ ascii_trailer (nmea_cal_checksum body)" "sp_handle (fst w2)"
    using loopback_write_trailer [OF lb(1) 0(3) nz, of "nmea_cal_checksum body"] 0(2) by auto
  have "serialPortWriteAscii sp body w = (int (length body) + 6, w2)"
    using lb(2) body(2) h 0(1) w by (simp add: serialPortWriteAscii_def)
  then show "\<exists>w1 w2. serialPortWriteAscii sp body w = (int (length body) + 6, w1) \<and>
      q (snd w1) = 0x24 # body @ ascii_trailer (nmea_cal_checksum body) \<and>
      serialPortReadAsciiTimeout sp buf t w1 =
        Some (int (length body) + 4, Some 0, 0x24 # body @ take 3 (ascii_trailer (nmea_cal_checksum body)) @
          [0, 0x0A] @ drop (length body + 6) buf, w2) \<and> q (snd w2) = []"
    using read_ascii_sentence [OF lb(1) w(4) body(2,3) nmea_cal_bounds w(3) body(1), of t] w(3) by auto
next
  let ?ck = "nmea_cal_checksum (body @ [c])"
  obtain w1 w2 where w: "serialPortWrite sp (0x24 # body) w = (int (length body) + 1, w1)"
    "serialPortWrite sp (ascii_trailer ?ck) w1 = (5, w2)" "q (snd w2) = 0x24 # body @ ascii_trailer ?ck" "sp_handle (fst w2)"
    using loopback_write_trailer [OF lb(1,2), of "0x24 # body" ?ck] lb(3) by (auto simp: add.commute)
  have "serialPortWriteAscii sp (0x24 # body @ [c]) w = (int (length body) + 6, w2)"
    using lb(2) w by (simp add: serialPortWriteAscii_def)
  moreover have "?ck \<noteq> nmea_cal_checksum body"
  proof
    assume "?ck = nmea_cal_checksum body"
    then have "fold (\<lambda>b c. c XOR b) body 0 XOR c = fold (\<lambda>b c. c XOR b) body (0 :: u8)"
      unfolding nmea_cal_u8 by (intro word_uint_eq_iff [THEN iffD2]) simp
    then show False using body(5) xor_left_cancel [of "fold (\<lambda>b c. c XOR b) body 0" c 0] by simp
  qed
  ultimately show "\<exists>w1 b w2. serialPortWriteAscii sp (0x24 # body @ [c]) w = (int (length body) + 6, w1) \<and>
      q (snd w1) = 0x24 # body @ ascii_trailer (nmea_cal_checksum (body @ [c])) \<and>
      serialPortReadAsciiTimeout sp buf t w1 = Some (- 1, Some 0, b, w2)"
    using read_ascii_sentence [OF lb(1) w(4) body(2,3) nmea_cal_bounds w(3) body(1), of t] w(3) by auto
qed

lemma serialPort_ascii_roundtrip_witness:
  "(\<exists>w1 w2. serialPortWriteAscii demo_sp [0x50, 0x49, 0x4E, 0x53] (demo_sp_data, []) = (10, w1) \<and>
      snd w1 = [0x24, 0x50, 0x49, 0x4E, 0x53, 0x2A, 0x30, 0x34, 0x0D, 0x0A] \<and>
      serialPortReadAsciiTimeout demo_sp (replicate 10 0) 5 w1 =
        Some (8, Some 0, [0x24, 0x50, 0x49, 0x4E, 0x53, 0x2A, 0x30, 0x34, 0, 0x0A], w2) \<and> snd w2 = []) \<and>
   (\<exists>w1 b w2. serialPortWriteAscii demo_sp [0x24, 0x50, 0x49, 0x4E, 0x53, 0x31] (demo_sp_data, []) = (10, w1) \<and>
      serialPortReadAsciiTimeout demo_sp (replicate 10 0) 5 w1 = Some (- 1, Some 0, b, w2))"
proof -
  have ck: "ascii_trailer (nmea_cal_checksum [0x50, 0x49, 0x4E, 0x53]) = [0x2A, 0x30, 0x34, 0x0D, 0x0A]"
    by code_simp
  show ?thesis
    using serialPort_ascii_roundtrip [OF demo_loopback, of "(demo_sp_data, [])" "[0x50, 0x49, 0x4E, 0x53]"
        "replicate 10 0" "0x31" 5]
    unfolding ck by (simp add: demo_sp_data_def numeral_3_eq_3) blast
qed

end
