(* ===== verification/Ihex.thy ===== *)
theory Ihex
  imports SerialPort
begin

text \<open>
  The reader of Intel HEX files (\<^verbatim>\<open>ihex.c\<close>). A file is its bytes and an end-of-file flag, reading
  consumes them. Strings are the bytes before the null. \<^verbatim>\<open>sscanf\<close> with a hexadecimal conversion of a
  maximal width is modelled after the C standard: it skips white space, then reads an optional sign,
  an optional \<^verbatim>\<open>0x\<close> and digits; it fails without a digit, and returns end of file when only white space
  is left. A conversion that reports end of file leaves its variable unset, which the code does not
  notice: the model returns \<open>None\<close> there, as for every access outside an array. Whether \<^verbatim>\<open>malloc\<close> finds
  memory for the image of a section is a parameter; the scratch buffer is always granted (the code
  does not test it) and the stream has no read errors.
\<close>

section \<open>Scanning\<close>

datatype scan = Scan_Eof | Scan_Fail | Scan_Val int

definition hex_value :: "u8 list \<Rightarrow> int" where
  "hex_value ds = fold (\<lambda>d v. 16 * v + the (hexval d)) ds 0"

definition scan_digits :: "u8 list \<Rightarrow> int option" where
  "scan_digits s =
     (let t = (case s of
                 a # b # r \<Rightarrow> if a = 0x30 \<and> (b = 0x78 \<or> b = 0x58) then r else s
               | _ \<Rightarrow> s);
          ds = takeWhile (\<lambda>b. hexval b \<noteq> None) t
      in if ds = [] then None else Some (hex_value ds))"

definition sscanf_hex :: "nat \<Rightarrow> u8 list \<Rightarrow> scan" where
  "sscanf_hex width s =
     (case take width (dropWhile is_space s) of
        [] \<Rightarrow> Scan_Eof
      | b # bs \<Rightarrow>
          (let r = (if b = 0x2D then map_option uminus (scan_digits bs)
                    else if b = 0x2B then scan_digits bs else scan_digits (b # bs))
           in case r of None \<Rightarrow> Scan_Fail | Some v \<Rightarrow> Scan_Val v))"

text \<open>The string at position \<open>p\<close> of a line; past its terminator nothing is known.\<close>

definition str_at :: "u8 list \<Rightarrow> nat \<Rightarrow> u8 list option" where
  "str_at line p = (if p \<le> length line then Some (drop p line) else None)"

definition scan_at :: "nat \<Rightarrow> u8 list \<Rightarrow> nat \<Rightarrow> int option option" where
  "scan_at width line p =
     do { s \<leftarrow> str_at line p;
          case sscanf_hex width s of
            Scan_Eof \<Rightarrow> None
          | Scan_Fail \<Rightarrow> Some None
          | Scan_Val v \<Rightarrow> Some (Some v) }"

section \<open>Lines\<close>

text \<open>The result of \<^verbatim>\<open>parse_hex_line\<close>: \<open>None\<close> undefined, \<open>Some None\<close> for the return value 0, otherwise the
  bytes, the address and the code. The loop over the bytes, \<open>k\<close> rounds before the array is full.\<close>

fun parse_bytes :: "nat \<Rightarrow> u8 list \<Rightarrow> nat \<Rightarrow> int \<Rightarrow> u8 list \<Rightarrow> int \<Rightarrow> (u8 list \<times> int \<times> nat) option option" where
  "parse_bytes k line p len acc sm =
     (if int (length acc) = len then Some (Some (acc, sm, p))
      else case k of
             0 \<Rightarrow> Some None
           | Suc k' \<Rightarrow>
               do { r \<leftarrow> scan_at 2 line p;
                    case r of
                      None \<Rightarrow> Some None
                    | Some v \<Rightarrow>
                        (let b = word_of_int v :: u8 in
                         if k' = 0 then Some None
                         else parse_bytes k' line (p + 2) len (acc @ [b]) (sm + uint b)) })"

definition parse_hex_line :: "u8 list \<Rightarrow> (u8 list \<times> int \<times> int) option option" where
  "parse_hex_line line =
     (if line = [] \<or> line ! 0 \<noteq> 0x3A then Some None
      else if length line < 11 then Some None
      else
        do { r1 \<leftarrow> scan_at 2 line 1;
             case r1 of
               None \<Rightarrow> Some None
             | Some len \<Rightarrow>
                 if int (length line) < (11 + 2 * len) mod 2 ^ 64 then Some None
                 else
                   do { r2 \<leftarrow> scan_at 4 line 3;
                        case r2 of
                          None \<Rightarrow> Some None
                        | Some addr \<Rightarrow>
                            do { r3 \<leftarrow> scan_at 2 line 7;
                                 case r3 of
                                   None \<Rightarrow> Some None
                                 | Some code \<Rightarrow>
                                     (let sm = len mod 256 + addr div 256 mod 256 + addr mod 256 + code mod 256 in
                                      do { r4 \<leftarrow> parse_bytes 256 line 9 len [] sm;
                                           case r4 of
                                             None \<Rightarrow> Some None
                                           | Some (bs, sm', p) \<Rightarrow>
                                               do { r5 \<leftarrow> scan_at 2 line p;
                                                    case r5 of
                                                      None \<Rightarrow> Some None
                                                    | Some cksum \<Rightarrow>
                                                        if (sm' mod 256 + cksum mod 256) mod 256 \<noteq> 0 then Some None
                                                        else Some (Some (bs, addr, code)) } }) } } })"

section \<open>Sections\<close>

record ihex_file =
  f_rest :: "u8 list"
  f_eof :: bool

record ihex_image_section_t =
  sec_address :: u32
  sec_image :: "u8 list option"
  sec_len :: u32

text \<open>The bytes \<^verbatim>\<open>fgets\<close> of a 512-byte line takes, and whether it runs into the end of the file.\<close>

definition fgets_take :: "u8 list \<Rightarrow> u8 list" where
  "fgets_take rest =
     (let t = take 511 rest; body = takeWhile (\<lambda>b. b \<noteq> 0x0A) t
      in take (Suc (length body)) t)"

definition fgets_eof :: "u8 list \<Rightarrow> bool" where
  "fgets_eof rest \<longleftrightarrow> 0x0A \<notin> set (take 511 rest) \<and> length rest < 511"

text \<open>Turning the end-of-line characters into terminators; the last character of an empty string is
  before the array.\<close>

definition strip_last :: "u8 \<Rightarrow> u8 list \<Rightarrow> u8 list option" where
  "strip_last c s = (if s = [] then None else Some (if last s = c then butlast s else s))"

definition chomp :: "u8 list \<Rightarrow> u8 list option" where
  "chomp chunk = do { s \<leftarrow> strip_last 0x0A (takeWhile (\<lambda>b. b \<noteq> 0) chunk); strip_last 0x0D s }"

record ihex_state =
  im_local :: "u8 list"
  minaddr :: int
  maxaddr :: int
  bytes_arr :: "u8 option list"
  alreadysetaddr :: bool
  addr_hi :: u32

abbreviation (input) MAX_IHEX_SECTION_LEN :: nat where "MAX_IHEX_SECTION_LEN \<equiv> 0x20000"

text \<open>Storing the bytes of a data record: \<open>Some None\<close> stands for the return value -1.\<close>

fun store_bytes :: "u8 list \<Rightarrow> int \<Rightarrow> ihex_state \<Rightarrow> ihex_state option option" where
  "store_bytes [] addr st = Some (Some st)"
| "store_bytes (b # bs) addr st =
     (if 0 \<le> addr \<and> addr < int (length (im_local st))
      then (let st1 = st\<lparr>im_local := (im_local st)[nat addr := b],
                         minaddr := (if addr < minaddr st then addr else minaddr st),
                         maxaddr := (if addr > maxaddr st then addr else maxaddr st)\<rparr>
            in if addr + 1 > int MAX_IHEX_SECTION_LEN then Some None else store_bytes bs (addr + 1) st1)
      else None)"

datatype sec_result = Sec_Error int | Sec_Done bool ihex_state ihex_file

text \<open>The loop over the lines. A line is never empty (an empty one is read before its start), so the
  rest of the file shrinks.\<close>

lemma fgets_take_length: "fgets_take rest \<noteq> [] \<Longrightarrow> length (drop (length (fgets_take rest)) rest) < length rest"
  by (auto simp: fgets_take_def Let_def)

lemma chomp_nonempty: "chomp chunk = Some l \<Longrightarrow> chunk \<noteq> []"
  by (auto simp: chomp_def strip_last_def split: if_splits)

function load_lines :: "ihex_file \<Rightarrow> ihex_state \<Rightarrow> sec_result option" where
  "load_lines f st =
     (if f_eof f then Some (Sec_Done False st f)
      else
        let chunk = fgets_take (f_rest f);
            f1 = \<lparr>f_rest = drop (length chunk) (f_rest f), f_eof = fgets_eof (f_rest f)\<rparr>
        in case chomp chunk of
             None \<Rightarrow> None
           | Some line \<Rightarrow>
               (case parse_hex_line line of
                  None \<Rightarrow> None
                | Some None \<Rightarrow> Some (Sec_Error (- 2))
                | Some (Some (bs, addr, status)) \<Rightarrow>
                    (let st1 = st\<lparr>bytes_arr := map Some bs @ drop (length bs) (bytes_arr st)\<rparr> in
                     if status = 0
                     then (case store_bytes bs addr st1 of
                             None \<Rightarrow> None
                           | Some None \<Rightarrow> Some (Sec_Error (- 1))
                           | Some (Some st2) \<Rightarrow> load_lines f1 st2)
                     else if status = 1 then Some (Sec_Done True st1 f1)
                     else if status = 4
                     then (if alreadysetaddr st1 then Some (Sec_Done False st1 (f\<lparr>f_eof := False\<rparr>))
                           else case (bytes_arr st1 ! 0, bytes_arr st1 ! 1) of
                                  (Some b0, Some b1) \<Rightarrow>
                                    load_lines f1 (st1\<lparr>addr_hi := push_bit 16 (ucast b1) OR push_bit 24 (ucast b0),
                                                       alreadysetaddr := True\<rparr>)
                                | _ \<Rightarrow> None)
                     else load_lines f1 st1)))"
  by pat_completeness auto

termination
proof (relation "measure (\<lambda>(f, st). length (f_rest f))")
  show "wf (measure (\<lambda>(f :: ihex_file, st :: ihex_state). length (f_rest f)))" by simp
qed (use fgets_take_length chomp_nonempty in \<open>auto simp: Let_def\<close>)

definition section_init :: ihex_state where
  "section_init =
     \<lparr>im_local = replicate MAX_IHEX_SECTION_LEN 0xFF, minaddr = 65536, maxaddr = 0,
      bytes_arr = replicate 256 None, alreadysetaddr = False, addr_hi = 0\<rparr>"

definition ihex_load_section ::
  "(u32 \<Rightarrow> bool) \<Rightarrow> ihex_file \<Rightarrow> ihex_image_section_t \<Rightarrow> (int \<times> ihex_image_section_t \<times> ihex_file) option" where
  "ihex_load_section malloc f sec =
     (case load_lines f section_init of
        None \<Rightarrow> None
      | Some (Sec_Error e) \<Rightarrow> Some (e, sec, f)
      | Some (Sec_Done eof st f1) \<Rightarrow>
          (let len = word_of_int (maxaddr st - minaddr st + 1) :: u32;
               sec1 = sec\<lparr>sec_len := len, sec_image := (if malloc len then Some [] else None)\<rparr>
           in if malloc len \<and> len \<noteq> 0
              then do { im \<leftarrow> obj_rd (im_local st) (nat (minaddr st)) (uint len);
                        Some (if eof then 1 else 0, sec1\<lparr>sec_address := addr_hi st, sec_image := Some im\<rparr>, f1) }
              else Some (- 1, sec1, f1)))"

definition ihex_unload_section :: "ihex_image_section_t \<Rightarrow> ihex_image_section_t" where
  "ihex_unload_section sec =
     (if sec_image sec \<noteq> None then sec\<lparr>sec_image := None, sec_address := 0, sec_len := 0\<rparr> else sec)"

text \<open>The do-while loop over the slots; after an error the position of the file no longer matters.\<close>

fun load_sections_loop ::
  "nat \<Rightarrow> (u32 \<Rightarrow> bool) \<Rightarrow> ihex_file \<Rightarrow> ihex_image_section_t list \<Rightarrow> nat \<Rightarrow> nat \<Rightarrow> nat \<Rightarrow>
   (nat \<times> ihex_image_section_t list) option" where
  "load_sections_loop 0 malloc f secs iter num num_slots = None"
| "load_sections_loop (Suc k) malloc f secs iter num num_slots =
     (if iter < length secs
      then do { (ret, sec, f1) \<leftarrow> ihex_load_section malloc f (secs ! iter);
                (let secs1 = secs[iter := sec] in
                 if ret < 0 then Some (num, secs1)
                 else if ret = 1 then Some (num + 1, secs1)
                 else if iter + 1 < num_slots
                 then load_sections_loop k malloc f1 secs1 (iter + 1) (num + 1) num_slots
                 else Some (num + 1, secs1)) }
      else None)"

definition ihex_load_sections ::
  "(u32 \<Rightarrow> bool) \<Rightarrow> u8 list option \<Rightarrow> ihex_image_section_t list \<Rightarrow> nat \<Rightarrow> (nat \<times> ihex_image_section_t list) option" where
  "ihex_load_sections malloc file secs num_slots =
     (case file of
        None \<Rightarrow> Some (0, secs)
      | Some bytes \<Rightarrow> load_sections_loop (Suc num_slots) malloc \<lparr>f_rest = bytes, f_eof = False\<rparr> secs 0 0 num_slots)"

definition ihex_unload_sections :: "ihex_image_section_t list \<Rightarrow> nat \<Rightarrow> ihex_image_section_t list option" where
  "ihex_unload_sections secs num =
     (if num \<le> length secs then Some (map ihex_unload_section (take num secs) @ drop num secs) else None)"

section \<open>Hex files as text\<close>

text \<open>The reference: how a record, a segment and a file are written, with upper or lower case digits and
  either line ending, and what memory a list of data records describes.\<close>

definition hex_char :: "bool \<Rightarrow> nat \<Rightarrow> u8" where
  "hex_char up n = (if n < 10 then 0x30 + of_nat n else (if up then 0x37 else 0x57) + of_nat n)"

definition hex2 :: "bool \<Rightarrow> nat \<Rightarrow> u8 list" where
  "hex2 up n = [hex_char up (n div 16), hex_char up (n mod 16)]"

definition hex_text :: "bool \<Rightarrow> nat \<Rightarrow> nat \<Rightarrow> u8 list \<Rightarrow> nat \<Rightarrow> u8 list" where
  "hex_text up code addr bs ck =
     0x3A # hex2 up (length bs) @ hex2 up (addr div 256) @ hex2 up (addr mod 256) @ hex2 up code @
     concat (map (\<lambda>b. hex2 up (unat b)) bs) @ hex2 up ck"

definition hex_sum :: "nat \<Rightarrow> nat \<Rightarrow> u8 list \<Rightarrow> nat" where
  "hex_sum code addr bs = length bs + addr div 256 + addr mod 256 + code + sum_list (map unat bs)"

definition hex_record :: "bool \<Rightarrow> bool \<Rightarrow> nat \<Rightarrow> nat \<Rightarrow> u8 list \<Rightarrow> u8 list" where
  "hex_record up crlf code addr bs =
     hex_text up code addr bs ((256 - hex_sum code addr bs mod 256) mod 256) @ (if crlf then [0x0D, 0x0A] else [0x0A])"

type_synonym hex_segment = "nat \<times> (nat \<times> u8 list) list"

definition segment_text :: "bool \<Rightarrow> bool \<Rightarrow> hex_segment \<Rightarrow> u8 list" where
  "segment_text up crlf seg =
     hex_record up crlf 4 0 [of_nat (fst seg div 256), of_nat (fst seg mod 256)] @
     concat (map (\<lambda>(a, bs). hex_record up crlf 0 a bs) (snd seg))"

definition hex_file_text :: "bool \<Rightarrow> bool \<Rightarrow> hex_segment list \<Rightarrow> u8 list" where
  "hex_file_text up crlf segs = concat (map (segment_text up crlf) segs) @ hex_record up crlf 1 0 []"

definition hex_byte :: "(nat \<times> u8 list) list \<Rightarrow> nat \<Rightarrow> u8" where
  "hex_byte recs i = fold (\<lambda>(a, bs) v. if a \<le> i \<and> i < a + length bs then bs ! (i - a) else v) recs 0xFF"

definition hex_lo :: "(nat \<times> u8 list) list \<Rightarrow> nat" where
  "hex_lo recs = fold (\<lambda>(a, bs) m. if bs = [] then m else min a m) recs 65536"

definition hex_hi :: "(nat \<times> u8 list) list \<Rightarrow> nat" where
  "hex_hi recs = fold (\<lambda>(a, bs) m. if bs = [] then m else max (a + length bs - 1) m) recs 0"

definition hex_section :: "hex_segment \<Rightarrow> ihex_image_section_t" where
  "hex_section seg =
     \<lparr>sec_address = of_nat (65536 * fst seg),
      sec_image = Some (map (hex_byte (snd seg)) [hex_lo (snd seg)..<Suc (hex_hi (snd seg))]),
      sec_len = of_nat (Suc (hex_hi (snd seg)) - hex_lo (snd seg))\<rparr>"

definition record_ok :: "nat \<times> u8 list \<Rightarrow> bool" where
  "record_ok r \<longleftrightarrow> fst r < 65536 \<and> length (snd r) < 250"

definition segment_ok :: "hex_segment \<Rightarrow> bool" where
  "segment_ok seg \<longleftrightarrow> fst seg < 65536 \<and> list_all record_ok (snd seg) \<and> list_ex (\<lambda>r. snd r \<noteq> []) (snd seg)"

section \<open>Records are read back\<close>

lemma hex_char_table:
  "list_all (\<lambda>up. list_all (\<lambda>n. hexval (hex_char up n) = Some (int n) \<and> \<not> is_space (hex_char up n) \<and>
     hex_char up n \<noteq> 0x2D \<and> hex_char up n \<noteq> 0x2B \<and> hex_char up n \<noteq> 0x78 \<and> hex_char up n \<noteq> 0x58 \<and>
     hex_char up n \<noteq> 0x0A \<and> hex_char up n \<noteq> 0x0D \<and> hex_char up n \<noteq> 0) [0..<16]) [False, True]"
  by code_simp

lemma hex_char_facts:
  assumes "n < 16"
  shows "hexval (hex_char up n) = Some (int n)" "\<not> is_space (hex_char up n)" "hex_char up n \<noteq> 0x2D"
    "hex_char up n \<noteq> 0x2B" "hex_char up n \<noteq> 0x78" "hex_char up n \<noteq> 0x58" "hex_char up n \<noteq> 0x0A"
    "hex_char up n \<noteq> 0x0D" "hex_char up n \<noteq> 0"
proof -
  have "up \<in> set [False, True]" "n \<in> set [0..<16]" using assms by auto
  note h = bspec [OF bspec [OF hex_char_table [unfolded list_all_iff] this(1)] this(2)]
  show "hexval (hex_char up n) = Some (int n)" "\<not> is_space (hex_char up n)" "hex_char up n \<noteq> 0x2D"
    "hex_char up n \<noteq> 0x2B" "hex_char up n \<noteq> 0x78" "hex_char up n \<noteq> 0x58" "hex_char up n \<noteq> 0x0A"
    "hex_char up n \<noteq> 0x0D" "hex_char up n \<noteq> 0"
    using h by blast+
qed

lemma hex2_length [simp]: "length (hex2 up n) = 2"
  by (simp add: hex2_def)

lemma hex2_clean:
  assumes "n < 256"
  shows "0x0A \<notin> set (hex2 up n)" "0x0D \<notin> set (hex2 up n)" "0 \<notin> set (hex2 up n)"
  using hex_char_facts(7-9) [of "n div 16" up, symmetric] hex_char_facts(7-9) [of "n mod 16" up, symmetric] assms
  by (simp_all add: hex2_def)

text \<open>A conversion whose width is the number of digits takes exactly these digits.\<close>

lemma hex_value_chars:
  "list_all (\<lambda>d. d < 16) ds \<Longrightarrow> hex_value (map (hex_char up) ds) = int (fold (\<lambda>d v. 16 * v + d) ds 0)"
proof -
  have "list_all (\<lambda>d. d < 16) ds \<Longrightarrow>
    fold (\<lambda>d v. 16 * v + the (hexval d)) (map (hex_char up) ds) (int v) = int (fold (\<lambda>d v. 16 * v + d) ds v)" for v
  proof (induction ds arbitrary: v)
    case (Cons d ds)
    then show ?case using Cons.IH [of "16 * v + d"] by (simp add: hex_char_facts(1))
  qed simp
  from this [of 0] show "list_all (\<lambda>d. d < 16) ds \<Longrightarrow> ?thesis" by (simp add: hex_value_def)
qed

lemma scan_digits_chars:
  assumes "list_all (\<lambda>d. d < 16) ds" "ds \<noteq> []"
  shows "scan_digits (map (hex_char up) ds) = Some (hex_value (map (hex_char up) ds))"
proof -
  have tw: "takeWhile (\<lambda>b. hexval b \<noteq> None) (map (hex_char up) ds) = map (hex_char up) ds"
    using assms(1) by (simp add: takeWhile_eq_all_conv list_all_iff hex_char_facts(1))
  have "(case map (hex_char up) ds of
           a # b # r \<Rightarrow> if a = 0x30 \<and> (b = 0x78 \<or> b = 0x58) then r else map (hex_char up) ds
         | _ \<Rightarrow> map (hex_char up) ds) = map (hex_char up) ds"
    using assms(1) hex_char_facts(5,6) by (auto split: list.splits simp: map_eq_Cons_conv)
  then show ?thesis using assms(2) tw by (simp only: scan_digits_def Let_def) simp
qed

lemma sscanf_hex_chars:
  assumes "list_all (\<lambda>d. d < 16) (d # ds)" "width = Suc (length ds)"
  shows "sscanf_hex width (map (hex_char up) (d # ds) @ r) = Scan_Val (int (fold (\<lambda>d v. 16 * v + d) (d # ds) 0))"
proof -
  let ?s = "map (hex_char up) (d # ds)"
  have "take width (dropWhile is_space (?s @ r)) = ?s" "hex_char up d \<noteq> 0x2D" "hex_char up d \<noteq> 0x2B"
    using assms hex_char_facts(2-4) [of d up] by simp_all
  then show ?thesis
    using scan_digits_chars [OF assms(1), of up] hex_value_chars [OF assms(1), of up] by (simp add: sscanf_hex_def)
qed

lemma sscanf_hex2: "n < 256 \<Longrightarrow> sscanf_hex 2 (hex2 up n @ r) = Scan_Val (int n)"
  using sscanf_hex_chars [of "n div 16" "[n mod 16]" 2 up r] by (simp add: hex2_def div_less_iff_less_mult)

lemma sscanf_hex4:
  "n < 256 \<Longrightarrow> m < 256 \<Longrightarrow> sscanf_hex 4 (hex2 up n @ hex2 up m @ r) = Scan_Val (int (256 * n + m))"
  using sscanf_hex_chars [of "n div 16" "[n mod 16, m div 16, m mod 16]" 4 up r]
  by (simp add: hex2_def div_less_iff_less_mult)

lemma scan_at2:
  "n < 256 \<Longrightarrow> drop p line = hex2 up n @ r \<Longrightarrow> scan_at 2 line p = Some (Some (int n))"
  by (cases "p \<le> length line") (simp_all add: scan_at_def str_at_def sscanf_hex2, simp add: hex2_def)

lemma scan_at4:
  "n < 256 \<Longrightarrow> m < 256 \<Longrightarrow> drop p line = hex2 up n @ hex2 up m @ r \<Longrightarrow>
   scan_at 4 line p = Some (Some (int (256 * n + m)))"
  by (cases "p \<le> length line") (simp_all add: scan_at_def str_at_def sscanf_hex4, simp add: hex2_def)

lemma unat_u8: "unat (b :: u8) < 256"
  using unsigned_less [of b, where ?'a = nat] by simp

lemma drop_past: "drop p line = xs @ ys \<Longrightarrow> length xs = n \<Longrightarrow> drop (p + n) line = ys"
  by (metis add.commute append_eq_conv_conj drop_drop)

declare parse_bytes.simps [simp del]

lemma parse_bytes_hex:
  "k + length acc = 256 \<Longrightarrow> length acc + length bs < 256 \<Longrightarrow>
   drop p line = concat (map (\<lambda>b. hex2 up (unat b)) bs) @ r \<Longrightarrow>
   parse_bytes k line p (int (length acc + length bs)) acc sm =
     Some (Some (acc @ bs, sm + int (sum_list (map unat bs)), p + 2 * length bs))"
proof (induction bs arbitrary: k acc p sm)
  case Nil
  then show ?case by (simp add: parse_bytes.simps [of k])
next
  case (Cons b bs)
  obtain k' where k: "k = Suc k'" "k' \<noteq> 0" using Cons.prems(1,2) by (cases k) auto
  have d: "drop p line = hex2 up (unat b) @ concat (map (\<lambda>b. hex2 up (unat b)) bs) @ r" using Cons.prems(3) by simp
  have sc: "scan_at 2 line p = Some (Some (int (unat b)))"
    by (intro scan_at2 [OF unat_u8 d])
  have "parse_bytes k' line (p + 2) (int (length (acc @ [b]) + length bs)) (acc @ [b]) (sm + uint b) =
     Some (Some ((acc @ [b]) @ bs, sm + uint b + int (sum_list (map unat bs)), p + 2 + 2 * length bs))"
    using Cons.prems(1,2) k(1) drop_past [OF d] by (intro Cons.IH) simp_all
  then show ?case by (subst parse_bytes.simps) (simp add: k sc ac_simps)
qed

lemma concat_hex2_length: "length (concat (map (\<lambda>b. hex2 up (f b)) bs)) = 2 * length bs"
  by (induction bs) simp_all

lemma hex_text_length [simp]: "length (hex_text up code addr bs ck) = 11 + 2 * length bs"
  by (simp add: hex_text_def concat_hex2_length)

text \<open>The fields of a record where the parser looks for them.\<close>

lemma hex_text_drops:
  shows "drop 1 (hex_text up code addr bs ck) = hex2 up (length bs) @ drop 3 (hex_text up code addr bs ck)"
    and "drop 3 (hex_text up code addr bs ck) = hex2 up (addr div 256) @ hex2 up (addr mod 256) @ drop 7 (hex_text up code addr bs ck)"
    and "drop 7 (hex_text up code addr bs ck) = hex2 up code @ drop 9 (hex_text up code addr bs ck)"
    and "drop 9 (hex_text up code addr bs ck) = concat (map (\<lambda>b. hex2 up (unat b)) bs) @ hex2 up ck"
  by (simp_all add: hex_text_def)

lemma parse_hex_text:
  assumes "code < 256" "addr < 65536" "length bs < 256" "ck < 256"
  shows "parse_hex_line (hex_text up code addr bs ck) =
    Some (if (hex_sum code addr bs + ck) mod 256 = 0 then Some (bs, int addr, int code) else None)"
proof -
  let ?l = "hex_text up code addr bs ck"
  note d = hex_text_drops [of up code addr bs ck]
  have r1: "scan_at 2 ?l 1 = Some (Some (int (length bs)))" by (rule scan_at2 [OF assms(3) d(1)])
  have r2: "scan_at 4 ?l 3 = Some (Some (int addr))" using scan_at4 [OF _ _ d(2)] assms(2) by simp
  have r3: "scan_at 2 ?l 7 = Some (Some (int code))" by (rule scan_at2 [OF assms(1) d(3)])
  have r4: "parse_bytes 256 ?l 9 (int (length bs)) [] sm =
      Some (Some (bs, sm + int (sum_list (map unat bs)), 9 + 2 * length bs))" for sm
    using parse_bytes_hex [OF _ _ d(4), of 256 "[]" sm] assms(3) by simp
  have "drop (9 + 2 * length bs) ?l = hex2 up ck @ []"
    using drop_past [OF d(4)] by (simp add: concat_hex2_length)
  then have r5: "scan_at 2 ?l (9 + 2 * length bs) = Some (Some (int ck))" by (rule scan_at2 [OF assms(4)])
  have hd: "?l \<noteq> []" "?l ! 0 = 0x3A" "\<not> length ?l < 11" "\<not> int (length ?l) < (11 + 2 * int (length bs)) mod 2 ^ 64"
    using assms(3) by (simp_all add: hex_text_def concat_hex2_length)
  define S where "S = int (length bs) mod 256 + int addr div 256 mod 256 + int addr mod 256 + int code mod 256"
  have "parse_hex_line ?l = (if ((S + int (sum_list (map unat bs))) mod 256 + int ck mod 256) mod 256 \<noteq> 0 then Some None
      else Some (Some (bs, int addr, int code)))"
    by (simp only: parse_hex_line_def hd r1 r2 r3 r4 r5 S_def Let_def Option.bind.simps option.case prod.case
        simp_thms if_False not_False_eq_True)
  moreover have "(S + int (sum_list (map unat bs))) mod 256 = int (hex_sum code addr bs) mod 256"
    using assms by (simp add: S_def hex_sum_def of_nat_div of_nat_mod)
  then have "((S + int (sum_list (map unat bs))) mod 256 + int ck mod 256) mod 256 = (int (hex_sum code addr bs) + int ck) mod 256"
    by (metis mod_add_eq)
  moreover have "(int (hex_sum code addr bs) + int ck) mod 256 = 0 \<longleftrightarrow> (hex_sum code addr bs + ck) mod 256 = 0"
    by presburger
  ultimately show ?thesis by (simp only: if_not_P split: if_split) simp
qed

text \<open>C36: A record of an Intel HEX file is read back: for every code, address and up to 255 bytes, in upper
  or lower case, \<^verbatim>\<open>parse_hex_line\<close> returns them when the checksum byte makes the sum of all bytes zero modulo
  256, and reports an error for every other checksum byte.\<close>

theorem parse_hex_line_roundtrip:
  assumes "code < 256" "addr < 65536" "length bs < 256" "ck < 256"
  shows "parse_hex_line (hex_text up code addr bs ck) =
    Some (if (hex_sum code addr bs + ck) mod 256 = 0 then Some (bs, int addr, int code) else None)"
  using assms by (rule parse_hex_text)

theorem parse_hex_line_roundtrip_witness:
  "parse_hex_line (hex_text True 0 0x100 [0x21, 0x46] 0x96) = Some (Some ([0x21, 0x46], 0x100, 0)) \<and>
   parse_hex_line (hex_text True 0 0x100 [0x21, 0x46] 0x97) = Some None"
  using parse_hex_line_roundtrip [of 0 256 "[0x21, 0x46]" 150 True] parse_hex_line_roundtrip [of 0 256 "[0x21, 0x46]" 151 True]
  by (simp add: hex_sum_def)

section \<open>Files are loaded\<close>

lemma complement_sum: "(n + (256 - n mod 256) mod 256) mod 256 = (0 :: nat)"
proof -
  have "n + (256 - n mod 256) = 256 * (n div 256) + 256"
    using mult_div_mod_eq [of 256 n] mod_less_divisor [of 256 n] by linarith
  then show ?thesis by (simp add: mod_add_right_eq)
qed

lemma hex_record_parts:
  assumes "code < 256" "addr < 65536" "length bs < 250"
  obtains body where "hex_record up crlf code addr bs = body @ (if crlf then [0x0D, 0x0A] else [0x0A])"
    "parse_hex_line body = Some (Some (bs, int addr, int code))" "length body \<le> 509" "body \<noteq> []"
    "0x0A \<notin> set body" "0x0D \<notin> set body" "0 \<notin> set body"
proof
  let ?ck = "(256 - hex_sum code addr bs mod 256) mod 256"
  let ?b = "hex_text up code addr bs ?ck"
  show "hex_record up crlf code addr bs = ?b @ (if crlf then [0x0D, 0x0A] else [0x0A])" by (simp add: hex_record_def)
  have "(hex_sum code addr bs + ?ck) mod 256 = 0" by (rule complement_sum)
  then show "parse_hex_line ?b = Some (Some (bs, int addr, int code))" using assms by (simp add: parse_hex_text)
  show "length ?b \<le> 509" "?b \<noteq> []" using assms(3) by (auto simp: hex_text_def concat_hex2_length)
  have "?ck < 256" "addr div 256 < 256" "addr mod 256 < 256" "length bs < 256" using assms by auto
  then show "0x0A \<notin> set ?b" "0x0D \<notin> set ?b" "0 \<notin> set ?b"
    using assms(1) hex2_clean unat_u8 by (auto simp: hex_text_def)
qed

lemma fgets_record:
  assumes "length body \<le> 509" "0x0A \<notin> set body" "l = body @ (if crlf then [0x0D, 0x0A] else [0x0A])"
  shows "fgets_take (l @ rest) = l" "\<not> fgets_eof (l @ rest)"
proof -
  obtain pre where l: "l = pre @ [0x0A]" "0x0A \<notin> set pre" "length pre \<le> 510"
    using assms by (cases crlf) (auto intro: that [of "body @ [0x0D]"])
  have t: "take 511 (l @ rest) = pre @ 0x0A # take (510 - length pre) rest"
    using l by (simp add: take_Cons')
  have "takeWhile (\<lambda>b. b \<noteq> 0x0A) (take 511 (l @ rest)) = pre"
    using l(2) unfolding t by (subst takeWhile_append2) auto
  then show "fgets_take (l @ rest) = l" using l t by (simp add: fgets_take_def)
  show "\<not> fgets_eof (l @ rest)" unfolding fgets_eof_def t by simp
qed

lemma chomp_record:
  assumes "body \<noteq> []" "0x0A \<notin> set body" "0x0D \<notin> set body" "0 \<notin> set body"
  shows "chomp (body @ (if crlf then [0x0D, 0x0A] else [0x0A])) = Some body"
proof -
  have tw: "takeWhile (\<lambda>b. b \<noteq> 0) (body @ e) = body @ e" if "0 \<notin> set e" for e
    using assms(4) that by (intro takeWhile_eq_all_conv [THEN iffD2]) auto
  have "last body \<noteq> 0x0D" using assms(1,3) last_in_set by metis
  then show ?thesis using assms(1) by (simp add: chomp_def tw strip_last_def last_append butlast_append)
qed

declare load_lines.simps [simp del]

text \<open>One step of the loop on a well-formed record.\<close>

lemma load_lines_record:
  assumes "code < 256" "addr < 65536" "length bs < 250"
  shows "load_lines \<lparr>f_rest = hex_record up crlf code addr bs @ rest, f_eof = False\<rparr> st =
    (let st1 = st\<lparr>bytes_arr := map Some bs @ drop (length bs) (bytes_arr st)\<rparr>; f1 = \<lparr>f_rest = rest, f_eof = False\<rparr> in
     if code = 0
     then (case store_bytes bs (int addr) st1 of
             None \<Rightarrow> None
           | Some None \<Rightarrow> Some (Sec_Error (- 1))
           | Some (Some st2) \<Rightarrow> load_lines f1 st2)
     else if code = 1 then Some (Sec_Done True st1 f1)
     else if code = 4
     then (if alreadysetaddr st then Some (Sec_Done False st1 \<lparr>f_rest = hex_record up crlf code addr bs @ rest, f_eof = False\<rparr>)
           else case (bytes_arr st1 ! 0, bytes_arr st1 ! 1) of
                  (Some b0, Some b1) \<Rightarrow>
                    load_lines f1 (st1\<lparr>addr_hi := push_bit 16 (ucast b1) OR push_bit 24 (ucast b0), alreadysetaddr := True\<rparr>)
                | _ \<Rightarrow> None)
     else load_lines f1 st1)"
proof -
  obtain body l where b: "hex_record up crlf code addr bs = l" "l = body @ (if crlf then [0x0D, 0x0A] else [0x0A])"
    "parse_hex_line body = Some (Some (bs, int addr, int code))" "length body \<le> 509" "body \<noteq> []"
    "0x0A \<notin> set body" "0x0D \<notin> set body" "0 \<notin> set body"
    using hex_record_parts [OF assms] by metis
  note f = fgets_record [OF b(4,6,2)]
  have c: "chomp l = Some body" using chomp_record [OF b(5-8)] b(2) by metis
  show ?thesis unfolding b(1) by (subst load_lines.simps) (simp add: f c b(3) Let_def cong: option.case_cong)
qed

text \<open>Storing the bytes of a record.\<close>

definition store_image :: "nat \<times> u8 list \<Rightarrow> u8 list \<Rightarrow> u8 list" where
  "store_image r im = take (fst r) im @ snd r @ drop (fst r + length (snd r)) im"

lemma store_image_length [simp]: "fst r + length (snd r) \<le> length im \<Longrightarrow> length (store_image r im) = length im"
  by (simp add: store_image_def)

lemma store_image_nth:
  "fst r + length (snd r) \<le> length im \<Longrightarrow> i < length im \<Longrightarrow>
   store_image r im ! i = (if fst r \<le> i \<and> i < fst r + length (snd r) then snd r ! (i - fst r) else im ! i)"
  by (auto simp: store_image_def nth_append)

lemma store_image_Cons:
  "a + Suc (length bs) \<le> length im \<Longrightarrow> store_image (Suc a, bs) (im[a := b]) = store_image (a, b # bs) im"
  by (simp add: store_image_def take_Suc_conv_app_nth)

lemma store_bytes_image:
  "a + length bs \<le> 0x20000 \<Longrightarrow> length (im_local st) = 0x20000 \<Longrightarrow>
   store_bytes bs (int a) st = Some (Some (st
     \<lparr>im_local := store_image (a, bs) (im_local st),
      minaddr := (if bs = [] then minaddr st else min (int a) (minaddr st)),
      maxaddr := (if bs = [] then maxaddr st else max (int (a + length bs - 1)) (maxaddr st))\<rparr>))"
proof (induction bs arbitrary: a st)
  case Nil
  then show ?case by (simp add: store_image_def)
next
  case (Cons b bs)
  let ?st = "st\<lparr>im_local := (im_local st)[a := b],
                minaddr := (if int a < minaddr st then int a else minaddr st),
                maxaddr := (if int a > maxaddr st then int a else maxaddr st)\<rparr>"
  have "store_bytes (b # bs) (int a) st = store_bytes bs (int (Suc a)) ?st"
    using Cons.prems by (simp add: Let_def add.commute)
  also have "\<dots> = Some (Some (?st
     \<lparr>im_local := store_image (Suc a, bs) (im_local ?st),
      minaddr := (if bs = [] then minaddr ?st else min (int (Suc a)) (minaddr ?st)),
      maxaddr := (if bs = [] then maxaddr ?st else max (int (Suc a + length bs - 1)) (maxaddr ?st))\<rparr>))"
    using Cons.prems by (intro Cons.IH) simp_all
  finally show ?case using Cons.prems by (auto simp: store_image_Cons min_def max_def)
qed

lemma load_lines_data:
  "list_all record_ok recs \<Longrightarrow> length im = 0x20000 \<Longrightarrow>
   \<exists>ba'. load_lines \<lparr>f_rest = concat (map (\<lambda>(a, bs). hex_record up crlf 0 a bs) recs) @ rest, f_eof = False\<rparr>
           (st\<lparr>im_local := im, minaddr := int m, maxaddr := int M, bytes_arr := ba\<rparr>) =
         load_lines \<lparr>f_rest = rest, f_eof = False\<rparr>
           (st\<lparr>im_local := fold store_image recs im,
               minaddr := int (fold (\<lambda>(a, bs) m. if bs = [] then m else min a m) recs m),
               maxaddr := int (fold (\<lambda>(a, bs) m. if bs = [] then m else max (a + length bs - 1) m) recs M),
               bytes_arr := ba'\<rparr>)"
proof (induction recs arbitrary: im m M ba)
  case Nil
  then show ?case by auto
next
  case (Cons r recs)
  obtain a bs where r: "r = (a, bs)" "a < 65536" "length bs < 250" using Cons.prems(1) by (cases r) (simp add: record_ok_def)
  let ?ba = "map Some bs @ drop (length bs) ba" and ?im = "store_image (a, bs) im"
  let ?m = "if bs = [] then m else min a m" and ?M = "if bs = [] then M else max (a + length bs - 1) M"
  let ?rest = "concat (map (\<lambda>(a, bs). hex_record up crlf 0 a bs) recs) @ rest"
  have sb: "store_bytes bs (int a) (st\<lparr>im_local := im, minaddr := int m, maxaddr := int M, bytes_arr := ?ba\<rparr>) =
      Some (Some (st\<lparr>im_local := ?im, minaddr := int ?m, maxaddr := int ?M, bytes_arr := ?ba\<rparr>))"
    using r(2,3) Cons.prems(2) by (subst store_bytes_image) (simp_all add: of_nat_min of_nat_max)
  have "load_lines \<lparr>f_rest = hex_record up crlf 0 a bs @ ?rest, f_eof = False\<rparr>
           (st\<lparr>im_local := im, minaddr := int m, maxaddr := int M, bytes_arr := ba\<rparr>) =
        load_lines \<lparr>f_rest = ?rest, f_eof = False\<rparr>
           (st\<lparr>im_local := ?im, minaddr := int ?m, maxaddr := int ?M, bytes_arr := ?ba\<rparr>)"
    using load_lines_record [of 0 a bs up crlf ?rest "st\<lparr>im_local := im, minaddr := int m, maxaddr := int M, bytes_arr := ba\<rparr>"] r(2,3) sb
    by (simp add: Let_def)
  moreover have "length ?im = 0x20000" using r(2,3) Cons.prems(2) by simp
  ultimately show ?case using Cons.IH [where im = ?im and m = ?m and M = ?M and ba = ?ba] Cons.prems(1) r(1) by simp
qed

lemma fold_store_image_length:
  "list_all record_ok recs \<Longrightarrow> length im = 0x20000 \<Longrightarrow> length (fold store_image recs im) = 0x20000"
  by (induction recs arbitrary: im) (simp_all add: record_ok_def)

lemma fold_store_image_nth:
  "list_all record_ok recs \<Longrightarrow> length im = 0x20000 \<Longrightarrow> i < 0x20000 \<Longrightarrow>
   fold store_image recs im ! i = fold (\<lambda>(a, bs) v. if a \<le> i \<and> i < a + length bs then bs ! (i - a) else v) recs (im ! i)"
  by (induction recs arbitrary: im) (auto simp: record_ok_def store_image_nth)

text \<open>The bounds of the addresses a segment covers.\<close>

lemma lo_fold_le:
  fixes recs :: "(nat \<times> u8 list) list"
  shows "fold (\<lambda>(a, bs) m. if bs = [] then m else min a m) recs m \<le> m"
    and "r \<in> set recs \<Longrightarrow> snd r \<noteq> [] \<Longrightarrow> fold (\<lambda>(a, bs) m. if bs = [] then m else min a m) recs m \<le> fst r"
proof -
  show le: "fold (\<lambda>(a, bs) m. if bs = [] then m else min a m) recs m \<le> m" for recs :: "(nat \<times> u8 list) list" and m
  proof (induction recs arbitrary: m)
    case (Cons q recs)
    show ?case using Cons.IH [of m] order.trans [OF Cons.IH [of "min (fst q) m"] min.cobounded2] by (cases q) simp
  qed simp
  show "r \<in> set recs \<Longrightarrow> snd r \<noteq> [] \<Longrightarrow> fold (\<lambda>(a, bs) m. if bs = [] then m else min a m) recs m \<le> fst r"
  proof (induction recs arbitrary: m)
    case (Cons q recs)
    then show ?case using le [of recs "min (fst q) m"] by (cases "q = r") (auto split: prod.splits)
  qed simp
qed

lemma hi_fold_ge:
  "m \<le> fold (\<lambda>(a, bs) m. if bs = [] then m else max (a + length bs - 1) m) recs m"
  "r \<in> set recs \<Longrightarrow> snd r \<noteq> [] \<Longrightarrow>
   fst r + length (snd r) - 1 \<le> fold (\<lambda>(a, bs) m. if bs = [] then m else max (a + length bs - 1) m) recs m"
proof -
  show ge: "m \<le> fold (\<lambda>(a, bs) m. if bs = [] then m else max (a + length bs - 1) m) recs m" for recs m
  proof (induction recs arbitrary: m)
    case (Cons q recs)
    show ?case using Cons.IH [of m] order.trans [OF max.cobounded2 Cons.IH [of "max (fst q + length (snd q) - 1) m"]]
      by (cases q) simp
  qed simp
  show "r \<in> set recs \<Longrightarrow> snd r \<noteq> [] \<Longrightarrow>
     fst r + length (snd r) - 1 \<le> fold (\<lambda>(a, bs) m. if bs = [] then m else max (a + length bs - 1) m) recs m"
  proof (induction recs arbitrary: m)
    case (Cons q recs)
    then show ?case using ge [of "max (fst q + length (snd q) - 1) m" recs] by (cases "q = r") (auto split: prod.splits)
  qed simp
qed

lemma hi_fold_bound:
  "list_all record_ok recs \<Longrightarrow> m < 0x10100 \<Longrightarrow>
   fold (\<lambda>(a, bs) m. if bs = [] then m else max (a + length bs - 1) m) recs m < 0x10100"
  by (induction recs arbitrary: m) (auto simp: record_ok_def)

lemma segment_bounds:
  assumes "segment_ok seg"
  shows "hex_lo (snd seg) \<le> hex_hi (snd seg)" "hex_hi (snd seg) < 0x10100"
proof -
  obtain r where r: "r \<in> set (snd seg)" "snd r \<noteq> []" using assms by (auto simp: segment_ok_def list_ex_iff)
  have "fst r \<le> fst r + length (snd r) - 1" using r(2) by (cases "snd r") auto
  then show "hex_lo (snd seg) \<le> hex_hi (snd seg)"
    using lo_fold_le(2) [OF r, of 65536] hi_fold_ge(2) [OF r, of 0] by (simp add: hex_lo_def hex_hi_def)
  show "hex_hi (snd seg) < 0x10100" using assms hi_fold_bound [of "snd seg" 0] by (simp add: segment_ok_def hex_hi_def)
qed

text \<open>The address record.\<close>

lemma address_word:
  assumes "h < 65536"
  shows "push_bit 16 (ucast (of_nat (h mod 256) :: u8)) OR push_bit 24 (ucast (of_nat (h div 256) :: u8)) =
    (of_nat (65536 * h) :: u32)"
proof -
  let ?l = "of_nat (h mod 256) :: u32" and ?h = "of_nat (h div 256) :: u32"
  have u: "ucast (of_nat (h mod 256) :: u8) = ?l" "ucast (of_nat (h div 256) :: u8) = ?h"
    using assms by (simp_all add: unsigned_of_nat take_bit_nat_eq_self)
  have "take_bit 8 ?l = ?l" by (simp add: take_bit_of_nat take_bit_nat_eq_self flip: of_nat_take_bit)
  then have "bit ?l n \<Longrightarrow> n < 8" for n by (metis bit_take_bit_iff)
  then have "push_bit 16 ?l AND push_bit 24 ?h = 0"
    by (intro bit_word_eqI) (force simp: bit_simps)
  then have "push_bit 16 ?l OR push_bit 24 ?h = push_bit 16 ?l + push_bit 24 ?h"
    by (simp add: disjunctive_add_eq_or)
  also have "\<dots> = of_nat (65536 * (h mod 256) + 16777216 * (h div 256))" by (simp add: push_bit_eq_mult)
  also have "65536 * (h mod 256) + 16777216 * (h div 256) = 65536 * h" using div_mult_mod_eq [of h 256] by linarith
  finally show ?thesis by (simp only: u)
qed

lemma load_lines_address:
  assumes "h < 65536"
  shows "load_lines \<lparr>f_rest = hex_record up crlf 4 0 [of_nat (h div 256), of_nat (h mod 256)] @ rest, f_eof = False\<rparr> section_init =
    load_lines \<lparr>f_rest = rest, f_eof = False\<rparr>
      (section_init\<lparr>addr_hi := of_nat (65536 * h), alreadysetaddr := True,
         im_local := replicate 0x20000 0xFF, minaddr := int 65536, maxaddr := int 0,
         bytes_arr := [Some (of_nat (h div 256)), Some (of_nat (h mod 256))] @ drop 2 (bytes_arr section_init)\<rparr>)"
  using address_word [OF assms] by (subst load_lines_record) (simp_all add: section_init_def Let_def numeral_2_eq_2)

lemma load_lines_end:
  "code = 1 \<or> code = 4 \<Longrightarrow> length bs < 250 \<Longrightarrow> alreadysetaddr st \<Longrightarrow>
   \<exists>f. load_lines \<lparr>f_rest = hex_record up crlf code 0 bs @ r, f_eof = False\<rparr> st =
       Some (Sec_Done (code = 1) (st\<lparr>bytes_arr := map Some bs @ drop (length bs) (bytes_arr st)\<rparr>) f) \<and>
     (code = 4 \<longrightarrow> f = \<lparr>f_rest = hex_record up crlf code 0 bs @ r, f_eof = False\<rparr>)"
  by (auto simp: load_lines_record Let_def)

text \<open>A segment followed by the record that ends it is loaded into its section.\<close>

lemma ihex_load_segment:
  assumes ok: "segment_ok seg" and c: "code = 1 \<or> code = 4" "length bs < 250"
    and m: "malloc (sec_len (hex_section seg))" and rest: "rest = hex_record up crlf code 0 bs @ r"
  obtains f where "ihex_load_section malloc \<lparr>f_rest = segment_text up crlf seg @ rest, f_eof = False\<rparr> sec =
      Some (if code = 1 then 1 else 0, hex_section seg, f)"
    "code = 4 \<Longrightarrow> f = \<lparr>f_rest = rest, f_eof = False\<rparr>"
proof -
  obtain h recs where seg: "seg = (h, recs)" "h < 65536" "list_all record_ok recs" using ok by (cases seg) (simp add: segment_ok_def)
  define im where "im = fold store_image recs (replicate 0x20000 0xFF)"
  have im: "length im = 0x20000" "i < 0x20000 \<Longrightarrow> im ! i = hex_byte recs i" for i
    using fold_store_image_length [OF seg(3)] fold_store_image_nth [OF seg(3)] by (simp_all add: im_def hex_byte_def)
  have b: "hex_lo recs \<le> hex_hi recs" "hex_hi recs < 0x10100" using segment_bounds [OF ok] seg(1) by simp_all
  let ?st = "section_init\<lparr>addr_hi := of_nat (65536 * h), alreadysetaddr := True\<rparr>"
  obtain ba where ll: "load_lines \<lparr>f_rest = segment_text up crlf seg @ rest, f_eof = False\<rparr> section_init =
      load_lines \<lparr>f_rest = rest, f_eof = False\<rparr>
        (?st\<lparr>im_local := im, minaddr := int (hex_lo recs), maxaddr := int (hex_hi recs), bytes_arr := ba\<rparr>)"
    using load_lines_data [OF seg(3), where im = "replicate 0x20000 0xFF" and st = ?st and m = 65536 and M = 0
        and up = up and crlf = crlf and rest = rest and ba = "[Some (of_nat (h div 256)), Some (of_nat (h mod 256))] @ drop 2 (bytes_arr section_init)"]
      load_lines_address [OF seg(2), of up crlf]
    by (auto simp: segment_text_def seg(1) im_def hex_lo_def hex_hi_def)
  define st1 where "st1 = ?st\<lparr>im_local := im, minaddr := int (hex_lo recs), maxaddr := int (hex_hi recs), bytes_arr := ba\<rparr>"
  define st where "st = st1\<lparr>bytes_arr := map Some bs @ drop (length bs) (bytes_arr st1)\<rparr>"
  have st: "alreadysetaddr st1" "im_local st = im" "minaddr st = int (hex_lo recs)" "maxaddr st = int (hex_hi recs)"
    "addr_hi st = of_nat (65536 * h)" by (simp_all add: st_def st1_def)
  obtain f where fin: "load_lines \<lparr>f_rest = segment_text up crlf seg @ rest, f_eof = False\<rparr> section_init =
      Some (Sec_Done (code = 1) st f)" "code = 4 \<Longrightarrow> f = \<lparr>f_rest = rest, f_eof = False\<rparr>"
    using load_lines_end [OF c st(1), of up crlf r] ll unfolding st_def st1_def [symmetric] rest by auto
  define n where "n = Suc (hex_hi recs) - hex_lo recs"
  have n: "0 < n" "n < 2 ^ 32" "int (hex_hi recs) - int (hex_lo recs) + 1 = int n" using b by (simp_all add: n_def)
  then have len: "word_of_int (maxaddr st - minaddr st + 1) = (of_nat n :: u32)" "uint (of_nat n :: u32) = int n" "(of_nat n :: u32) \<noteq> 0"
    using st(3,4) by (simp_all add: unsigned_of_nat take_bit_nat_eq_self word_of_nat_eq_0_iff nat_dvd_not_less uint_nat)
  have sl: "take n (drop (hex_lo recs) im) = map (hex_byte recs) [hex_lo recs..<Suc (hex_hi recs)]"
    using b by (intro nth_equalityI) (auto simp: im n_def simp del: upt_Suc)
  have rd: "obj_rd im (hex_lo recs) (int n) = Some (map (hex_byte recs) [hex_lo recs..<Suc (hex_hi recs)])"
  proof -
    have "hex_lo recs + n \<le> length im" using b im(1) by (simp add: n_def)
    then show ?thesis using obj_rd_Some [of "int n" "hex_lo recs" im] by (simp add: sl del: upt_Suc)
  qed
  have sec: "hex_section seg = \<lparr>sec_address = of_nat (65536 * h),
      sec_image = Some (map (hex_byte recs) [hex_lo recs..<Suc (hex_hi recs)]), sec_len = of_nat n\<rparr>" "nat (minaddr st) = hex_lo recs"
    using st(3) by (simp_all add: hex_section_def seg(1) n_def del: upt_Suc)
  have "malloc (of_nat n)" using m sec(1) by simp
  then have "ihex_load_section malloc \<lparr>f_rest = segment_text up crlf seg @ rest, f_eof = False\<rparr> sec =
      Some (if code = 1 then 1 else 0, hex_section seg, f)"
    using sec unfolding ihex_load_section_def fin(1) option.case sec_result.case len(1)
    by (simp add: st(2,5) len(2,3) rd Let_def del: upt_Suc)
  then show ?thesis using that fin(2) by blast
qed

lemma hex_file_text_Cons:
  "hex_file_text up crlf (seg # segs) = segment_text up crlf seg @ hex_file_text up crlf segs"
  by (simp add: hex_file_text_def)

text \<open>What follows a segment: the address record of the next one, or the end-of-file record.\<close>

lemma hex_file_text_starts:
  obtains code bs r where "hex_file_text up crlf segs = hex_record up crlf code 0 bs @ r" "length bs < 250"
    "code = (if segs = [] then 1 else 4)"
proof (cases segs)
  case Nil
  then show ?thesis using that [of 1 "[]" "[]"] by (simp add: hex_file_text_def)
next
  case (Cons seg segs')
  then show ?thesis
    using that [of 4 "[of_nat (fst seg div 256), of_nat (fst seg mod 256)]"] by (simp add: hex_file_text_def segment_text_def)
qed

lemma load_sections_segments:
  "list_all segment_ok segs \<Longrightarrow> segs \<noteq> [] \<Longrightarrow> list_all (\<lambda>seg. malloc (sec_len (hex_section seg))) segs \<Longrightarrow>
   iter + length segs \<le> length secs \<Longrightarrow> iter + length segs \<le> num_slots \<Longrightarrow> length segs \<le> k \<Longrightarrow>
   load_sections_loop k malloc \<lparr>f_rest = hex_file_text up crlf segs, f_eof = False\<rparr> secs iter num num_slots =
     Some (num + length segs, take iter secs @ map hex_section segs @ drop (iter + length segs) secs)"
proof (induction segs arbitrary: k secs iter num)
  case (Cons seg segs)
  obtain k' where k: "k = Suc k'" using Cons.prems(6) by (cases k) auto
  obtain code bs r where e: "hex_file_text up crlf segs = hex_record up crlf code 0 bs @ r" "length bs < 250"
    "code = (if segs = [] then 1 else 4)" by (rule hex_file_text_starts)
  obtain f where f: "ihex_load_section malloc \<lparr>f_rest = hex_file_text up crlf (seg # segs), f_eof = False\<rparr> (secs ! iter) =
      Some (if code = 1 then 1 else 0, hex_section seg, f)" "code = 4 \<Longrightarrow> f = \<lparr>f_rest = hex_file_text up crlf segs, f_eof = False\<rparr>"
    using ihex_load_segment [of seg code bs malloc "hex_file_text up crlf segs" up crlf r "secs ! iter"] e Cons.prems(1,3)
    unfolding hex_file_text_Cons by (auto split: if_splits)
  let ?secs = "secs[iter := hex_section seg]"
  have upd: "take (Suc iter) ?secs = take iter secs @ [hex_section seg]" "drop (Suc iter + n) ?secs = drop (Suc iter + n) secs" for n
    using Cons.prems(4) by (simp_all add: take_Suc_conv_app_nth)
  show ?case
  proof (cases segs)
    case Nil
    then show ?thesis using e(3) f Cons.prems(4) upd(1) upd(2) [of 0] k
      by (simp add: upd_conv_take_nth_drop)
  next
    case (Cons s ss)
    have "load_sections_loop k' malloc \<lparr>f_rest = hex_file_text up crlf segs, f_eof = False\<rparr> ?secs (Suc iter) (Suc num) num_slots =
        Some (Suc num + length segs, take (Suc iter) ?secs @ map hex_section segs @ drop (Suc iter + length segs) ?secs)"
      using Cons.prems k Cons by (intro Cons.IH) auto
    then show ?thesis using e(3) f Cons Cons.prems(4,5) k by (simp add: upd)
  qed
qed simp

text \<open>The byte a segment places at an absolute address, and the lowest address it places one at.\<close>

definition file_byte :: "hex_segment \<Rightarrow> nat \<Rightarrow> u8" where
  "file_byte seg a = hex_byte (snd seg) (a - 65536 * fst seg)"

definition first_address :: "hex_segment \<Rightarrow> nat" where
  "first_address seg = 65536 * fst seg + hex_lo (snd seg)"

lemma hex_section_placed:
  assumes "segment_ok seg"
  shows "sec_image (hex_section seg) = Some (map (\<lambda>i. file_byte seg (first_address seg + i))
      [0..<Suc (hex_hi (snd seg)) - hex_lo (snd seg)])"
    and "unat (sec_address (hex_section seg)) = first_address seg \<longleftrightarrow> hex_lo (snd seg) = 0"
proof -
  obtain h recs where seg: "seg = (h, recs)" "h < 65536" using assms by (cases seg) (simp add: segment_ok_def)
  have "map (hex_byte recs) [hex_lo recs..<Suc (hex_hi recs)] =
      map (\<lambda>i. hex_byte recs (hex_lo recs + i)) [0..<Suc (hex_hi recs) - hex_lo recs]"
    by (intro nth_equalityI) (auto simp del: upt_Suc)
  then show "sec_image (hex_section seg) = Some (map (\<lambda>i. file_byte seg (first_address seg + i))
      [0..<Suc (hex_hi (snd seg)) - hex_lo (snd seg)])"
    by (simp add: hex_section_def seg(1) file_byte_def first_address_def add.assoc del: upt_Suc)
  have "unat (of_nat (65536 * h) :: u32) = 65536 * h"
    using seg(2) by (simp only: unat_of_nat) simp
  then show "unat (sec_address (hex_section seg)) = first_address seg \<longleftrightarrow> hex_lo (snd seg) = 0"
    by (simp add: hex_section_def seg(1) first_address_def)
qed

text \<open>C37: An Intel HEX file of segments, each an address record followed by data records of which at
  least one has data, and ended by an end-of-file record, is loaded completely when there are slots and
  memory: the function returns the number of segments, and section by section gives an image that holds
  the bytes the file places at consecutive addresses from the first one of the segment on (the one of the
  last record that covers the address, 0xFF in gaps), and its length. The remaining slots are untouched.
  The section's \<open>address\<close>, however, is the base of the segment: it is the address the image has to be
  programmed to, as the header file documents it, exactly when the lowest offset of the segment is zero;
  for any other segment the image belongs behind the address that is given. It holds for both
  line endings and both cases of digits. Records have at most 249 bytes: longer lines do not fit the line
  buffer.\<close>

theorem ihex_load_sections_image:
  assumes "list_all segment_ok segs" "segs \<noteq> []"
    and "list_all (\<lambda>seg. malloc (sec_len (hex_section seg))) segs"
    and "length segs \<le> num_slots" "num_slots \<le> length secs"
  shows "ihex_load_sections malloc (Some (hex_file_text up crlf segs)) secs num_slots =
      Some (length segs, map hex_section segs @ drop (length segs) secs) \<and>
    list_all (\<lambda>seg. sec_image (hex_section seg) = Some (map (\<lambda>i. file_byte seg (first_address seg + i))
        [0..<Suc (hex_hi (snd seg)) - hex_lo (snd seg)]) \<and>
      (unat (sec_address (hex_section seg)) = first_address seg \<longleftrightarrow> hex_lo (snd seg) = 0)) segs"
  using load_sections_segments [OF assms(1-3), of 0 secs num_slots "Suc num_slots" up crlf 0] assms(1,4,5)
    hex_section_placed
  by (simp add: ihex_load_sections_def list_all_iff del: upt_Suc)

theorem ihex_load_sections_image_witness:
  "ihex_load_sections (\<lambda>n. n < 0x1000)
     (Some (hex_file_text True True [(0x0801, [(4, [1, 2]), (8, [3])]), (0x0802, [(0, [7])])]))
     (replicate 4 \<lparr>sec_address = 0, sec_image = None, sec_len = 0\<rparr>) 4 =
   Some (2, [\<lparr>sec_address = 0x08010000, sec_image = Some [1, 2, 0xFF, 0xFF, 3], sec_len = 5\<rparr>,
             \<lparr>sec_address = 0x08020000, sec_image = Some [7], sec_len = 1\<rparr>] @
            replicate 2 \<lparr>sec_address = 0, sec_image = None, sec_len = 0\<rparr>) \<and>
   first_address (0x0801, [(4, [1, 2]), (8, [3])]) = 0x08010004"
proof -
  let ?segs = "[(0x0801, [(4, [1, 2]), (8, [3])]), (0x0802, [(0, [7])])] :: hex_segment list"
  have s: "map hex_section ?segs = [\<lparr>sec_address = 0x08010000, sec_image = Some [1, 2, 0xFF, 0xFF, 3], sec_len = 5\<rparr>,
      \<lparr>sec_address = 0x08020000, sec_image = Some [7], sec_len = 1\<rparr>]"
    by (simp add: hex_section_def hex_lo_def hex_hi_def hex_byte_def upt_rec)
  have "list_all segment_ok ?segs" "list_all (\<lambda>seg. sec_len (hex_section seg) < 0x1000) ?segs"
    by (simp_all add: segment_ok_def record_ok_def hex_section_def hex_lo_def hex_hi_def)
  from ihex_load_sections_image [OF this(1) _ this(2), of 4 "replicate 4 \<lparr>sec_address = 0, sec_image = None, sec_len = 0\<rparr>" True True]
  show ?thesis unfolding s by (simp add: first_address_def hex_lo_def)
qed

end
