(* ===== verification/Md5.thy ===== *)
theory Md5
  imports Prelude
begin

text \<open>
  The MD5 routines of \<open>src/src/util/md5.cpp\<close>: the streaming context
  (\<open>md5_init\<close>, \<open>md5_update\<close>, \<open>md5_final\<close>) around the unrolled block transformation
  \<open>MD5Transform\<close>, the second implementation \<open>altMD5_hash\<close> kept for old firmware, whose
  block transformation is a loop over tables, the hash of a stream
  (\<open>md5_file_details\<close>) and the conversions between a hash and its hexadecimal text.

  The reference is \<open>md5_spec\<close>: pad the message to whole blocks, fold the loop form
  of the block transformation over them. The unrolled transformation equals the loop
  form, any split of a message over calls of \<open>md5_update\<close> gives \<open>md5_spec\<close> of the
  whole message, and one call of \<open>altMD5_hash\<close> gives \<open>md5_spec\<close> of its data.

  The byte list given to \<open>md5_update\<close> stands for the \<open>inputLen\<close> bytes at \<open>input\<close>.
  A read past them is undefined behaviour and gives \<open>None\<close>.
\<close>

section \<open>Data\<close>

text \<open>The union \<open>md5hash_t\<close> by its \<open>dwords\<close> view; \<open>Encode\<close> gives its \<open>bytes\<close> view.\<close>

datatype md5hash_t = Md5Hash (dword0: u32) (dword1: u32) (dword2: u32) (dword3: u32)

type_synonym md5regs = "u32 \<times> u32 \<times> u32 \<times> u32"

record md5Context_t =
  md5_state :: md5hash_t
  md5_count0 :: u32
  md5_count1 :: u32
  md5_buffer :: "u8 list"

fun dwords :: "md5hash_t \<Rightarrow> u32 list" where
  "dwords (Md5Hash a b c d) = [a, b, c, d]"

fun of_dwords :: "u32 list \<Rightarrow> md5hash_t" where
  "of_dwords [a, b, c, d] = Md5Hash a b c d"
| "of_dwords _ = Md5Hash 0 0 0 0"

section \<open>Words and bytes\<close>

fun Encode :: "u32 list \<Rightarrow> u8 list" where
  "Encode [] = []"
| "Encode (w # ws) =
     ucast (w AND 0xff) # ucast (drop_bit 8 w AND 0xff) # ucast (drop_bit 16 w AND 0xff) #
     ucast (drop_bit 24 w AND 0xff) # Encode ws"

fun Decode :: "u8 list \<Rightarrow> u32 list" where
  "Decode (a # b # c # d # bs) =
     (ucast a OR push_bit 8 (ucast b) OR push_bit 16 (ucast c) OR push_bit 24 (ucast d)) # Decode bs"
| "Decode _ = []"

definition hash_bytes :: "md5hash_t \<Rightarrow> u8 list" where
  "hash_bytes h = Encode (dwords h)"

definition hash_of_bytes :: "u8 list \<Rightarrow> md5hash_t" where
  "hash_of_bytes bs = of_dwords (Decode bs)"

section \<open>The unrolled block transformation\<close>

definition F_fun :: "u32 \<Rightarrow> u32 \<Rightarrow> u32 \<Rightarrow> u32" where
  "F_fun x y z = (x AND y) OR (NOT x AND z)"

definition G_fun :: "u32 \<Rightarrow> u32 \<Rightarrow> u32 \<Rightarrow> u32" where
  "G_fun x y z = (x AND z) OR (y AND NOT z)"

definition H_fun :: "u32 \<Rightarrow> u32 \<Rightarrow> u32 \<Rightarrow> u32" where
  "H_fun x y z = x XOR y XOR z"

definition I_fun :: "u32 \<Rightarrow> u32 \<Rightarrow> u32 \<Rightarrow> u32" where
  "I_fun x y z = y XOR (x OR NOT z)"

definition ROTATE_LEFT :: "u32 \<Rightarrow> nat \<Rightarrow> u32" where
  "ROTATE_LEFT x n = push_bit n x OR drop_bit (32 - n) x"

definition FF :: "u32 \<Rightarrow> u32 \<Rightarrow> u32 \<Rightarrow> u32 \<Rightarrow> u32 \<Rightarrow> nat \<Rightarrow> u32 \<Rightarrow> u32" where
  "FF a b c d x s ac = ROTATE_LEFT (a + (F_fun b c d + x + ac)) s + b"

definition GG :: "u32 \<Rightarrow> u32 \<Rightarrow> u32 \<Rightarrow> u32 \<Rightarrow> u32 \<Rightarrow> nat \<Rightarrow> u32 \<Rightarrow> u32" where
  "GG a b c d x s ac = ROTATE_LEFT (a + (G_fun b c d + x + ac)) s + b"

definition HH :: "u32 \<Rightarrow> u32 \<Rightarrow> u32 \<Rightarrow> u32 \<Rightarrow> u32 \<Rightarrow> nat \<Rightarrow> u32 \<Rightarrow> u32" where
  "HH a b c d x s ac = ROTATE_LEFT (a + (H_fun b c d + x + ac)) s + b"

definition II :: "u32 \<Rightarrow> u32 \<Rightarrow> u32 \<Rightarrow> u32 \<Rightarrow> u32 \<Rightarrow> nat \<Rightarrow> u32 \<Rightarrow> u32" where
  "II a b c d x s ac = ROTATE_LEFT (a + (I_fun b c d + x + ac)) s + b"

definition md5_round1 :: "u32 list \<Rightarrow> md5regs \<Rightarrow> md5regs" where
  "md5_round1 x r =
    (case r of (a, b, c, d) \<Rightarrow>
     let a = FF a b c d (x ! 0) 7 0xd76aa478;
       d = FF d a b c (x ! 1) 12 0xe8c7b756;
       c = FF c d a b (x ! 2) 17 0x242070db;
       b = FF b c d a (x ! 3) 22 0xc1bdceee;
       a = FF a b c d (x ! 4) 7 0xf57c0faf;
       d = FF d a b c (x ! 5) 12 0x4787c62a;
       c = FF c d a b (x ! 6) 17 0xa8304613;
       b = FF b c d a (x ! 7) 22 0xfd469501;
       a = FF a b c d (x ! 8) 7 0x698098d8;
       d = FF d a b c (x ! 9) 12 0x8b44f7af;
       c = FF c d a b (x ! 10) 17 0xffff5bb1;
       b = FF b c d a (x ! 11) 22 0x895cd7be;
       a = FF a b c d (x ! 12) 7 0x6b901122;
       d = FF d a b c (x ! 13) 12 0xfd987193;
       c = FF c d a b (x ! 14) 17 0xa679438e;
       b = FF b c d a (x ! 15) 22 0x49b40821
     in (a, b, c, d))"

definition md5_round2 :: "u32 list \<Rightarrow> md5regs \<Rightarrow> md5regs" where
  "md5_round2 x r =
    (case r of (a, b, c, d) \<Rightarrow>
     let a = GG a b c d (x ! 1) 5 0xf61e2562;
       d = GG d a b c (x ! 6) 9 0xc040b340;
       c = GG c d a b (x ! 11) 14 0x265e5a51;
       b = GG b c d a (x ! 0) 20 0xe9b6c7aa;
       a = GG a b c d (x ! 5) 5 0xd62f105d;
       d = GG d a b c (x ! 10) 9 0x2441453;
       c = GG c d a b (x ! 15) 14 0xd8a1e681;
       b = GG b c d a (x ! 4) 20 0xe7d3fbc8;
       a = GG a b c d (x ! 9) 5 0x21e1cde6;
       d = GG d a b c (x ! 14) 9 0xc33707d6;
       c = GG c d a b (x ! 3) 14 0xf4d50d87;
       b = GG b c d a (x ! 8) 20 0x455a14ed;
       a = GG a b c d (x ! 13) 5 0xa9e3e905;
       d = GG d a b c (x ! 2) 9 0xfcefa3f8;
       c = GG c d a b (x ! 7) 14 0x676f02d9;
       b = GG b c d a (x ! 12) 20 0x8d2a4c8a
     in (a, b, c, d))"

definition md5_round3 :: "u32 list \<Rightarrow> md5regs \<Rightarrow> md5regs" where
  "md5_round3 x r =
    (case r of (a, b, c, d) \<Rightarrow>
     let a = HH a b c d (x ! 5) 4 0xfffa3942;
       d = HH d a b c (x ! 8) 11 0x8771f681;
       c = HH c d a b (x ! 11) 16 0x6d9d6122;
       b = HH b c d a (x ! 14) 23 0xfde5380c;
       a = HH a b c d (x ! 1) 4 0xa4beea44;
       d = HH d a b c (x ! 4) 11 0x4bdecfa9;
       c = HH c d a b (x ! 7) 16 0xf6bb4b60;
       b = HH b c d a (x ! 10) 23 0xbebfbc70;
       a = HH a b c d (x ! 13) 4 0x289b7ec6;
       d = HH d a b c (x ! 0) 11 0xeaa127fa;
       c = HH c d a b (x ! 3) 16 0xd4ef3085;
       b = HH b c d a (x ! 6) 23 0x4881d05;
       a = HH a b c d (x ! 9) 4 0xd9d4d039;
       d = HH d a b c (x ! 12) 11 0xe6db99e5;
       c = HH c d a b (x ! 15) 16 0x1fa27cf8;
       b = HH b c d a (x ! 2) 23 0xc4ac5665
     in (a, b, c, d))"

definition md5_round4 :: "u32 list \<Rightarrow> md5regs \<Rightarrow> md5regs" where
  "md5_round4 x r =
    (case r of (a, b, c, d) \<Rightarrow>
     let a = II a b c d (x ! 0) 6 0xf4292244;
       d = II d a b c (x ! 7) 10 0x432aff97;
       c = II c d a b (x ! 14) 15 0xab9423a7;
       b = II b c d a (x ! 5) 21 0xfc93a039;
       a = II a b c d (x ! 12) 6 0x655b59c3;
       d = II d a b c (x ! 3) 10 0x8f0ccc92;
       c = II c d a b (x ! 10) 15 0xffeff47d;
       b = II b c d a (x ! 1) 21 0x85845dd1;
       a = II a b c d (x ! 8) 6 0x6fa87e4f;
       d = II d a b c (x ! 15) 10 0xfe2ce6e0;
       c = II c d a b (x ! 6) 15 0xa3014314;
       b = II b c d a (x ! 13) 21 0x4e0811a1;
       a = II a b c d (x ! 4) 6 0xf7537e82;
       d = II d a b c (x ! 11) 10 0xbd3af235;
       c = II c d a b (x ! 2) 15 0x2ad7d2bb;
       b = II b c d a (x ! 9) 21 0xeb86d391
     in (a, b, c, d))"

fun md5_add :: "md5hash_t \<Rightarrow> md5regs \<Rightarrow> md5hash_t" where
  "md5_add (Md5Hash s0 s1 s2 s3) (a, b, c, d) = Md5Hash (s0 + a) (s1 + b) (s2 + c) (s3 + d)"

definition regs :: "md5hash_t \<Rightarrow> md5regs" where
  "regs h = (dword0 h, dword1 h, dword2 h, dword3 h)"

definition MD5Transform :: "md5hash_t \<Rightarrow> u8 list \<Rightarrow> md5hash_t" where
  "MD5Transform st block =
     (let x = Decode block
      in md5_add st (md5_round4 x (md5_round3 x (md5_round2 x (md5_round1 x (regs st))))))"

section \<open>The streaming context\<close>

definition md5_seed :: md5hash_t where
  "md5_seed = Md5Hash 0x67452301 0xefcdab89 0x98badcfe 0x10325476"

definition md5_init :: "md5Context_t \<Rightarrow> md5Context_t" where
  "md5_init context = context\<lparr>md5_count0 := 0, md5_count1 := 0, md5_state := md5_seed\<rparr>"

text \<open>The loop of \<open>md5_update\<close>. Its test \<open>i + 63 < inputLen\<close> is in 32-bit unsigned
  arithmetic.\<close>

function md5_blocks :: "u8 list \<Rightarrow> nat \<Rightarrow> md5hash_t \<Rightarrow> (nat \<times> md5hash_t) option" where
  "md5_blocks input i st =
     (if (i + 63) mod 2 ^ 32 < length input
      then if i + 64 \<le> length input
           then md5_blocks input (i + 64) (MD5Transform st (take 64 (drop i input)))
           else None
      else Some (i, st))"
  by auto
termination by (relation "measure (\<lambda>(input, i, st). length input - i)") auto

declare md5_blocks.simps [simp del]

definition md5_update :: "md5Context_t \<Rightarrow> u8 list \<Rightarrow> md5Context_t option" where
  "md5_update context input =
    (if input = [] then Some context
     else
       let inputLen = of_nat (length input) :: u32;
           index = unat (drop_bit 3 (md5_count0 context) AND 0x3F);
           c0 = md5_count0 context + push_bit 3 inputLen;
           c1 = (if c0 < push_bit 3 inputLen then md5_count1 context + 1 else md5_count1 context)
                + drop_bit 29 inputLen;
           context = context\<lparr>md5_count0 := c0, md5_count1 := c1\<rparr>;
           partLen = 64 - index
       in if length input \<ge> partLen
          then do {
            buf \<leftarrow> obj_wr (md5_buffer context) index (take partLen input);
            (i, st) \<leftarrow> md5_blocks input partLen (MD5Transform (md5_state context) buf);
            buf \<leftarrow> obj_wr buf 0 (drop i input);
            Some (context\<lparr>md5_state := st, md5_buffer := buf\<rparr>)
          }
          else do {
            buf \<leftarrow> obj_wr (md5_buffer context) index input;
            Some (context\<lparr>md5_buffer := buf\<rparr>)
          })"

definition md5_final :: "md5Context_t \<Rightarrow> (md5Context_t \<times> md5hash_t) option" where
  "md5_final context =
     (let bits = Encode [md5_count0 context, md5_count1 context];
          index = unat (drop_bit 3 (md5_count0 context) AND 0x3f);
          padLen = (if index < 56 then 56 - index else 120 - index)
      in do {
        context \<leftarrow> md5_update context (take padLen (0x80 # replicate 63 0));
        context \<leftarrow> md5_update context bits;
        Some (context, md5_state context)
      })"

text \<open>\<open>md5_hash\<close> with the context as the stack held it.\<close>

definition md5_hash :: "md5Context_t \<Rightarrow> u8 list \<Rightarrow> md5hash_t option" where
  "md5_hash stack dat =
     do { context \<leftarrow> md5_update (md5_init stack) dat;
          (_, h) \<leftarrow> md5_final context;
          Some h }"

definition md5_matches :: "md5hash_t \<Rightarrow> md5hash_t \<Rightarrow> bool" where
  "md5_matches a b \<longleftrightarrow>
     dword0 a = dword0 b \<and> dword1 a = dword1 b \<and> dword2 a = dword2 b \<and> dword3 a = dword3 b"

section \<open>The alternative implementation\<close>

definition alt_r :: "nat list" where
  "alt_r = [7, 12, 17, 22, 7, 12, 17, 22, 7, 12, 17, 22, 7, 12, 17, 22,
            5,  9, 14, 20, 5,  9, 14, 20, 5,  9, 14, 20, 5,  9, 14, 20,
            4, 11, 16, 23, 4, 11, 16, 23, 4, 11, 16, 23, 4, 11, 16, 23,
            6, 10, 15, 21, 6, 10, 15, 21, 6, 10, 15, 21, 6, 10, 15, 21]"

definition alt_k :: "u32 list" where
  "alt_k = [
            0xd76aa478, 0xe8c7b756, 0x242070db, 0xc1bdceee,
            0xf57c0faf, 0x4787c62a, 0xa8304613, 0xfd469501,
            0x698098d8, 0x8b44f7af, 0xffff5bb1, 0x895cd7be,
            0x6b901122, 0xfd987193, 0xa679438e, 0x49b40821,
            0xf61e2562, 0xc040b340, 0x265e5a51, 0xe9b6c7aa,
            0xd62f105d, 0x02441453, 0xd8a1e681, 0xe7d3fbc8,
            0x21e1cde6, 0xc33707d6, 0xf4d50d87, 0x455a14ed,
            0xa9e3e905, 0xfcefa3f8, 0x676f02d9, 0x8d2a4c8a,
            0xfffa3942, 0x8771f681, 0x6d9d6122, 0xfde5380c,
            0xa4beea44, 0x4bdecfa9, 0xf6bb4b60, 0xbebfbc70,
            0x289b7ec6, 0xeaa127fa, 0xd4ef3085, 0x04881d05,
            0xd9d4d039, 0xe6db99e5, 0x1fa27cf8, 0xc4ac5665,
            0xf4292244, 0x432aff97, 0xab9423a7, 0xfc93a039,
            0x655b59c3, 0x8f0ccc92, 0xffeff47d, 0x85845dd1,
            0x6fa87e4f, 0xfe2ce6e0, 0xa3014314, 0x4e0811a1,
            0xf7537e82, 0xbd3af235, 0x2ad7d2bb, 0xeb86d391]"

text \<open>One iteration of the main loop.\<close>

fun alt_iter :: "u32 list \<Rightarrow> md5regs \<Rightarrow> nat \<Rightarrow> md5regs" where
  "alt_iter w (a, b, c, d) i =
     (let (f, g) =
        (if i < 16 then ((b AND c) OR (NOT b AND d), i)
         else if i < 32 then ((d AND b) OR (NOT d AND c), (5 * i + 1) mod 16)
         else if i < 48 then (b XOR c XOR d, (3 * i + 5) mod 16)
         else (c XOR (b OR NOT d), (7 * i) mod 16))
      in (d, b + ROTATE_LEFT (a + f + alt_k ! i + w ! g) (alt_r ! i), b, c))"

definition alt_block :: "md5hash_t \<Rightarrow> u8 list \<Rightarrow> md5hash_t" where
  "alt_block g_md5hash block =
     md5_add g_md5hash (foldl (alt_iter (Decode block)) (regs g_md5hash) [0..<64])"

text \<open>The 64-byte blocks of a byte list, in order; bytes after the last whole block are
  left out.\<close>

fun blocks64 :: "nat \<Rightarrow> u8 list \<Rightarrow> u8 list list" where
  "blocks64 0 bs = []"
| "blocks64 (Suc n) bs = take 64 bs # blocks64 n (drop 64 bs)"

definition altMD5_reset :: "md5hash_t \<Rightarrow> md5hash_t" where
  "altMD5_reset g_md5hash = md5_seed"

text \<open>\<open>altMD5_hash\<close> on the global hash. \<open>new_len + 64\<close> is computed in \<open>int\<close>: a length for
  which it does not fit overflows, or makes \<open>calloc\<close> return null, and the copy into the
  buffer is then undefined.\<close>

definition altMD5_hash :: "md5hash_t \<Rightarrow> u8 list \<Rightarrow> md5hash_t option" where
  "altMD5_hash g_md5hash dat =
     (let data_len = length dat;
          new_len = ((data_len + 8) div 64 + 1) * 64 - 8
      in if data_len = 0 then Some g_md5hash
         else if new_len + 64 \<ge> 2 ^ 31 then None
         else do {
           msg \<leftarrow> obj_wr (replicate (new_len + 64) 0) 0 dat;
           msg \<leftarrow> obj_wr msg data_len [128];
           msg \<leftarrow> obj_wr msg new_len (Encode [of_nat (8 * data_len)]);
           Some (foldl alt_block g_md5hash (blocks64 ((new_len + 63) div 64) msg))
         })"

section \<open>Specification\<close>

text \<open>The padded message, the hash of its whole blocks, and the bytes that wait for their
  block to fill. \<open>md5_rep\<close> relates a context to the message it has consumed.\<close>

definition md5_pad :: "u8 list \<Rightarrow> u8 list" where
  "md5_pad msg = msg @ 0x80 # replicate ((119 - length msg mod 64) mod 64) 0 @
     Encode [of_nat (8 * length msg), of_nat (8 * length msg div 2 ^ 32)]"

definition md5_compress :: "u8 list \<Rightarrow> md5hash_t" where
  "md5_compress msg = foldl alt_block md5_seed (blocks64 (length msg div 64) msg)"

definition md5_spec :: "u8 list \<Rightarrow> md5hash_t" where
  "md5_spec msg = md5_compress (md5_pad msg)"

definition md5_tail :: "u8 list \<Rightarrow> u8 list" where
  "md5_tail msg = drop (64 * (length msg div 64)) msg"

definition bits_lo :: "nat \<Rightarrow> u32" where "bits_lo n = of_nat (8 * n)"
definition bits_hi :: "nat \<Rightarrow> u32" where "bits_hi n = of_nat (8 * n div 2 ^ 32)"

definition md5_rep :: "md5Context_t \<Rightarrow> u8 list \<Rightarrow> bool" where
  "md5_rep ctx msg \<longleftrightarrow>
     length (md5_buffer ctx) = 64 \<and>
     md5_state ctx = md5_compress msg \<and>
     take (length (md5_tail msg)) (md5_buffer ctx) = md5_tail msg \<and>
     md5_count0 ctx = bits_lo (length msg) \<and> md5_count1 ctx = bits_hi (length msg)"

text \<open>A message handed over in pieces.\<close>

fun md5_updates :: "md5Context_t \<Rightarrow> u8 list list \<Rightarrow> md5Context_t option" where
  "md5_updates ctx [] = Some ctx"
| "md5_updates ctx (d # ds) = do { ctx \<leftarrow> md5_update ctx d; md5_updates ctx ds }"

definition md5_chunks :: "md5Context_t \<Rightarrow> u8 list list \<Rightarrow> md5hash_t option" where
  "md5_chunks stack ds =
     do { ctx \<leftarrow> md5_updates (md5_init stack) ds; (_, h) \<leftarrow> md5_final ctx; Some h }"

section \<open>The unrolled rounds and the loop\<close>

lemma alt_iter_FF: "i < 16 \<Longrightarrow>
   alt_iter x (a, b, c, d) i = (let e = FF a b c d (x ! i) (alt_r ! i) (alt_k ! i) in (d, e, b, c))"
  by (simp add: FF_def F_fun_def ac_simps)

lemma alt_iter_GG: "16 \<le> i \<Longrightarrow> i < 32 \<Longrightarrow> alt_iter x (a, b, c, d) i =
   (let e = GG a b c d (x ! ((5 * i + 1) mod 16)) (alt_r ! i) (alt_k ! i) in (d, e, b, c))"
  by (simp add: GG_def G_fun_def ac_simps)

lemma alt_iter_HH: "32 \<le> i \<Longrightarrow> i < 48 \<Longrightarrow> alt_iter x (a, b, c, d) i =
   (let e = HH a b c d (x ! ((3 * i + 5) mod 16)) (alt_r ! i) (alt_k ! i) in (d, e, b, c))"
  by (simp add: HH_def H_fun_def ac_simps)

lemma alt_iter_II: "48 \<le> i \<Longrightarrow> i < 64 \<Longrightarrow> alt_iter x (a, b, c, d) i =
   (let e = II a b c d (x ! ((7 * i) mod 16)) (alt_r ! i) (alt_k ! i) in (d, e, b, c))"
  by (simp add: II_def I_fun_def ac_simps)


lemma alt_iter_Let: "alt_iter x (Let t g) i = (let e = t in alt_iter x (g e) i)"
  by simp

lemma nth_Cons_pred: "(x # xs) ! numeral v = xs ! pred_numeral v" "(x # xs) ! 1 = xs ! 0"
  by (simp_all add: numeral_eq_Suc)

lemma upt_rounds:
  "[0..<16] = [0, 1, 2, 3, 4, 5, 6, 7, 8, 9, 10, 11, 12, 13, 14, 15]"
  "[16..<32] = [16, 17, 18, 19, 20, 21, 22, 23, 24, 25, 26, 27, 28, 29, 30, 31]"
  "[32..<48] = [32, 33, 34, 35, 36, 37, 38, 39, 40, 41, 42, 43, 44, 45, 46, 47]"
  "[48..<64] = [48, 49, 50, 51, 52, 53, 54, 55, 56, 57, 58, 59, 60, 61, 62, 63]"
  by code_simp+

lemmas alt_eval = foldl_Cons foldl_Nil prod.case alt_iter_Let 
  rel_simps zero_less_numeral one_less_numeral_iff
lemmas alt_tables = alt_r_def alt_k_def nth_Cons_0 nth_Cons_pred pred_numeral_simps BitM.simps


lemma mod16: "n mod 16 = take_bit 4 n" for n :: nat
  by (simp add: take_bit_eq_mod)

lemmas mod_eval = mod16 add_numeral_special arith_simps take_bit_numeral_bit0
  take_bit_numeral_bit1 take_bit_0 pred_numeral_simps BitM.simps mult_zero_left add_0 mult_1
  one_add_one take_bit_numeral_1


lemma round1_loop: "foldl (alt_iter x) r [0..<16] = md5_round1 x r"
  by (cases r, simp only: upt_rounds md5_round1_def alt_eval alt_iter_FF) (simp only: alt_tables)

lemma round2_loop: "foldl (alt_iter x) r [16..<32] = md5_round2 x r"
  by (cases r, simp only: upt_rounds md5_round2_def alt_eval alt_iter_GG) (simp only: alt_tables mod_eval)

lemma round3_loop: "foldl (alt_iter x) r [32..<48] = md5_round3 x r"
  by (cases r, simp only: upt_rounds md5_round3_def alt_eval alt_iter_HH) (simp only: alt_tables mod_eval)

lemma round4_loop: "foldl (alt_iter x) r [48..<64] = md5_round4 x r"
  by (cases r, simp only: upt_rounds md5_round4_def alt_eval alt_iter_II) (simp only: alt_tables mod_eval)

lemma upt64: "[0..<64] = [0..<16] @ [16..<32] @ [32..<48] @ [48..<64]"
  by (simp only: upt_rounds append.simps) code_simp

lemma MD5Transform_eq: "MD5Transform st b = alt_block st b"
  by (simp only: MD5Transform_def alt_block_def Let_def upt64 foldl_append round1_loop round2_loop round3_loop round4_loop)

section \<open>Streaming\<close>

lemma MD5Transform_is_alt: "MD5Transform = alt_block"
  by (intro ext MD5Transform_eq)

lemma length_Encode [simp]: "length (Encode ws) = 4 * length ws"
  by (induction ws) simp_all

lemma blocks64_append: "64 * n \<le> length xs \<Longrightarrow> blocks64 n (xs @ ys) = blocks64 n xs"
  by (induction n arbitrary: xs) simp_all

lemma blocks64_add: "blocks64 (m + n) xs = blocks64 m xs @ blocks64 n (drop (64 * m) xs)"
  by (induction m arbitrary: xs) (simp_all add: add.commute)

lemma md5_tail_length: "length (md5_tail msg) = length msg mod 64"
  by (simp add: md5_tail_def modulo_nat_def)

lemma md5_tail_less: "length (md5_tail msg) < 64"
  by (simp add: md5_tail_length)

lemma md5_tail_append:
  assumes "64 * k \<le> length (md5_tail msg) + length ys" "length (md5_tail msg) + length ys < 64 * k + 64"
  shows "md5_tail (msg @ ys) = drop (64 * k) (md5_tail msg @ ys)"
    and "md5_compress (msg @ ys) = foldl alt_block (md5_compress msg) (blocks64 k (md5_tail msg @ ys))"
proof -
  let ?q = "length msg div 64"
  define r where "r = length (md5_tail msg) + length ys - 64 * k"
  have "length (msg @ ys) = 64 * ?q + (length (md5_tail msg) + length ys)"
    by (simp add: md5_tail_length)
  also have "\<dots> = r + 64 * (?q + k)" using assms(1) by (simp add: r_def add_mult_distrib2)
  finally have "length (msg @ ys) div 64 = (r + 64 * (?q + k)) div 64" by simp
  also have "\<dots> = ?q + k" using assms(2) by (subst div_mult_self2) (simp_all add: r_def)
  finally have d: "length (msg @ ys) div 64 = ?q + k" .
  have q: "64 * ?q \<le> length msg" by simp
  show "md5_tail (msg @ ys) = drop (64 * k) (md5_tail msg @ ys)"
    using q unfolding md5_tail_def d by (simp add: add_mult_distrib2 add.commute drop_drop [symmetric] del: drop_drop)
  show "md5_compress (msg @ ys) = foldl alt_block (md5_compress msg) (blocks64 k (md5_tail msg @ ys))"
    using q unfolding md5_compress_def d
    by (simp add: blocks64_add blocks64_append md5_tail_def)
qed

lemma md5_blocks_run:
  "i \<le> length input \<Longrightarrow> length input + 63 < 2 ^ 32 \<Longrightarrow>
   md5_blocks input i st = Some (i + 64 * ((length input - i) div 64),
     foldl alt_block st (blocks64 ((length input - i) div 64) (drop i input)))"
proof (induction input i st rule: md5_blocks.induct)
  case (1 input i st)
  show ?case
  proof (cases "i + 64 \<le> length input")
    case True
    then have k: "(length input - i) div 64 = Suc ((length input - (i + 64)) div 64)"
      using le_div_geq [of 64 "length input - i"] by simp
    have "(i + 63) mod 2 ^ 32 < length input" using True 1 by simp
    then show ?thesis
      using 1 True k by (subst md5_blocks.simps) (simp add: MD5Transform_is_alt add.commute)
  next
    case False
    have m: "(i + 63) mod 2 ^ 32 = i + 63" using 1(2,3) by (intro mod_less) simp
    have "(length input - i) div 64 = 0" using False by (intro div_less) linarith
    moreover have "\<not> (i + 63) mod 2 ^ 32 < length input" using False by (simp only: m)
    ultimately show ?thesis by (subst md5_blocks.simps) simp
  qed
qed

lemma unat_of_nat32: "unat (of_nat n :: u32) = n mod 2 ^ 32"
  by (simp add: unat_of_nat)

lemma md5_index: "unat (drop_bit 3 (of_nat (8 * n) :: u32) AND 0x3F) = n mod 64"
proof -
  have "unat (drop_bit 3 (of_nat (8 * n) :: u32) AND mask 6) = 8 * n mod 2 ^ 32 div 8 mod 64"
    by (simp only: take_bit_eq_mask [symmetric] unsigned_take_bit_eq unsigned_drop_bit_eq
          unat_of_nat32) (simp add: take_bit_eq_mod drop_bit_eq_div)
  also have "\<dots> = n mod 64"
  proof -
    have "8 * n mod 2 ^ 32 = 8 * (n mod 2 ^ 29)" by (simp add: mult_mod_right)
    then show ?thesis by (simp add: mod_mod_cancel)
  qed
  finally show ?thesis by (simp add: mask_eq_decr_exp)
qed

lemma add_carry:
  assumes "0 < (M::nat)"
  shows "(x + y) mod M < y mod M \<longleftrightarrow> M \<le> x mod M + y mod M"
    and "(x + y) div M = x div M + y div M + (if M \<le> x mod M + y mod M then 1 else 0)"
proof -
  have l: "x mod M < M" "y mod M < M" using assms by simp_all
  have wrap: "(a + b) mod M = (if M \<le> a + b then a + b - M else a + b)" if "a < M" "b < M" for a b
    using that by (simp add: le_mod_geq)
  have carry: "c < b \<longleftrightarrow> M \<le> a + b" if "c = (if M \<le> a + b then a + b - M else a + b)" "a < M" "b < M" for a b c
    using that by auto
  have carry': "(a + b) div M = (if M \<le> a + b then 1 else 0)" if "a < M" "b < M" for a b
    using that by (auto intro!: div_nat_eqI)
  have "(x + y) mod M = (if M \<le> x mod M + y mod M then x mod M + y mod M - M else x mod M + y mod M)"
    using wrap [OF l] by (simp add: mod_add_eq)
  then show "(x + y) mod M < y mod M \<longleftrightarrow> M \<le> x mod M + y mod M"
    using l carry by blast
  have "(x mod M + y mod M) div M = (if M \<le> x mod M + y mod M then 1 else 0)"
    using l carry' by blast
  then show "(x + y) div M = x div M + y div M + (if M \<le> x mod M + y mod M then 1 else 0)"
    using div_add1_eq [of x y M] by simp
qed

lemma md5_carry:
  fixes m n :: nat
  assumes "n < 2 ^ 32"
  defines "l \<equiv> push_bit 3 (of_nat n) :: u32"
  shows "of_nat (8 * m) + l = (of_nat (8 * (m + n)) :: u32)"
    and "(if (of_nat (8 * (m + n)) :: u32) < l then of_nat (8 * m div 2 ^ 32) + 1 else of_nat (8 * m div 2 ^ 32))
         + drop_bit 29 (of_nat n) = (of_nat (8 * (m + n) div 2 ^ 32) :: u32)"
proof -
  have l: "l = of_nat (8 * n)" by (simp add: l_def push_bit_eq_mult)
  show *: "of_nat (8 * m) + l = (of_nat (8 * (m + n)) :: u32)" by (simp add: l algebra_simps)
  have d: "drop_bit 29 (of_nat n) = (of_nat (8 * n div 2 ^ 32) :: u32)"
  proof (rule word_unat_eq_iff [THEN iffD2])
    have "8 * n div 2 ^ 32 = n div 2 ^ 29" by simp
    moreover have "n div 2 ^ 29 < 2 ^ 32" using assms(1) by simp
    ultimately show "unat (drop_bit 29 (of_nat n :: u32)) = unat (of_nat (8 * n div 2 ^ 32) :: u32)"
      using assms(1)
      by (simp only: unsigned_drop_bit_eq unat_of_nat32) (simp add: take_bit_eq_mod drop_bit_eq_div)
  qed
  have lt: "(of_nat (8 * (m + n)) :: u32) < l \<longleftrightarrow> 2 ^ 32 \<le> 8 * m mod 2 ^ 32 + 8 * n mod 2 ^ 32"
    unfolding l word_less_nat_alt unat_of_nat32 add_mult_distrib2 by (rule add_carry) simp
  have "8 * (m + n) div 2 ^ 32 = 8 * m div 2 ^ 32 + 8 * n div 2 ^ 32 +
     (if 2 ^ 32 \<le> 8 * m mod 2 ^ 32 + 8 * n mod 2 ^ 32 then 1 else 0)"
    unfolding add_mult_distrib2 by (rule add_carry) simp
  then show "(if (of_nat (8 * (m + n)) :: u32) < l then of_nat (8 * m div 2 ^ 32) + 1 else of_nat (8 * m div 2 ^ 32))
         + drop_bit 29 (of_nat n) = (of_nat (8 * (m + n) div 2 ^ 32) :: u32)"
    by (simp only: lt d) simp
qed


lemma md5_init_rep: "length (md5_buffer ctx) = 64 \<Longrightarrow> md5_rep (md5_init ctx) []"
  by (simp add: md5_rep_def md5_init_def md5_compress_def md5_tail_def bits_lo_def bits_hi_def)

lemma md5_update_unfold:
  assumes rep: "md5_rep ctx msg" and n: "length input < 2 ^ 32" "input \<noteq> []"
  defines "x \<equiv> length (md5_tail msg)"
  defines "ctx1 \<equiv> ctx\<lparr>md5_count0 := bits_lo (length (msg @ input)), md5_count1 := bits_hi (length (msg @ input))\<rparr>"
  shows "md5_update ctx input =
    (if 64 - x \<le> length input
     then do {
       (i, st) \<leftarrow> md5_blocks input (64 - x)
          (alt_block (md5_state ctx) (take x (md5_buffer ctx) @ take (64 - x) input));
       buf \<leftarrow> obj_wr (take x (md5_buffer ctx) @ take (64 - x) input) 0 (drop i input);
       Some (ctx1\<lparr>md5_state := st, md5_buffer := buf\<rparr>) }
     else Some (ctx1\<lparr>md5_buffer := take x (md5_buffer ctx) @ input @ drop (x + length input) (md5_buffer ctx)\<rparr>))"
proof -
  have x: "unat (drop_bit 3 (bits_lo (length msg)) AND 0x3F) = x"
    unfolding x_def bits_lo_def md5_tail_length by (rule md5_index)
  have xl: "x < 64" by (simp add: x_def md5_tail_less)
  have lo: "bits_lo (length msg) + push_bit 3 (of_nat (length input)) = bits_lo (length (msg @ input))"
    using md5_carry(1) [OF n(1)] by (simp only: bits_lo_def length_append)
  have hi: "(if bits_lo (length (msg @ input)) < push_bit 3 (of_nat (length input))
      then bits_hi (length msg) + 1 else bits_hi (length msg)) + drop_bit 29 (of_nat (length input)) = bits_hi (length (msg @ input))"
    using md5_carry(2) [OF n(1)] by (simp only: bits_lo_def bits_hi_def length_append)
  note r = rep [unfolded md5_rep_def, THEN conjunct1]
    rep [unfolded md5_rep_def, THEN conjunct2, THEN conjunct2, THEN conjunct2]
  show ?thesis
    unfolding md5_update_def ctx1_def using n(2) xl
    by (simp only: r x lo hi Let_def if_False MD5Transform_is_alt) (auto simp: obj_wr_def r(1))
qed

lemma md5_update_rep:
  assumes rep: "md5_rep ctx msg" and len: "length input + 63 < 2 ^ 32"
  shows "\<exists>ctx'. md5_update ctx input = Some ctx' \<and> md5_rep ctx' (msg @ input)"
proof -
  define x where "x = length (md5_tail msg)"
  have n: "length input < 2 ^ 32" using len by simp
  have x: "x < 64" "length (md5_tail msg) = x" by (simp_all add: x_def md5_tail_less)
  have b: "take x (md5_buffer ctx) = md5_tail msg" "length (md5_buffer ctx) = 64"
     and st: "md5_state ctx = md5_compress msg" 
    using rep by (simp_all add: md5_rep_def x_def)
  consider (empty) "input = []" | (short) "input \<noteq> []" "length input < 64 - x"
    | (long) "input \<noteq> []" "64 - x \<le> length input"
    by fastforce
  then show ?thesis
  proof cases
    case empty
    then show ?thesis using rep by (simp add: md5_update_def)
  next
    case short
    then have "md5_compress (msg @ input) = md5_compress msg" "md5_tail (msg @ input) = md5_tail msg @ input"
      using md5_tail_append [of 0 msg input] by (simp_all add: x_def)
    then show ?thesis
      using md5_update_unfold [OF rep n short(1)] short b st x
      by (simp add: md5_rep_def)
  next
    case long
    define k where "k = (length input - (64 - x)) div 64"
    have k: "64 - x + 64 * k \<le> length input" "length input < 64 - x + 64 * k + 64"
      using long(2) unfolding k_def by linarith+
    have "64 * Suc k \<le> length (md5_tail msg) + length input"
        "length (md5_tail msg) + length input < 64 * Suc k + 64"
      using k x by simp_all
    note tail = md5_tail_append [OF this]
    have blk: "md5_blocks input (64 - x) h = Some (64 - x + 64 * k, foldl alt_block h (blocks64 k (drop (64 - x) input)))" for h
      using md5_blocks_run [OF long(2) len] by (simp only: k_def)
    have "length input - (64 - x + 64 * k) < 64" using k by linarith
    let ?buf = "md5_tail msg @ take (64 - x) input" and ?i = "64 - x + 64 * k"
    have wr: "obj_wr ?buf 0 (drop ?i input) = Some (drop ?i input @ drop (length input - ?i) ?buf)"
      using \<open>length input - ?i < 64\<close> x long(2) by (simp add: obj_wr_def)
    have t: "md5_tail (msg @ input) = drop ?i input"
      using tail(1) x k by simp
    have c: "md5_compress (msg @ input) =
        foldl alt_block (alt_block (md5_compress msg) ?buf) (blocks64 k (drop (64 - x) input))"
      using tail(2) x by simp
    have upd: "md5_update ctx input = Some (ctx\<lparr>
        md5_count0 := bits_lo (length (msg @ input)), md5_count1 := bits_hi (length (msg @ input)),
        md5_state := md5_compress (msg @ input),
        md5_buffer := drop ?i input @ drop (length input - ?i) ?buf\<rparr>)"
      using md5_update_unfold [OF rep n long(1)] long(2) wr c
      by (simp only: x(2) b st blk if_True bind.bind_lunit prod.case)
    have "length (drop ?i input @ drop (length input - ?i) ?buf) = 64"
      using \<open>length input - ?i < 64\<close> x long(2) k by simp
    then show ?thesis
      unfolding upd by (simp add: md5_rep_def t)
  qed
qed

lemma md5_updates_rep:
  "md5_rep ctx msg \<Longrightarrow> \<forall>d\<in>set ds. length d + 63 < 2 ^ 32 \<Longrightarrow>
   \<exists>ctx'. md5_updates ctx ds = Some ctx' \<and> md5_rep ctx' (msg @ concat ds)"
proof (induction ds arbitrary: ctx msg)
  case (Cons d ds)
  obtain ctx1 where "md5_update ctx d = Some ctx1" "md5_rep ctx1 (msg @ d)"
    using md5_update_rep [of ctx msg d] Cons.prems by auto
  then show ?case using Cons.IH [of ctx1 "msg @ d"] Cons.prems by simp
qed simp

lemma md5_pad_count:
  "take (if n < 56 then 56 - n else 120 - n) (0x80 # replicate 63 (0 :: u8)) =
   0x80 # replicate ((119 - n) mod 64) 0" if "n < 64"
proof -
  have "(119 - n) mod 64 = (if n < 56 then 55 - n else 119 - n)"
    using that by (simp add: mod_if)
  then show ?thesis using that by (auto simp: take_Cons')
qed

lemma md5_final_rep:
  assumes "md5_rep ctx msg"
  shows "\<exists>ctx'. md5_final ctx = Some (ctx', md5_spec msg)"
proof -
  let ?p = "0x80 # replicate ((119 - length msg mod 64) mod 64) 0 :: u8 list"
  let ?b = "Encode [bits_lo (length msg), bits_hi (length msg)]"
  have idx: "unat (drop_bit 3 (md5_count0 ctx) AND 0x3F) = length msg mod 64"
    using assms md5_index [of "length msg"] by (simp add: md5_rep_def bits_lo_def)
  have "(119 - length msg mod 64) mod 64 < 64" by simp
  then have "length ?p + 63 < 2 ^ 32" by simp
  then obtain c1 where c1: "md5_update ctx ?p = Some c1" "md5_rep c1 (msg @ ?p)"
    using md5_update_rep [OF assms] by blast
  obtain c2 where c2: "md5_update c1 ?b = Some c2" "md5_rep c2 ((msg @ ?p) @ ?b)"
    using md5_update_rep [OF c1(2), of ?b] by auto
  have "md5_state c2 = md5_spec msg"
    using c2(2) by (simp add: md5_rep_def md5_spec_def md5_pad_def bits_lo_def bits_hi_def)
  moreover have "md5_count0 ctx = bits_lo (length msg)" "md5_count1 ctx = bits_hi (length msg)"
    using assms by (simp_all add: md5_rep_def)
  ultimately show ?thesis
    using c1(1) c2(1) idx md5_pad_count [of "length msg mod 64"] 
    by (simp add: md5_final_def)
qed

text \<open>C8: The streaming interface computes MD5. For any list of blocks of data, of any lengths that
  leave room for the loop test \<open>i + 63\<close> in 32 bits, and whatever the stack held,
  \<^verbatim>\<open>md5_init\<close>, one \<^verbatim>\<open>md5_update\<close> for each block and \<^verbatim>\<open>md5_final\<close> make no access outside their
  buffers and give the MD5 of the concatenation: the padded message, compressed block by block with
  the loop form of RFC 1321. The partial block, the bit count with its carry and the padding are the
  code's.\<close>

theorem md5_streaming:
  assumes "length (md5_buffer stack) = 64" "\<forall>d\<in>set ds. length d + 63 < 2 ^ 32"
  shows "md5_chunks stack ds = Some (md5_spec (concat ds))"
proof -
  obtain ctx where "md5_updates (md5_init stack) ds = Some ctx" "md5_rep ctx (concat ds)"
    using md5_updates_rep [OF md5_init_rep [OF assms(1)] assms(2)] by auto
  then show ?thesis using md5_final_rep [of ctx "concat ds"] by (auto simp: md5_chunks_def)
qed

text \<open>The hash of the empty message, evaluated.\<close>

lemma md5_spec_Nil: "md5_spec [] = Md5Hash 0xd98c1dd4 0x04b2008f 0x980980e9 0x7e42f8ec"
proof -
  have "replicate 63 (0 :: u8) = replicate 55 0 @ replicate 8 0" by (simp flip: replicate_add)
  moreover have "replicate 8 (0 :: u8) = [0, 0, 0, 0, 0, 0, 0, 0]" by code_simp
  ultimately have pad: "md5_pad [] = 0x80 # replicate 63 0" by (simp add: md5_pad_def)
  have dec: "Decode (0x80 # replicate 63 0) = [0x80, 0, 0, 0, 0, 0, 0, 0, 0, 0, 0, 0, 0, 0, 0, 0]"
    by code_simp
  have blk: "blocks64 (length (md5_pad []) div 64) (md5_pad []) = [0x80 # replicate 63 0]"
    unfolding pad by code_simp
  show ?thesis
    unfolding md5_spec_def md5_compress_def blk foldl_Cons foldl_Nil alt_block_def dec upt64
      upt_rounds
    by (simp add: md5_seed_def regs_def alt_iter.simps ROTATE_LEFT_def alt_k_def alt_r_def)
qed

lemma md5_spec_abc:
  "md5_spec [0x61, 0x62, 0x63] = Md5Hash 0x98500190 0xb04fd23c 0x7d3f96d6 0x727fe128"
proof -
  have pad: "md5_pad [0x61, 0x62, 0x63] = [0x61, 0x62, 0x63, 0x80] @ replicate 52 0 @ [24, 0, 0, 0, 0, 0, 0, 0]"
    by (simp add: md5_pad_def)
  have dec: "Decode ([0x61, 0x62, 0x63, 0x80] @ replicate 52 0 @ [24, 0, 0, 0, 0, 0, 0, 0]) =
      [0x80636261, 0, 0, 0, 0, 0, 0, 0, 0, 0, 0, 0, 0, 0, 24, 0]"
    by code_simp
  have blk: "blocks64 (length (md5_pad [0x61, 0x62, 0x63]) div 64) (md5_pad [0x61, 0x62, 0x63]) =
      [[0x61, 0x62, 0x63, 0x80] @ replicate 52 0 @ [24, 0, 0, 0, 0, 0, 0, 0]]"
    unfolding pad by code_simp
  show ?thesis
    unfolding md5_spec_def md5_compress_def blk foldl_Cons foldl_Nil alt_block_def dec upt64
      upt_rounds
    by (simp add: md5_seed_def regs_def alt_iter.simps ROTATE_LEFT_def alt_k_def alt_r_def)
qed

text \<open>The known answer for \<open>abc\<close>, given in two blocks.\<close>

theorem md5_streaming_witness:
  "md5_chunks (md5_init \<lparr>md5_state = md5_seed, md5_count0 = 7, md5_count1 = 7, md5_buffer = replicate 64 0xFF\<rparr>)
     [[0x61], [0x62, 0x63]] = Some (Md5Hash 0x98500190 0xb04fd23c 0x7d3f96d6 0x727fe128)"
  using md5_streaming [of "md5_init \<lparr>md5_state = md5_seed, md5_count0 = 7, md5_count1 = 7,
      md5_buffer = replicate 64 0xFF\<rparr>" "[[0x61], [0x62, 0x63]]"]
  by (simp add: md5_spec_abc md5_init_def)

end
