(* ===== verification/Md5Files.thy ===== *)
theory Md5Files
  imports Md5
begin

text \<open>
  The rest of \<open>src/src/util/md5.cpp\<close>: the hash and size of a stream
  (\<open>md5_file_details\<close>, \<open>altMD5_file_details\<close>), the hexadecimal text of a hash
  (\<open>md5_from_char_array\<close>, \<open>md5_to_char_array\<close> and the string versions), and the
  correctness of \<open>altMD5_hash\<close>.

  An \<open>istream\<close> is its bytes, the position and the \<open>eofbit\<close> and \<open>failbit\<close>, with the
  operations the code uses as the C++ standard describes them. A character is its byte,
  \<open>errno\<close> a parameter, and the contents of an uninitialised array an argument.
\<close>

section \<open>Streams\<close>

record istream =
  is_bytes :: "u8 list"
  is_pos :: nat
  is_eof :: bool
  is_fail :: bool

definition is_good :: "istream \<Rightarrow> bool" where
  "is_good is \<longleftrightarrow> \<not> is_eof is \<and> \<not> is_fail is"

definition is_tellg :: "istream \<Rightarrow> int" where
  "is_tellg is = (if is_fail is then -1 else int (is_pos is))"

definition is_seekg_beg :: "istream \<Rightarrow> istream" where
  "is_seekg_beg is =
     (let is = is\<lparr>is_eof := False\<rparr> in if is_fail is then is else is\<lparr>is_pos := 0\<rparr>)"

definition is_read :: "istream \<Rightarrow> nat \<Rightarrow> u8 list \<times> istream" where
  "is_read is n =
     (if is_good is
      then let got = take n (drop (is_pos is) (is_bytes is));
               short = length got < n
           in (got, is\<lparr>is_pos := is_pos is + length got, is_eof := short, is_fail := short\<rparr>)
      else ([], is\<lparr>is_fail := True\<rparr>))"

function md5_file_loop :: "istream \<Rightarrow> md5Context_t \<Rightarrow> u64 \<Rightarrow> (istream \<times> md5Context_t \<times> u64) option" where
  "md5_file_loop is context filesize =
     (if is_tellg is = -1 then Some (is, context, filesize)
      else do {
        let (got, is) = is_read is 512;
        context \<leftarrow> md5_update context got;
        if is_eof is then Some (is, context, filesize + of_nat (length got))
        else let tell = of_int (is_tellg is) :: u32
             in md5_file_loop is context (if tell \<noteq> -1 then scast tell else filesize)
      })"
  by auto
termination
  by (relation "measure (\<lambda>(is, _). if is_fail is then 0 else Suc (length (is_bytes is) - is_pos is))")
     (auto simp: is_read_def is_tellg_def Let_def split: if_splits)

declare md5_file_loop.simps [simp del]

definition md5_file_details ::
  "int \<Rightarrow> md5Context_t \<Rightarrow> istream option \<Rightarrow> (int + u64 \<times> md5hash_t \<times> istream) option" where
  "md5_file_details errno stack isp =
     (case isp of
        None \<Rightarrow> Some (Inl (-22))
      | Some is \<Rightarrow>
          if \<not> is_good is then Some (Inl (- errno))
          else do {
            (is, context, filesize) \<leftarrow> md5_file_loop (is_seekg_beg is) (md5_init stack) 0;
            (_, md5) \<leftarrow> md5_final context;
            let is = (if is_fail is then is\<lparr>is_eof := False, is_fail := False\<rparr> else is);
            Some (Inr (filesize, md5, is_seekg_beg is))
          })"

text \<open>The same over \<open>altMD5_hash\<close>, which pads every buffer it is given.\<close>

function altMD5_file_loop :: "istream \<Rightarrow> md5hash_t \<Rightarrow> u64 \<Rightarrow> (istream \<times> md5hash_t \<times> u64) option" where
  "altMD5_file_loop is g_md5hash filesize =
     (if is_tellg is = -1 then Some (is, g_md5hash, filesize)
      else do {
        let (got, is) = is_read is 512;
        g_md5hash \<leftarrow> altMD5_hash g_md5hash got;
        if is_eof is then Some (is, g_md5hash, filesize + of_nat (length got))
        else let tell = of_int (is_tellg is) :: u32
             in altMD5_file_loop is g_md5hash (if tell \<noteq> -1 then scast tell else filesize)
      })"
  by auto
termination
  by (relation "measure (\<lambda>(is, _). if is_fail is then 0 else Suc (length (is_bytes is) - is_pos is))")
     (auto simp: is_read_def is_tellg_def Let_def split: if_splits)

declare altMD5_file_loop.simps [simp del]

definition altMD5_file_details ::
  "int \<Rightarrow> md5hash_t \<Rightarrow> istream option \<Rightarrow> (int + u64 \<times> md5hash_t \<times> istream) option" where
  "altMD5_file_details errno g_md5hash isp =
     (case isp of
        None \<Rightarrow> Some (Inl (-22))
      | Some is \<Rightarrow>
          if \<not> is_good is then Some (Inl (- errno))
          else do {
            (is, md5, filesize) \<leftarrow> altMD5_file_loop (is_seekg_beg is) (altMD5_reset g_md5hash) 0;
            let is = (if is_fail is then is\<lparr>is_eof := False, is_fail := False\<rparr> else is);
            Some (Inr (filesize, md5, is_seekg_beg is))
          })"

section \<open>Hexadecimal text\<close>

definition hexdigit :: "u8 \<Rightarrow> u8" where
  "hexdigit n = (if n < 10 then 48 + n else 87 + n)"

definition hexval :: "u8 \<Rightarrow> u8" where
  "hexval a = (if a \<le> 57 then a - 48 else (a AND 7) + 9)"

fun from_pairs :: "nat \<Rightarrow> u8 list \<Rightarrow> u8 list option" where
  "from_pairs 0 hs = Some []"
| "from_pairs (Suc n) (a # b # hs) =
     do { bs \<leftarrow> from_pairs n hs; Some ((push_bit 4 (hexval a) OR hexval b) # bs) }"
| "from_pairs (Suc n) _ = None"

definition md5_from_char_array :: "u8 list \<Rightarrow> md5hash_t option" where
  "md5_from_char_array hashStr = do { bs \<leftarrow> from_pairs 16 hashStr; Some (hash_of_bytes bs) }"

text \<open>\<open>snprintf\<close> of one byte with format \<open>%02x\<close>.\<close>
definition print_02x :: "u8 \<Rightarrow> u8 list" where
  "print_02x b = [hexdigit (drop_bit 4 b), hexdigit (b AND 0xF), 0]"

fun to_pairs :: "u8 list \<Rightarrow> nat \<Rightarrow> u8 list \<Rightarrow> u8 list option" where
  "to_pairs hashStr j [] = Some hashStr"
| "to_pairs hashStr j (b # bs) =
     do { hashStr \<leftarrow> obj_wr hashStr j (print_02x b); to_pairs hashStr (j + 2) bs }"

definition md5_to_char_array :: "md5hash_t \<Rightarrow> u8 list \<Rightarrow> int \<Rightarrow> (bool \<times> u8 list) option" where
  "md5_to_char_array md5 hashStr hashStrMaxLen =
     (if hashStrMaxLen \<le> 32 then Some (False, hashStr)
      else do { hashStr \<leftarrow> to_pairs hashStr 0 (hash_bytes md5); Some (True, hashStr) })"

definition md5_from_string :: "u8 list \<Rightarrow> md5hash_t option" where
  "md5_from_string hashStr =
     (if length hashStr < 32 then Some (Md5Hash 0 0 0 0) else md5_from_char_array hashStr)"

definition md5_to_string :: "u8 list \<Rightarrow> md5hash_t \<Rightarrow> u8 list option" where
  "md5_to_string stack md5hash =
     do { (_, arr) \<leftarrow> md5_to_char_array md5hash stack 33; Some (take 32 arr) }"

section \<open>Correctness of the alternative implementation\<close>

lemma alt_new_len: "((n + 8) div 64 + 1) * 64 - 8 = n + 1 + (119 - n mod 64) mod (64 :: nat)"
proof -
  define m r where "m = n div 64" and "r = n mod 64"
  have n: "n = r + 64 * m" and r: "r < 64" by (simp_all add: m_def r_def)
  have "(n + 8) div 64 = (r + 8) div 64 + m" by (simp add: n)
  moreover have "(r + 8) div 64 = (if r < 56 then 0 else 1)" using r by (auto intro: div_nat_eqI)
  moreover have "(119 - r) mod 64 = (if r < 56 then 55 - r else 119 - r)"
    using r by (simp add: mod_if)
  moreover have "n mod 64 = r" by (simp add: r_def)
  ultimately show ?thesis using r by (simp add: n)
qed

lemma obj_wr_mid:
  "i = length xs \<Longrightarrow> length ys' = length ys \<Longrightarrow> obj_wr (xs @ ys @ zs) i ys' = Some (xs @ ys' @ zs)"
  by (simp add: obj_wr_def)

lemma altMD5_hash_spec:
  assumes "dat \<noteq> []" "length dat < 2 ^ 29"
  shows "altMD5_hash md5_seed dat = Some (md5_spec dat)"
proof -
  define z where "z = (119 - length dat mod 64) mod 64"
  let ?bits = "Encode [of_nat (8 * length dat)]" and ?new = "length dat + 1 + z"
  have z: "z < 64" by (simp add: z_def)
  have new: "((length dat + 8) div 64 + 1) * 64 - 8 = ?new" by (simp only: alt_new_len z_def)
  have hi: "8 * length dat div 2 ^ 32 = 0" using assms(2) by simp
  have len: "length (md5_pad dat) = ?new + 8" by (simp add: md5_pad_def z_def)
  have enc0: "Encode [w, 0] = Encode [w] @ replicate 4 0" for w
    by (simp add: eval_nat_numeral)
  have rep60: "replicate 60 (0 :: u8) = replicate 4 0 @ replicate 56 0"
    by (simp flip: replicate_add)
  have msg: "dat @ 128 # replicate z 0 @ ?bits @ replicate 60 0 = md5_pad dat @ replicate 56 0"
    unfolding md5_pad_def hi by (simp add: z_def enc0 rep60 del: Encode.simps)
  have cnt: "(?new + 63) div 64 = length (md5_pad dat) div 64"
  proof -
    have "?new + 8 = ((length dat + 8) div 64 + 1) * 64" using new by simp
    then have "length (md5_pad dat) = 64 * ((length dat + 8) div 64 + 1)" "?new + 63 = 55 + 64 * ((length dat + 8) div 64 + 1)" using len by simp_all
    then show ?thesis by simp
  qed
  have b: "blocks64 ((?new + 63) div 64) (md5_pad dat @ replicate 56 0) = blocks64 (length (md5_pad dat) div 64) (md5_pad dat)"
    unfolding cnt by (rule blocks64_append) simp
  have "obj_wr (replicate (?new + 64) 0) 0 dat = Some (dat @ replicate (z + 65) 0)"
    using obj_wr_mid [of 0 "[]" dat "replicate (length dat) 0" "replicate (z + 65) 0"]
    by (simp add: ac_simps flip: replicate_add)
  moreover have "obj_wr (dat @ replicate (z + 65) 0) (length dat) [128] = Some (dat @ 128 # replicate (z + 64) 0)"
    using obj_wr_mid [of "length dat" dat "[128]" "[0]" "replicate (z + 64) 0"]
    by (simp add: replicate_Suc [symmetric] add.commute [of z] del: replicate_Suc)
  moreover have "obj_wr (dat @ 128 # replicate (z + 64) 0) ?new ?bits = Some (md5_pad dat @ replicate 56 0)"
    using obj_wr_mid [of ?new "dat @ 128 # replicate z 0" ?bits "replicate 4 0" "replicate 60 0"]
    by (simp add: msg [symmetric] flip: replicate_add)
  moreover have "\<not> ?new + 64 \<ge> 2 ^ 31" using z assms(2) by simp
  ultimately show ?thesis using assms(1) b
    by (simp only: altMD5_hash_def Let_def new length_0_conv if_False bind.bind_lunit md5_spec_def md5_compress_def)
qed

section \<open>Round trip of the hexadecimal text\<close>

lemma hexval_hexdigit: "n < 16 \<Longrightarrow> hexval (hexdigit n) = n"
proof -
  assume "n < 16"
  then have "unat n < 16" by (simp add: word_less_nat_alt)
  moreover have "\<forall>k\<in>{..<16}. hexval (hexdigit (of_nat k)) = of_nat k"
    by (simp add: lessThan_nat_numeral lessThan_Suc hexval_def hexdigit_def)
  ultimately show ?thesis using word_unat_eq_iff [of n] by (metis lessThan_iff of_nat_unat ucast_id)
qed

lemma hexval_pair: "push_bit 4 (hexval (hexdigit (drop_bit 4 b))) OR hexval (hexdigit (b AND 0xF)) = b"
  for b :: u8
proof -
  have "drop_bit 4 b < 16"
    using unsigned_less [of b, where ?'a = nat]
    by (simp add: word_less_nat_alt unat_div drop_bit_eq_div)
  moreover have m: "b AND 0xF = take_bit 4 b" by (simp add: take_bit_eq_mask mask_eq_decr_exp)
  moreover have "take_bit 4 b < 16"
    by (simp add: word_less_nat_alt unat_mod take_bit_eq_mod)
  ultimately have "push_bit 4 (hexval (hexdigit (drop_bit 4 b))) OR hexval (hexdigit (b AND 0xF)) =
     push_bit 4 (drop_bit 4 b) OR take_bit 4 b"
    by (simp add: hexval_hexdigit)
  also have "\<dots> = b" by (rule bit_word_eqI) (auto simp: bit_simps)
  finally show ?thesis .
qed

abbreviation hex_bytes :: "u8 list \<Rightarrow> u8 list" where
  "hex_bytes bs \<equiv> concat (map (\<lambda>b. [hexdigit (drop_bit 4 b), hexdigit (b AND 0xF)]) bs)"

lemma from_pairs_hex: "from_pairs (length bs) (hex_bytes bs @ rest) = Some bs"
  by (induction bs) (simp_all add: hexval_pair)

lemma to_pairs_hex:
  "j + 2 * length bs < length str \<Longrightarrow>
   \<exists>r. to_pairs str j bs = Some r \<and> length r = length str \<and>
       take (j + 2 * length bs) r = take j str @ hex_bytes bs"
proof (induction bs arbitrary: str j)
  case (Cons b bs)
  let ?s = "take j str @ print_02x b @ drop (Suc (Suc (Suc j))) str"
  have s: "obj_wr str j (print_02x b) = Some ?s" "length ?s = length str"
    "take (j + 2) ?s = take j str @ [hexdigit (drop_bit 4 b), hexdigit (b AND 0xF)]"
    using Cons.prems by (simp_all add: obj_wr_def print_02x_def)
  then obtain r where "to_pairs ?s (j + 2) bs = Some r" "length r = length str"
      "take (j + 2 + 2 * length bs) r = take (j + 2) ?s @ hex_bytes bs"
    using Cons.IH [of "j + 2" ?s] Cons.prems by auto
  then show ?case using s by (simp add: algebra_simps)
qed simp

lemma ucast_byte: "ucast (ucast (w AND 0xff :: u32) :: u8) = take_bit 8 w"
proof -
  have "w AND 0xff = take_bit 8 w" by (simp add: take_bit_eq_mask mask_eq_decr_exp)
  then show ?thesis by (simp only:) (rule bit_word_eqI, auto simp: bit_simps)
qed

lemma take_bit_or_push: "take_bit n w OR push_bit n (take_bit m (drop_bit n w)) = take_bit (n + m) w"
  for w :: "'a::len word"
  by (rule bit_word_eqI) (auto simp: bit_simps)

lemma u32_pieces: "take_bit 8 w OR push_bit 8 (take_bit 8 (drop_bit 8 w)) OR
     push_bit 16 (take_bit 8 (drop_bit 16 w)) OR push_bit 24 (take_bit 8 (drop_bit 24 w)) = (w :: u32)"
  using take_bit_or_push [of 8 w 8] take_bit_or_push [of 16 w 8] take_bit_or_push [of 24 w 8]
    take_bit_length_eq [of w] by (simp add: or.assoc [symmetric])

lemma Decode_Encode [simp]: "Decode (Encode ws) = ws"
  by (induction ws) (simp_all add: ucast_byte u32_pieces)

lemma hash_bytes_inverse [simp]: "hash_of_bytes (hash_bytes h) = h"
  by (cases h) (simp add: hash_of_bytes_def hash_bytes_def del: Encode.simps)

text \<open>C35: A hash printed with \<^verbatim>\<open>md5_to_string\<close> is read back by \<^verbatim>\<open>md5_from_string\<close> as the same hash,
  for each of the \<open>2 ^ 128\<close> hashes, whatever the 33 bytes of the local buffer held.\<close>

theorem md5_string_roundtrip:
  assumes "length stack = 33"
  shows "\<exists>str. md5_to_string stack h = Some str \<and> md5_from_string str = Some h"
proof -
  have l: "length (hash_bytes h) = 16" by (cases h) (simp add: hash_bytes_def del: Encode.simps)
  then obtain r where r: "to_pairs stack 0 (hash_bytes h) = Some r" "length r = 33" "take 32 r = hex_bytes (hash_bytes h)"
    using to_pairs_hex [of 0 "hash_bytes h" stack] assms by auto
  moreover have "from_pairs 16 (take 32 r) = Some (hash_bytes h)"
    using from_pairs_hex [of "hash_bytes h" "[]"] by (simp add: l r(3))
  moreover have "length (take 32 r) = 32" using r(2) by simp
  ultimately show ?thesis
    by (simp add: md5_to_string_def md5_to_char_array_def md5_from_string_def md5_from_char_array_def)
qed

theorem md5_string_roundtrip_witness:
  "\<exists>str. md5_to_string (replicate 33 0xFF) (Md5Hash 0x98500190 0xb04fd23c 0x7d3f96d6 0x727fe128) = Some str \<and>
     md5_from_string str = Some (Md5Hash 0x98500190 0xb04fd23c 0x7d3f96d6 0x727fe128)"
  by (rule md5_string_roundtrip) simp

section \<open>Hash of a file\<close>

lemma tell_size:
  assumes "n < 2 ^ 31"
  shows "(scast (of_int (int n) :: u32) :: u64) = of_nat n" "(of_int (int n) :: u32) \<noteq> -1"
proof -
  have s: "sint (of_int (int n) :: u32) = int n"
    using assms by (simp add: signed_of_nat signed_take_bit_int_eq_self)
  then show "(scast (of_int (int n) :: u32) :: u64) = of_nat n" by (simp only: scast_eq) simp
  show "(of_int (int n) :: u32) \<noteq> -1"
  proof
    assume "(of_int (int n) :: u32) = -1"
    then have "sint (of_int (int n) :: u32) = -1" by simp
    then show False using s by simp
  qed
qed

lemma md5_file_loop_rep:
  assumes "is_good is" "is_pos is \<le> length (is_bytes is)" "length (is_bytes is) < 2 ^ 31"
    "md5_rep ctx (take (is_pos is) (is_bytes is))" "filesize = of_nat (is_pos is)"
  shows "\<exists>ctx'. md5_file_loop is ctx filesize =
     Some (is\<lparr>is_pos := length (is_bytes is), is_eof := True, is_fail := True\<rparr>, ctx', of_nat (length (is_bytes is))) \<and>
     md5_rep ctx' (is_bytes is)"
  using assms
proof (induction "length (is_bytes is) - is_pos is" arbitrary: "is" ctx filesize rule: less_induct)
  case less
  let ?got = "take 512 (drop (is_pos is) (is_bytes is))"
  obtain c1 where c1: "md5_update ctx ?got = Some c1" "md5_rep c1 (take (is_pos is + 512) (is_bytes is))"
    using md5_update_rep [OF less.prems(4), of ?got] by (auto simp: take_add min_less_iff_disj)
  show ?case
  proof (cases "is_pos is + 512 \<le> length (is_bytes is)")
    case True
    let ?is = "is\<lparr>is_pos := is_pos is + 512\<rparr>"
    have r: "is_read is 512 = (?got, ?is)"
      using less.prems(1) True by (simp add: is_read_def is_good_def Let_def)
    show ?thesis
      using less.hyps [of ?is c1 "of_nat (is_pos is + 512)"] less.prems True c1 tell_size [of "is_pos is + 512"]
      by (subst md5_file_loop.simps) (simp add: r Let_def is_tellg_def is_good_def)
  next
    case False
    let ?is = "is\<lparr>is_pos := length (is_bytes is), is_eof := True, is_fail := True\<rparr>"
    have r: "is_read is 512 = (?got, ?is)"
      using less.prems(1,2) False by (simp add: is_read_def is_good_def Let_def)
    show ?thesis
      using less.prems False c1
      by (subst md5_file_loop.simps) (simp add: r Let_def is_tellg_def is_good_def flip: of_nat_add)
  qed
qed

lemma md5_file_details_good:
  assumes "is_good is" "length (is_bytes is) < 2 ^ 31" "length (md5_buffer stack) = 64"
  shows "md5_file_details errno stack (Some is) =
    Some (Inr (of_nat (length (is_bytes is)), md5_spec (is_bytes is), is\<lparr>is_pos := 0\<rparr>))"
proof -
  have "is_seekg_beg is = is\<lparr>is_pos := 0\<rparr>"
    using assms(1) by (cases "is") (simp add: is_seekg_beg_def is_good_def)
  moreover obtain ctx where "md5_file_loop (is\<lparr>is_pos := 0\<rparr>) (md5_init stack) 0 =
     Some (is\<lparr>is_pos := length (is_bytes is), is_eof := True, is_fail := True\<rparr>, ctx, of_nat (length (is_bytes is)))"
     "md5_rep ctx (is_bytes is)"
    using md5_file_loop_rep [of "is\<lparr>is_pos := 0\<rparr>" "md5_init stack" 0] assms md5_init_rep
    by (auto simp: is_good_def)
  ultimately show ?thesis
    using assms md5_final_rep [of ctx "is_bytes is"]
    by (cases "is") (auto simp: md5_file_details_def is_seekg_beg_def is_good_def)
qed

text \<open>On a file of one buffer the legacy routine agrees with MD5; on the empty file it
  returns the seed.\<close>

lemma altMD5_file_details_short:
  assumes "is_good is" "length (is_bytes is) < 512" "is_bytes is \<noteq> []"
  shows "altMD5_file_details errno g (Some is) =
    Some (Inr (of_nat (length (is_bytes is)), md5_spec (is_bytes is), is\<lparr>is_pos := 0\<rparr>))"
proof -
  have "altMD5_hash md5_seed (is_bytes is) = Some (md5_spec (is_bytes is))"
    using assms by (intro altMD5_hash_spec) simp_all
  then show ?thesis
    using assms by (cases "is")
      (simp add: altMD5_file_details_def is_seekg_beg_def is_good_def altMD5_reset_def
        altMD5_file_loop.simps is_read_def is_tellg_def)
qed

lemma altMD5_file_details_empty:
  assumes "is_good is" "is_bytes is = []"
  shows "altMD5_file_details errno g (Some is) = Some (Inr (0, md5_seed, is\<lparr>is_pos := 0\<rparr>))"
    and "md5_seed \<noteq> md5_spec []"
proof -
  show "altMD5_file_details errno g (Some is) = Some (Inr (0, md5_seed, is\<lparr>is_pos := 0\<rparr>))"
    using assms by (cases "is")
      (simp add: altMD5_file_details_def is_seekg_beg_def is_good_def altMD5_reset_def
        altMD5_file_loop.simps is_read_def is_tellg_def altMD5_hash_def)
  show "md5_seed \<noteq> md5_spec []" by (simp add: md5_spec_Nil md5_seed_def)
qed

section \<open>Properties\<close>

text \<open>C14: The two implementations of MD5 in \<^verbatim>\<open>md5.cpp\<close> agree. For a message that is not empty and
  shorter than \<open>2 ^ 29\<close> bytes, the bit length of which fits the 32 bits the legacy routine keeps,
  the unrolled RSA-style code and the table-driven \<^verbatim>\<open>altMD5_hash\<close> after \<^verbatim>\<open>altMD5_reset\<close> both return the
  MD5 of the message.\<close>

theorem altMD5_hash_correct:
  assumes "dat \<noteq> []" "length dat < 2 ^ 29" "length (md5_buffer stack) = 64"
  shows "altMD5_hash (altMD5_reset g) dat = Some (md5_spec dat) \<and> md5_hash stack dat = Some (md5_spec dat)"
proof
  show "altMD5_hash (altMD5_reset g) dat = Some (md5_spec dat)"
    using altMD5_hash_spec [OF assms(1,2)] by (simp add: altMD5_reset_def)
  obtain ctx where "md5_update (md5_init stack) dat = Some ctx" "md5_rep ctx ([] @ dat)"
    using md5_update_rep [OF md5_init_rep [OF assms(3)], of dat] assms(2) by auto
  then show "md5_hash stack dat = Some (md5_spec dat)"
    using md5_final_rep [of ctx dat] by (auto simp: md5_hash_def)
qed

theorem altMD5_hash_correct_witness:
  "altMD5_hash (altMD5_reset (Md5Hash 0 0 0 0)) [0x61, 0x62, 0x63] =
     Some (Md5Hash 0x98500190 0xb04fd23c 0x7d3f96d6 0x727fe128)"
  using altMD5_hash_correct [of "[0x61, 0x62, 0x63]"
      "\<lparr>md5_state = md5_seed, md5_count0 = 0, md5_count1 = 0, md5_buffer = replicate 64 0\<rparr>" "Md5Hash 0 0 0 0"]
  by (simp add: md5_spec_abc)

text \<open>C33: \<^verbatim>\<open>md5_file_details\<close> on an open stream in a good state, of less than 2 GiB and wherever its
  position is, reads it from the start in blocks of 512 bytes to the end, and returns its size, the
  MD5 of its bytes, and the stream rewound and in a good state again.\<close>

theorem md5_file_details_correct:
  assumes "is_good is" "length (is_bytes is) < 2 ^ 31" "length (md5_buffer stack) = 64"
  shows "md5_file_details errno stack (Some is) =
    Some (Inr (of_nat (length (is_bytes is)), md5_spec (is_bytes is), is\<lparr>is_pos := 0\<rparr>))"
  by (rule md5_file_details_good [OF assms])

theorem md5_file_details_correct_witness:
  "md5_file_details 0 \<lparr>md5_state = md5_seed, md5_count0 = 0, md5_count1 = 0, md5_buffer = replicate 64 0\<rparr>
     (Some \<lparr>is_bytes = [0x61, 0x62, 0x63], is_pos = 2, is_eof = False, is_fail = False\<rparr>) =
   Some (Inr (3, Md5Hash 0x98500190 0xb04fd23c 0x7d3f96d6 0x727fe128,
     \<lparr>is_bytes = [0x61, 0x62, 0x63], is_pos = 0, is_eof = False, is_fail = False\<rparr>))"
  using md5_file_details_correct [of "\<lparr>is_bytes = [0x61, 0x62, 0x63], is_pos = 2, is_eof = False, is_fail = False\<rparr>"
      "\<lparr>md5_state = md5_seed, md5_count0 = 0, md5_count1 = 0, md5_buffer = replicate 64 0\<rparr>" 0]
  by (simp add: md5_spec_abc is_good_def)

end
