(* ===== verification/FwPayload.thy ===== *)
theory FwPayload
  imports Md5Files
begin

text \<open>
  The messages of the firmware update protocol, \<open>src/src/protocol/FirmwareUpdate.h\<close>, and
  the packing functions of \<open>FirmwareUpdateBase\<close> in
  \<open>src/src/protocol/FirmwareUpdate.cpp\<close>.

  A \<open>payload_t\<close> is a packed header and a union whose active member is the one of the
  message type, so it is a target and one variant of \<open>msg_data_t\<close>; a type the code does
  not know is the variant \<open>UNKNOWN\<close>. The bytes that follow the fixed part of a chunk or a
  progress message (the auxiliary data, from the member \<open>data\<close> or \<open>message\<close> on) are kept
  beside the payload. \<open>update_status_e\<close> and \<open>resend_reason_e\<close> are signed 16-bit values, here
  integers. Members the code leaves uninitialised are ordinary members, with whatever
  value the stack held.

  Reading a message reads the whole fixed part of its type: a buffer shorter than that is
  an access out of bounds (\<open>None\<close>).
\<close>

section \<open>Constants\<close>

definition FWUPDATE_MAX_CHUNK_SIZE :: nat where
  "FWUPDATE_MAX_CHUNK_SIZE = 512"

definition FWUPDATE_MAX_PAYLOAD_SIZE :: nat where
  "FWUPDATE_MAX_PAYLOAD_SIZE = FWUPDATE_MAX_CHUNK_SIZE + 92"

abbreviation (input) TARGET_HOST :: u32 where "TARGET_HOST \<equiv> 0x00"
abbreviation (input) TARGET_IMX5 :: u32 where "TARGET_IMX5 \<equiv> 0x10"
abbreviation (input) TARGET_GPX1 :: u32 where "TARGET_GPX1 \<equiv> 0x20"
abbreviation (input) TARGET_VPX :: u32 where "TARGET_VPX \<equiv> 0x30"
abbreviation (input) TARGET_UBLOX_F9P :: u32 where "TARGET_UBLOX_F9P \<equiv> 0x110"
abbreviation (input) TARGET_SONY_CXD5610 :: u32 where "TARGET_SONY_CXD5610 \<equiv> 0x120"
abbreviation (input) TARGET_MAXNUM :: u32 where "TARGET_MAXNUM \<equiv> 0x130"
abbreviation (input) TARGET_DFU_FLAG :: u32 where "TARGET_DFU_FLAG \<equiv> 0x80000000"

abbreviation (input) FINISHED :: int where "FINISHED \<equiv> 5"
abbreviation (input) FINALIZING :: int where "FINALIZING \<equiv> 4"
abbreviation (input) IN_PROGRESS :: int where "IN_PROGRESS \<equiv> 3"
abbreviation (input) READY :: int where "READY \<equiv> 2"
abbreviation (input) INITIALIZING :: int where "INITIALIZING \<equiv> 1"
abbreviation (input) NOT_STARTED :: int where "NOT_STARTED \<equiv> 0"
abbreviation (input) ERR_INVALID_SESSION :: int where "ERR_INVALID_SESSION \<equiv> -1"
abbreviation (input) ERR_MAX_CHUNK_SIZE :: int where "ERR_MAX_CHUNK_SIZE \<equiv> -6"
abbreviation (input) ERR_CHECKSUM_MISMATCH :: int where "ERR_CHECKSUM_MISMATCH \<equiv> -8"
abbreviation (input) ERR_FLASH_WRITE_FAILURE :: int where "ERR_FLASH_WRITE_FAILURE \<equiv> -11"
abbreviation (input) ERR_FLASH_INVALID :: int where "ERR_FLASH_INVALID \<equiv> -13"
abbreviation (input) ERR_INVALID_CHUNK :: int where "ERR_INVALID_CHUNK \<equiv> -16"
abbreviation (input) ERR_UNKNOWN :: int where "ERR_UNKNOWN \<equiv> -18"

abbreviation (input) REASON_NONE :: int where "REASON_NONE \<equiv> 0"
abbreviation (input) REASON_INVALID_SEQID :: int where "REASON_INVALID_SEQID \<equiv> 1"
abbreviation (input) REASON_WRITE_ERROR :: int where "REASON_WRITE_ERROR \<equiv> 2"
abbreviation (input) REASON_INVALID_SIZE :: int where "REASON_INVALID_SIZE \<equiv> 3"

abbreviation (input) RESET_SOFT :: u16 where "RESET_SOFT \<equiv> 0"

section \<open>Messages\<close>

record req_update_t =
  ru_session_id :: u16
  ru_image_slot :: u8
  ru_image_flags :: u8
  ru_file_size :: u32
  ru_chunk_size :: u16
  ru_progress_rate :: u16
  ru_md5_hash :: md5hash_t

record progress_t =
  pr_session_id :: u16
  pr_status :: int
  pr_num_chunks :: u16
  pr_totl_chunks :: u16
  pr_msg_level :: u8
  pr_msg_len :: u8

record version_resp_t =
  vr_resTarget :: u32
  vr_serialNumber :: u32
  vr_reserved :: u8
  vr_hardwareType :: u8
  vr_hardwareVer :: u32
  vr_firmwareVer :: u32
  vr_buildHash :: u32
  vr_buildNumber :: u32
  vr_buildType :: u8
  vr_buildYear :: u8
  vr_buildMonth :: u8
  vr_buildDay :: u8
  vr_buildHour :: u8
  vr_buildMinute :: u8
  vr_buildSecond :: u8
  vr_buildMillis :: u8

text \<open>The four-byte arrays \<open>hardwareVer\<close>, \<open>firmwareVer\<close> and \<open>buildHash\<close>, which the code
  copies as a whole, are the words with those bytes. The empty structure \<open>req_version\<close>
  occupies one byte, which \<open>REQ_VERSION_INFO\<close> carries.\<close>

datatype msg_data_t =
    UNKNOWN u32
  | REQ_RESET u16
  | RESET_RESP u32 u16
  | REQ_UPDATE req_update_t
  | UPDATE_RESP u16 u16 int
  | UPDATE_CHUNK u16 u16 u16
  | UPDATE_PROGRESS progress_t
  | REQ_RESEND_CHUNK u16 u16 int
  | UPDATE_DONE u16 int
  | REQ_VERSION_INFO u8
  | VERSION_INFO_RESP version_resp_t

record payload_t =
  target_device :: u32
  data :: msg_data_t

fun msg_type_of :: "msg_data_t \<Rightarrow> u32" where
  "msg_type_of (UNKNOWN t) = t"
| "msg_type_of (REQ_RESET _) = 1"
| "msg_type_of (RESET_RESP _ _) = 2"
| "msg_type_of (REQ_UPDATE _) = 3"
| "msg_type_of (UPDATE_RESP _ _ _) = 4"
| "msg_type_of (UPDATE_CHUNK _ _ _) = 5"
| "msg_type_of (UPDATE_PROGRESS _) = 6"
| "msg_type_of (REQ_RESEND_CHUNK _ _ _) = 7"
| "msg_type_of (UPDATE_DONE _ _) = 8"
| "msg_type_of (REQ_VERSION_INFO _) = 9"
| "msg_type_of (VERSION_INFO_RESP _) = 10"

section \<open>Bytes of a message\<close>

abbreviation u32_bytes :: "u32 \<Rightarrow> u8 list" where
  "u32_bytes w \<equiv> Encode [w]"

definition status_bytes :: "int \<Rightarrow> u8 list" where
  "status_bytes s = u16_bytes (of_int s)"

fun data_bytes :: "msg_data_t \<Rightarrow> u8 list" where
  "data_bytes (UNKNOWN t) = []"
| "data_bytes (REQ_RESET f) = u16_bytes f"
| "data_bytes (RESET_RESP t s) = u32_bytes t @ u16_bytes s"
| "data_bytes (REQ_UPDATE r) =
     u16_bytes (ru_session_id r) @ [ru_image_slot r, ru_image_flags r] @
     u32_bytes (ru_file_size r) @ u16_bytes (ru_chunk_size r) @
     u16_bytes (ru_progress_rate r) @ hash_bytes (ru_md5_hash r)"
| "data_bytes (UPDATE_RESP i n s) = u16_bytes i @ u16_bytes n @ status_bytes s"
| "data_bytes (UPDATE_CHUNK i c n) = u16_bytes i @ u16_bytes c @ u16_bytes n"
| "data_bytes (UPDATE_PROGRESS p) =
     u16_bytes (pr_session_id p) @ status_bytes (pr_status p) @ u16_bytes (pr_num_chunks p) @
     u16_bytes (pr_totl_chunks p) @ [pr_msg_level p, pr_msg_len p]"
| "data_bytes (REQ_RESEND_CHUNK i c r) = u16_bytes i @ u16_bytes c @ status_bytes r"
| "data_bytes (UPDATE_DONE i s) = u16_bytes i @ status_bytes s"
| "data_bytes (REQ_VERSION_INFO b) = [b]"
| "data_bytes (VERSION_INFO_RESP v) =
     u32_bytes (vr_resTarget v) @ u32_bytes (vr_serialNumber v) @
     [vr_reserved v, vr_hardwareType v] @ u32_bytes (vr_hardwareVer v) @
     u32_bytes (vr_firmwareVer v) @ u32_bytes (vr_buildHash v) @ u32_bytes (vr_buildNumber v) @
     [vr_buildType v, vr_buildYear v, vr_buildMonth v, vr_buildDay v,
      vr_buildHour v, vr_buildMinute v, vr_buildSecond v, vr_buildMillis v]"

definition payload_bytes :: "payload_t \<Rightarrow> u8 list" where
  "payload_bytes p =
     u32_bytes (target_device p) @ u32_bytes (msg_type_of (data p)) @ data_bytes (data p)"

text \<open>Readers take their bytes off the front of the buffer.\<close>

type_synonym 'a reader = "u8 list \<Rightarrow> ('a \<times> u8 list) option"

fun get_u8 :: "u8 reader" where
  "get_u8 (a # bs) = Some (a, bs)"
| "get_u8 [] = None"

fun get_u16 :: "u16 reader" where
  "get_u16 (a # b # bs) = Some (u16_of a b, bs)"
| "get_u16 _ = None"

fun get_u32 :: "u32 reader" where
  "get_u32 (a # b # c # d # bs) = Some (hd (Decode [a, b, c, d]), bs)"
| "get_u32 _ = None"

definition get_status :: "int reader" where
  "get_status bs = do { (w, bs) \<leftarrow> get_u16 bs; Some (sint w, bs) }"

definition get_hash :: "md5hash_t reader" where
  "get_hash bs =
     do { (a, bs) \<leftarrow> get_u32 bs; (b, bs) \<leftarrow> get_u32 bs; (c, bs) \<leftarrow> get_u32 bs;
          (d, bs) \<leftarrow> get_u32 bs; Some (Md5Hash a b c d, bs) }"

definition get_req_update :: "req_update_t reader" where
  "get_req_update bs =
     do { (i, bs) \<leftarrow> get_u16 bs; (s, bs) \<leftarrow> get_u8 bs; (f, bs) \<leftarrow> get_u8 bs;
          (n, bs) \<leftarrow> get_u32 bs; (c, bs) \<leftarrow> get_u16 bs; (r, bs) \<leftarrow> get_u16 bs;
          (h, bs) \<leftarrow> get_hash bs;
          Some (\<lparr>ru_session_id = i, ru_image_slot = s, ru_image_flags = f, ru_file_size = n,
                 ru_chunk_size = c, ru_progress_rate = r, ru_md5_hash = h\<rparr>, bs) }"

definition get_progress :: "progress_t reader" where
  "get_progress bs =
     do { (i, bs) \<leftarrow> get_u16 bs; (s, bs) \<leftarrow> get_status bs; (n, bs) \<leftarrow> get_u16 bs;
          (t, bs) \<leftarrow> get_u16 bs; (l, bs) \<leftarrow> get_u8 bs; (m, bs) \<leftarrow> get_u8 bs;
          Some (\<lparr>pr_session_id = i, pr_status = s, pr_num_chunks = n, pr_totl_chunks = t,
                 pr_msg_level = l, pr_msg_len = m\<rparr>, bs) }"

definition get_version_resp :: "version_resp_t reader" where
  "get_version_resp bs =
     do { (t, bs) \<leftarrow> get_u32 bs; (n, bs) \<leftarrow> get_u32 bs; (r, bs) \<leftarrow> get_u8 bs;
          (h, bs) \<leftarrow> get_u8 bs; (hv, bs) \<leftarrow> get_u32 bs; (fv, bs) \<leftarrow> get_u32 bs;
          (bh, bs) \<leftarrow> get_u32 bs; (bn, bs) \<leftarrow> get_u32 bs; (ty, bs) \<leftarrow> get_u8 bs;
          (y, bs) \<leftarrow> get_u8 bs; (mo, bs) \<leftarrow> get_u8 bs; (d, bs) \<leftarrow> get_u8 bs;
          (ho, bs) \<leftarrow> get_u8 bs; (mi, bs) \<leftarrow> get_u8 bs; (s, bs) \<leftarrow> get_u8 bs;
          (ms, bs) \<leftarrow> get_u8 bs;
          Some (\<lparr>vr_resTarget = t, vr_serialNumber = n, vr_reserved = r, vr_hardwareType = h,
                 vr_hardwareVer = hv, vr_firmwareVer = fv, vr_buildHash = bh,
                 vr_buildNumber = bn, vr_buildType = ty, vr_buildYear = y, vr_buildMonth = mo,
                 vr_buildDay = d, vr_buildHour = ho, vr_buildMinute = mi, vr_buildSecond = s,
                 vr_buildMillis = ms\<rparr>, bs) }"

definition get_data :: "u32 \<Rightarrow> msg_data_t reader" where
  "get_data t bs =
     (if t = 1 then do { (f, bs) \<leftarrow> get_u16 bs; Some (REQ_RESET f, bs) }
      else if t = 2 then
        do { (r, bs) \<leftarrow> get_u32 bs; (s, bs) \<leftarrow> get_u16 bs; Some (RESET_RESP r s, bs) }
      else if t = 3 then do { (r, bs) \<leftarrow> get_req_update bs; Some (REQ_UPDATE r, bs) }
      else if t = 4 then
        do { (i, bs) \<leftarrow> get_u16 bs; (n, bs) \<leftarrow> get_u16 bs; (s, bs) \<leftarrow> get_status bs;
             Some (UPDATE_RESP i n s, bs) }
      else if t = 5 then
        do { (i, bs) \<leftarrow> get_u16 bs; (c, bs) \<leftarrow> get_u16 bs; (n, bs) \<leftarrow> get_u16 bs;
             Some (UPDATE_CHUNK i c n, bs) }
      else if t = 6 then do { (p, bs) \<leftarrow> get_progress bs; Some (UPDATE_PROGRESS p, bs) }
      else if t = 7 then
        do { (i, bs) \<leftarrow> get_u16 bs; (c, bs) \<leftarrow> get_u16 bs; (r, bs) \<leftarrow> get_status bs;
             Some (REQ_RESEND_CHUNK i c r, bs) }
      else if t = 8 then
        do { (i, bs) \<leftarrow> get_u16 bs; (s, bs) \<leftarrow> get_status bs; Some (UPDATE_DONE i s, bs) }
      else if t = 9 then do { (b, bs) \<leftarrow> get_u8 bs; Some (REQ_VERSION_INFO b, bs) }
      else if t = 10 then do { (v, bs) \<leftarrow> get_version_resp bs; Some (VERSION_INFO_RESP v, bs) }
      else Some (UNKNOWN t, bs))"

definition get_payload :: "payload_t reader" where
  "get_payload bs =
     do { (t, bs) \<leftarrow> get_u32 bs; (m, bs) \<leftarrow> get_u32 bs; (d, bs) \<leftarrow> get_data m bs;
          Some (\<lparr>target_device = t, data = d\<rparr>, bs) }"

section \<open>Packing\<close>

fun aux_len_of :: "msg_data_t \<Rightarrow> nat" where
  "aux_len_of (UPDATE_CHUNK _ _ n) = unat n"
| "aux_len_of (UPDATE_PROGRESS p) = unat (pr_msg_len p)"
| "aux_len_of _ = 0"

text \<open>Sizes as the switch has them: the size of the header, of the member of the message
  type, and for the two messages with auxiliary data one byte less for their first data byte.
  The function reads the type and, to include the auxiliary data, its length.\<close>

definition fwUpdate_getPayloadSize :: "u32 \<Rightarrow> nat \<Rightarrow> bool \<Rightarrow> nat" where
  "fwUpdate_getPayloadSize msg_type aux_len include_aux =
     (if msg_type = 1 then 8 + 2
      else if msg_type = 2 then 8 + 6
      else if msg_type = 3 then 8 + 28
      else if msg_type = 4 then 8 + 6
      else if msg_type = 5 then nat (8 + 7 + (if include_aux then int aux_len - 1 else -1))
      else if msg_type = 7 then 8 + 6
      else if msg_type = 6 then nat (8 + 11 + (if include_aux then int aux_len - 1 else -1))
      else if msg_type = 8 then 8 + 4
      else if msg_type = 9 then 8 + 1
      else if msg_type = 10 then 8 + 34
      else 0)"

abbreviation payload_size_of :: "payload_t \<Rightarrow> nat" where
  "payload_size_of p \<equiv> fwUpdate_getPayloadSize (msg_type_of (data p)) (aux_len_of (data p)) False"

text \<open>The result of packing and the buffer; \<open>aux_data\<close> is \<open>None\<close> for a null pointer.\<close>

definition fwUpdate_packPayload ::
  "u8 list \<Rightarrow> int \<Rightarrow> payload_t \<Rightarrow> u8 list option \<Rightarrow> (int \<times> u8 list) option" where
  "fwUpdate_packPayload buf max_len p aux_data =
     (let payload_size = int (payload_size_of p);
          aux_len = aux_len_of (data p)
      in if payload_size > max_len then Some (-1, buf)
         else if payload_size = 0 then Some (-2, buf)
         else do {
           buf \<leftarrow> obj_wr buf 0 (payload_bytes p);
           buf \<leftarrow> (case aux_data of
                    Some aux \<Rightarrow>
                      if aux_len > 0
                      then do { d \<leftarrow> obj_rd aux 0 (int aux_len); obj_wr buf (nat payload_size) d }
                      else Some buf
                  | None \<Rightarrow> Some buf);
           Some (payload_size + int aux_len, buf)
         })"

text \<open>Unpacking copies the fixed part into \<open>payload\<close> and, where they fit, the auxiliary
  bytes into \<open>aux_data\<close>. A message of an unknown type has size 0 and leaves both as they
  were. \<open>memcpy\<close> of no bytes touches nothing.\<close>

definition fwUpdate_unpackPayload ::
  "u8 list \<Rightarrow> int \<Rightarrow> payload_t \<Rightarrow> u8 list option \<Rightarrow> u16 \<Rightarrow>
   (int \<times> payload_t \<times> u8 list option) option" where
  "fwUpdate_unpackPayload buf buf_len payload aux_data max_aux =
     do {
       (_, bs) \<leftarrow> get_u32 buf;
       (msg_type, bs) \<leftarrow> get_u32 bs;
       aux_len \<leftarrow> (if msg_type = 5 \<or> msg_type = 6
                   then do { (d, _) \<leftarrow> get_data msg_type bs; Some (aux_len_of d) } else Some 0);
       let payload_size = fwUpdate_getPayloadSize msg_type aux_len False;
       if buf_len < int (payload_size + aux_len) then Some (-1, payload, aux_data)
       else do {
         (q, rest) \<leftarrow> (if payload_size = 0 then Some (payload, []) else get_payload buf);
         aux_data \<leftarrow> (case aux_data of
                         Some aux \<Rightarrow>
                           if aux_len \<le> unat max_aux
                           then do { d \<leftarrow> obj_rd rest 0 (int aux_len);
                                     aux \<leftarrow> obj_wr aux 0 d; Some (Some aux) }
                           else Some (Some aux)
                       | None \<Rightarrow> Some None);
         Some (int (payload_size + aux_len), q, aux_data)
       }
     }"

text \<open>The message in a receive buffer, with the upper half of its type cleared in the
  buffer. The result is the size, the payload, the bytes from the auxiliary data on, and the
  changed buffer.\<close>

definition fwUpdate_mapBufferToPayload ::
  "u8 list \<Rightarrow> (int \<times> payload_t \<times> u8 list \<times> u8 list) option" where
  "fwUpdate_mapBufferToPayload buf =
     do {
       (t, bs) \<leftarrow> get_u32 buf;
       (m, bs) \<leftarrow> get_u32 bs;
       let buf = u32_bytes t @ u32_bytes (m AND 0xFFFF) @ bs;
       (p, rest) \<leftarrow> get_payload buf;
       Some (int (payload_size_of p + aux_len_of (data p)), p, rest, buf)
     }"

section \<open>Names\<close>

definition status_names :: "(string \<times> string) list" where
  "status_names =
     [(''ERR_UNKNOWN'', ''Unknown Error''),
      (''ERR_INVALID_TARGET'', ''Invalid Target''),
      (''ERR_INVALID_CHUNK'', ''Invalid or Out of Sequence Chunk''),
      (''ERR_INVALID_IMAGE'', ''Invalid Image''),
      (''ERR_UPDATER_CLOSED'', ''Updater Closed''),
      (''ERR_FLASH_INVALID'', ''Flash Invalid''),
      (''ERR_FLASH_OPEN_FAILURE'', ''Flash Open Failure''),
      (''ERR_FLASH_WRITE_FAILURE'', ''Flash Write Failure''),
      (''ERR_NOT_SUPPORTED'', ''Request or Feature Not Supported''),
      (''ERR_COMMS'', ''Communications Error''),
      (''ERR_CHECKSUM_MISMATCH'', ''Checksum Mismatch''),
      (''ERR_TIMEOUT'', ''Communications Timeout''),
      (''ERR_MAX_CHUNK_SIZE'', ''Max Chunk Size Exceeded''),
      (''ERR_OLDER_FIRMWARE'', ''Older Firmware - Downgrade not allowed''),
      (''ERR_NOT_ENOUGH_MEMORY'', ''Not Enough Memory''),
      (''ERR_NOT_ALLOWED'', ''Operation Not Allowed''),
      (''ERR_INVALID_SLOT'', ''Invalid Device Slot''),
      (''ERR_INVALID_SESSION'', ''Invalid Session''),
      (''NOT_STARTED'', ''Not Started''),
      (''INITIALIZING'', ''Initializing''),
      (''READY'', ''Ready''),
      (''IN_PROGRESS'', ''In Progress''),
      (''FINALIZING'', ''Finalizing''),
      (''FINISHED'', ''Finished'')]"

text \<open>The table is indexed without a check: a status outside it reads past its end.\<close>

definition status_entry :: "int \<Rightarrow> (string \<times> string) option" where
  "status_entry status =
     (let i = (if status \<ge> 0 then status + abs ERR_UNKNOWN else status - ERR_UNKNOWN)
      in if 0 \<le> i \<and> i < int (length status_names) then Some (status_names ! nat i) else None)"

definition fwUpdate_getStatusName :: "int \<Rightarrow> string option" where
  "fwUpdate_getStatusName status = map_option fst (status_entry status)"

definition fwUpdate_getNiceStatusName :: "int \<Rightarrow> string option" where
  "fwUpdate_getNiceStatusName status = map_option snd (status_entry status)"

definition fwUpdate_getTargetName :: "u32 \<Rightarrow> string" where
  "fwUpdate_getTargetName target =
     (let target_masked = target AND 0xFFFF0
      in if target_masked = TARGET_HOST then ''HOST''
         else if target_masked = TARGET_IMX5 then ''IMX-5''
         else if target_masked = TARGET_GPX1 then ''GPX-1''
         else if target_masked = TARGET_VPX then ''VPX-1''
         else if target_masked = TARGET_UBLOX_F9P then ''uBlox F9P''
         else if target_masked = TARGET_SONY_CXD5610 then
           (if target AND 0x0F = 1 then ''CXD5610.1''
            else if target AND 0x0F = 2 then ''CXD5610.2''
            else ''CXD5610'')
         else ''[UNKNOWN]'')"

definition fwUpdate_getTargetType :: "u32 \<Rightarrow> u32" where
  "fwUpdate_getTargetType target = target AND 0xFFF0"

section \<open>Round trip of the bytes\<close>

text \<open>Payloads whose members are in the range of their C types and whose unknown type is
  none of the known ones.\<close>

definition int16 :: "int \<Rightarrow> bool" where
  "int16 s \<longleftrightarrow> -32768 \<le> s \<and> s < 32768"

fun wf_data :: "msg_data_t \<Rightarrow> bool" where
  "wf_data (UNKNOWN t) \<longleftrightarrow> t = 0 \<or> 10 < t"
| "wf_data (UPDATE_RESP i n s) \<longleftrightarrow> int16 s"
| "wf_data (UPDATE_PROGRESS p) \<longleftrightarrow> int16 (pr_status p)"
| "wf_data (REQ_RESEND_CHUNK i c r) \<longleftrightarrow> int16 r"
| "wf_data (UPDATE_DONE i s) \<longleftrightarrow> int16 s"
| "wf_data _ \<longleftrightarrow> True"

definition known_data :: "msg_data_t \<Rightarrow> bool" where
  "known_data d \<longleftrightarrow> (case d of UNKNOWN _ \<Rightarrow> False | _ \<Rightarrow> True)"

lemma get_u16_bytes [simp]: "get_u16 (u16_bytes w @ bs) = Some (w, bs)"
  by (simp add: u16_bytes_def)

lemma get_u32_bytes [simp]: "get_u32 (u32_bytes w @ bs) = Some (w, bs)"
  using Decode_Encode [of "[w]"] by (simp del: Decode_Encode)

lemma get_status_bytes [simp]: "int16 s \<Longrightarrow> get_status (status_bytes s @ bs) = Some (s, bs)"
  by (simp add: get_status_def status_bytes_def int16_def signed_of_int
      signed_take_bit_int_eq_self)

lemma Encode_append: "Encode (xs @ ys) = Encode xs @ Encode ys"
  by (induction xs) simp_all

lemma get_hash_bytes [simp]: "get_hash (hash_bytes h @ bs) = Some (h, bs)"
proof -
  have "hash_bytes h = u32_bytes (dword0 h) @ u32_bytes (dword1 h) @ u32_bytes (dword2 h) @
      u32_bytes (dword3 h)"
    by (cases h) (simp add: hash_bytes_def flip: Encode_append)
  then show ?thesis
    by (simp add: get_hash_def del: Encode.simps)
qed

lemma get_data_bytes:
  "wf_data d \<Longrightarrow> known_data d \<Longrightarrow> get_data (msg_type_of d) (data_bytes d @ bs) = Some (d, bs)"
  by (cases d) (simp_all add: get_data_def known_data_def get_req_update_def get_progress_def
      get_version_resp_def del: Encode.simps)

lemma get_payload_bytes:
  "wf_data (data p) \<Longrightarrow> known_data (data p) \<Longrightarrow>
   get_payload (payload_bytes p @ bs) = Some (p, bs)"
  by (simp add: get_payload_def payload_bytes_def get_data_bytes del: Encode.simps)

lemma length_hash_bytes [simp]: "length (hash_bytes h) = 16"
  by (cases h) (simp add: hash_bytes_def)

lemma length_payload_bytes:
  "known_data (data p) \<Longrightarrow> length (payload_bytes p) = payload_size_of p"
  by (cases "data p")
     (simp_all add: payload_bytes_def fwUpdate_getPayloadSize_def known_data_def status_bytes_def
       del: Encode.simps)

lemma known_type:
  assumes "known_data d"
  shows "msg_type_of d AND 0xFFFF = msg_type_of d"
    and "msg_type_of d = 5 \<or> msg_type_of d = 6 \<or> aux_len_of d = 0"
    and "0 < fwUpdate_getPayloadSize (msg_type_of d) n False"
  using assms by (cases d, simp_all add: known_data_def fwUpdate_getPayloadSize_def)+

lemma packPayload_eq:
  assumes "known_data (data p)" "length aux = aux_len_of (data p)"
    "int (payload_size_of p) \<le> max_len" "payload_size_of p + length aux \<le> length buf"
  shows "fwUpdate_packPayload buf max_len p (Some aux) =
    Some (int (payload_size_of p + length aux),
          payload_bytes p @ aux @ drop (payload_size_of p + length aux) buf)"
  using assms length_payload_bytes [OF assms(1)] known_type(3) [OF assms(1)]
  by (auto simp: fwUpdate_packPayload_def obj_wr_def obj_rd_def Let_def add.commute)

lemma mapBuffer_bytes:
  assumes "known_data (data p)" "wf_data (data p)"
  shows "fwUpdate_mapBufferToPayload (payload_bytes p @ aux) =
    Some (int (payload_size_of p + aux_len_of (data p)), p, aux, payload_bytes p @ aux)"
  using get_payload_bytes [of p aux] assms known_type(1) [OF assms(1)]
  by (simp add: fwUpdate_mapBufferToPayload_def payload_bytes_def del: Encode.simps)

lemma unpackPayload_bytes:
  assumes "known_data (data p)" "wf_data (data p)" "length aux = aux_len_of (data p)"
    "length aux \<le> unat max_aux" "length aux \<le> length out"
  shows "fwUpdate_unpackPayload (payload_bytes p @ aux) (int (payload_size_of p + length aux))
      q (Some out) max_aux =
    Some (int (payload_size_of p + length aux), p, Some (aux @ drop (length aux) out))"
proof -
  let ?b = "payload_bytes p @ aux" and ?m = "msg_type_of (data p)"
  have h: "get_u32 ?b = Some (target_device p, u32_bytes ?m @ data_bytes (data p) @ aux)"
    by (simp add: payload_bytes_def del: Encode.simps)
  have a: "(if ?m = 5 \<or> ?m = 6
      then do { (d, _) \<leftarrow> get_data ?m (data_bytes (data p) @ aux); Some (aux_len_of d) }
      else Some 0) = Some (length aux)"
    using get_data_bytes [OF assms(2,1)] known_type(2) [OF assms(1)] assms(3) by auto
  have ne: "fwUpdate_getPayloadSize ?m n False \<noteq> 0" for n
    using known_type(3) [OF assms(1), of n] by simp
  have g: "get_payload ?b = Some (p, aux)" by (rule get_payload_bytes [OF assms(2,1)])
  show ?thesis
    unfolding fwUpdate_unpackPayload_def h
    using a g assms(3-5)
    by (simp add: ne Let_def obj_rd_def obj_wr_def del: Encode.simps)
qed

text \<open>C13: a message packed for the wire is what the receiver maps and unpacks: the bytes
  written to the buffer, read back over the length that packing returned, give the same
  payload and the same auxiliary bytes, and both readers return that length.\<close>

theorem payload_roundtrip:
  assumes "known_data (data p)" "wf_data (data p)" "length aux = aux_len_of (data p)"
    "int (payload_size_of p) \<le> max_len" "payload_size_of p + length aux \<le> length buf"
    "length aux \<le> unat max_aux" "length aux \<le> length out"
  shows "\<exists>n buf'. fwUpdate_packPayload buf max_len p (Some aux) = Some (int n, buf') \<and>
      n = payload_size_of p + length aux \<and> length buf' = length buf \<and>
      fwUpdate_mapBufferToPayload (take n buf') = Some (int n, p, aux, take n buf') \<and>
      fwUpdate_unpackPayload (take n buf') (int n) q (Some out) max_aux =
        Some (int n, p, Some (aux @ drop (length aux) out))"
  using packPayload_eq [OF assms(1,3-5)] mapBuffer_bytes [OF assms(1,2), of aux]
    unpackPayload_bytes [OF assms(1-3,6,7)] length_payload_bytes [OF assms(1)] assms(3,5)
  by auto

definition demo_chunk :: payload_t where
  "demo_chunk = \<lparr>target_device = TARGET_IMX5, data = UPDATE_CHUNK 7 2 3\<rparr>"

theorem payload_roundtrip_witness:
  "\<exists>n buf'. fwUpdate_packPayload (replicate 604 0) 604 demo_chunk (Some [1, 2, 3]) =
      Some (int n, buf') \<and>
      n = payload_size_of demo_chunk + length [1, 2, 3 :: u8] \<and> length buf' = 604 \<and>
      fwUpdate_mapBufferToPayload (take n buf') =
        Some (int n, demo_chunk, [1, 2, 3], take n buf') \<and>
      fwUpdate_unpackPayload (take n buf') (int n) demo_chunk (Some [9, 9, 9, 9]) 4 =
        Some (int n, demo_chunk, Some [1, 2, 3, 9])"
  using payload_roundtrip [of demo_chunk "[1, 2, 3]" 604 "replicate 604 0" 4 "[9, 9, 9, 9]"
      demo_chunk]
  by (simp add: demo_chunk_def known_data_def fwUpdate_getPayloadSize_def)

end
