(* ===== verification/FwUpdate.thy ===== *)
theory FwUpdate
  imports FwPayload "HOL-Library.Log_Nat"
begin

text \<open>
  The two ends of the firmware update protocol,
  \<open>src/src/protocol/FirmwareUpdate.cpp\<close>: \<open>FirmwareUpdateDevice\<close>, which receives an image in
  chunks, and \<open>FirmwareUpdateHost\<close>, which sends it.

  The members of each class are a record. The functions a subclass must implement (the
  wire, the flash, the reset, the version query, the clock, and for the host the handlers)
  are a record of functions on the application's own state \<open>'s\<close>. A device's functions
  may read the members of the base class and leave them alone; a host's handlers may change them, as those of
  \<open>ISFirmwareUpdater\<close> do. \<open>None\<close> is undefined behaviour: an access out of bounds, a division
  by zero, an overflow of \<open>int\<close>, or a float that does not fit the integer it is converted to.
\<close>

section \<open>The chunk count\<close>

text \<open>\<open>(uint16_t) ceil((float)size / (float)chunk)\<close> in IEEE single precision with rounding to
  nearest, ties to even. \<open>rne_div a b\<close> is \<open>a / b\<close> rounded to an integer; a positive value with
  \<open>n\<close> binary digits before the point keeps the 24 leading ones. The quotient is scaled by
  \<open>2 ^ 64\<close>, so that its integer part has at least 48 digits for every 32-bit size and 16-bit
  chunk.\<close>

definition rne_div :: "nat \<Rightarrow> nat \<Rightarrow> nat" where
  "rne_div a b =
     (let q = a div b; r = a mod b
      in if 2 * r < b \<or> (2 * r = b \<and> even q) then q else q + 1)"

definition float_of_u32 :: "u32 \<Rightarrow> nat" where
  "float_of_u32 w =
     (let n = unat w
      in if n < 2 ^ 24 then n
         else let e = floorlog 2 n - 24 in rne_div n (2 ^ e) * 2 ^ e)"

definition float_div_ceil :: "nat \<Rightarrow> nat \<Rightarrow> nat" where
  "float_div_ceil n c =
     (if n = 0 then 0
      else let e = floorlog 2 (n * 2 ^ 64 div c) - 24;
               q = rne_div (n * 2 ^ 64) (c * 2 ^ e)
           in (q * 2 ^ e + (2 ^ 64 - 1)) div 2 ^ 64)"

definition chunk_count :: "u32 \<Rightarrow> u16 \<Rightarrow> u16 option" where
  "chunk_count image_size chunk_size =
     (if chunk_size = 0 then None
      else let n = float_div_ceil (float_of_u32 image_size) (unat chunk_size)
           in if n < 2 ^ 16 then Some (of_nat n) else None)"

section \<open>Device\<close>

record fw_dev =
  d_build_buffer :: "u8 list"
  d_last_message :: u32
  d_timeout_duration :: u32
  d_resend_count :: u32
  d_session_target :: u32
  d_session_status :: int
  d_session_id :: u16
  d_session_chunk_size :: u16
  d_session_total_chunks :: u16
  d_session_image_size :: u32
  d_session_progress_rate :: u16
  d_session_image_slot :: u8
  d_session_image_flags :: u8
  d_session_md5 :: md5hash_t
  d_md5Context :: md5Context_t
  d_progress_interval :: u32
  d_nextProgressReport :: u32
  d_last_chunk_id :: int

text \<open>The members of \<open>dev_info_t\<close> that a version reply copies.\<close>

record dev_info =
  di_hardwareType :: u8
  di_serialNumber :: u32
  di_hardwareVer :: u32
  di_firmwareVer :: u32
  di_buildNumber :: u32
  di_buildType :: u8
  di_buildYear :: u8
  di_buildMonth :: u8
  di_buildDay :: u8
  di_buildHour :: u8
  di_buildMinute :: u8
  di_buildSecond :: u8
  di_buildMillisecond :: u8

definition dev_info_FF :: dev_info where
  "dev_info_FF = \<lparr>di_hardwareType = 0xFF, di_serialNumber = 0xFFFFFFFF,
     di_hardwareVer = 0xFFFFFFFF, di_firmwareVer = 0xFFFFFFFF, di_buildNumber = 0xFFFFFFFF,
     di_buildType = 0xFF, di_buildYear = 0xFF, di_buildMonth = 0xFF, di_buildDay = 0xFF,
     di_buildHour = 0xFF, di_buildMinute = 0xFF, di_buildSecond = 0xFF,
     di_buildMillisecond = 0xFF\<rparr>"

record 's dev_app =
  a_writeToWire :: "u32 \<Rightarrow> u8 list \<Rightarrow> int \<Rightarrow> 's \<Rightarrow> bool \<times> 's"
  a_performReset :: "u32 \<Rightarrow> u16 \<Rightarrow> 's \<Rightarrow> int \<times> 's"
  a_queryVersionInfo :: "u32 \<Rightarrow> 's \<Rightarrow> (bool \<times> dev_info) \<times> 's"
  a_startUpdate :: "fw_dev \<Rightarrow> payload_t \<Rightarrow> 's \<Rightarrow> int \<times> 's"
  a_writeImageChunk :: "fw_dev \<Rightarrow> u32 \<Rightarrow> u8 \<Rightarrow> nat \<Rightarrow> u8 list \<Rightarrow> 's \<Rightarrow> int \<times> 's"
  a_finishUpdate :: "fw_dev \<Rightarrow> u32 \<Rightarrow> u8 \<Rightarrow> u8 \<Rightarrow> 's \<Rightarrow> int \<times> 's"
  a_step :: "u32 \<Rightarrow> bool \<Rightarrow> 's \<Rightarrow> bool \<times> 's"
  a_current_timeMs :: "'s \<Rightarrow> u32 \<times> 's"

text \<open>Stack bytes that a reply carries uninitialised: the members of a reset response, and
  \<open>reserved\<close> and \<open>buildHash\<close> of a version response.\<close>

record stack_junk =
  j_target :: u32
  j_status :: u16
  j_reserved :: u8
  j_buildHash :: u32

type_synonym 's dev_world = "fw_dev \<times> 's"
type_synonym 's dev_result = "(bool \<times> 's dev_world) option"

definition fwUpdate_sendPayload_dev ::
  "'s dev_app \<Rightarrow> payload_t \<Rightarrow> u8 list option \<Rightarrow> 's dev_world \<Rightarrow> 's dev_result" where
  "fwUpdate_sendPayload_dev app p aux_data w =
     (case w of (d, s) \<Rightarrow>
      do {
        (payload_len, buf) \<leftarrow>
          fwUpdate_packPayload (d_build_buffer d) (int FWUPDATE_MAX_PAYLOAD_SIZE) p aux_data;
        let (r, s) = a_writeToWire app (target_device p) buf payload_len s;
        Some (r, d\<lparr>d_build_buffer := buf\<rparr>, s)
      })"

definition fwUpdate_resetEngine_dev :: "fw_dev \<Rightarrow> fw_dev" where
  "fwUpdate_resetEngine_dev d =
     d\<lparr>d_resend_count := 0, d_session_id := 0, d_last_chunk_id := -1,
       d_session_status := NOT_STARTED, d_md5Context := md5_init (d_md5Context d)\<rparr>"

text \<open>The member initialisers of the classes, then the constructor. The buffer and the
  MD5 context start as the object's memory holds them: the context is value-initialised.\<close>

definition FirmwareUpdateDevice :: "u8 list \<Rightarrow> u32 \<Rightarrow> fw_dev" where
  "FirmwareUpdateDevice buf tid =
     fwUpdate_resetEngine_dev
       \<lparr>d_build_buffer = buf, d_last_message = 0, d_timeout_duration = 20000,
        d_resend_count = 0, d_session_target = tid, d_session_status = NOT_STARTED,
        d_session_id = 0, d_session_chunk_size = 0, d_session_total_chunks = 0,
        d_session_image_size = 0, d_session_progress_rate = 250, d_session_image_slot = 0,
        d_session_image_flags = 0, d_session_md5 = Md5Hash 0 0 0 0,
        d_md5Context = \<lparr>md5_state = Md5Hash 0 0 0 0, md5_count0 = 0, md5_count1 = 0,
                        md5_buffer = replicate 64 0\<rparr>,
        d_progress_interval = 500, d_nextProgressReport = 0, d_last_chunk_id = -1\<rparr>"

text \<open>\<open>message\<close> is the formatted text, \<open>None\<close> for a null pointer.\<close>

definition fwUpdate_sendProgressFormatted ::
  "'s dev_app \<Rightarrow> int \<Rightarrow> u8 list option \<Rightarrow> 's dev_world \<Rightarrow> 's dev_result" where
  "fwUpdate_sendProgressFormatted app level message w =
     (case w of (d, s) \<Rightarrow>
      let text = (case message of None \<Rightarrow> [] | Some t \<Rightarrow> t);
          total = int (unat (d_session_total_chunks d))
      in if d_session_id d = 0 \<or> d_session_status d = NOT_STARTED then Some (False, w)
         else if length text \<ge> 255 then Some (False, w)
         else do {
           let msg = \<lparr>target_device = TARGET_HOST,
             data = UPDATE_PROGRESS
               \<lparr>pr_session_id = d_session_id d, pr_status = d_session_status d,
                pr_num_chunks = of_int (max 0 (min total (d_last_chunk_id d + 1))),
                pr_totl_chunks = d_session_total_chunks d, pr_msg_level = of_int level,
                pr_msg_len = of_nat (length text)\<rparr>\<rparr>;
           (msg_len, buf) \<leftarrow>
             fwUpdate_packPayload (d_build_buffer d) (int (length (d_build_buffer d))) msg
               (Some text);
           let (r, s) = a_writeToWire app TARGET_HOST buf msg_len s;
           Some (r, d\<lparr>d_build_buffer := buf\<rparr>, s)
         })"

definition fwUpdate_sendProgress :: "'s dev_app \<Rightarrow> 's dev_world \<Rightarrow> 's dev_result" where
  "fwUpdate_sendProgress app w =
     (case w of (d, s) \<Rightarrow>
      let (now, s) = a_current_timeMs app s
      in fwUpdate_sendProgressFormatted app 99 None
           (d\<lparr>d_nextProgressReport := now + d_progress_interval d\<rparr>, s))"

definition fwUpdate_sendProgressMsg ::
  "'s dev_app \<Rightarrow> int \<Rightarrow> u8 list \<Rightarrow> 's dev_world \<Rightarrow> 's dev_result" where
  "fwUpdate_sendProgressMsg app level message w =
     fwUpdate_sendProgressFormatted app level (Some message) w"

definition fwUpdate_isUpdating_dev :: "fw_dev \<Rightarrow> bool" where
  "fwUpdate_isUpdating_dev d \<longleftrightarrow> d_session_id d \<noteq> 0 \<and> d_session_status d > NOT_STARTED"

definition fwUpdate_sendDone ::
  "'s dev_app \<Rightarrow> int \<Rightarrow> bool \<Rightarrow> bool \<Rightarrow> 's dev_world \<Rightarrow> 's dev_result" where
  "fwUpdate_sendDone app reason clear_session reset_device w =
     (case w of (d, s) \<Rightarrow>
      do {
        let response = \<lparr>target_device = TARGET_HOST, data = UPDATE_DONE (d_session_id d) reason\<rparr>;
        (_, d, s) \<leftarrow>
          fwUpdate_sendPayload_dev app response None (d\<lparr>d_session_status := reason\<rparr>, s);
        let (result, d) =
          (if clear_session then (True, fwUpdate_resetEngine_dev d) else (True, d));
        Some (if reset_device
              then let (r, s) = a_performReset app (d_session_target d) RESET_SOFT s
                   in (r \<noteq> 0, d, s)
              else (result, d, s))
      })"

definition fwUpdate_sendRetry :: "'s dev_app \<Rightarrow> int \<Rightarrow> 's dev_world \<Rightarrow> 's dev_result" where
  "fwUpdate_sendRetry app reason w =
     fwUpdate_sendPayload_dev app
       \<lparr>target_device = TARGET_HOST,
        data = REQ_RESEND_CHUNK (d_session_id (fst w)) (of_int (d_last_chunk_id (fst w) + 1))
                 reason\<rparr>
       None w"

definition fwUpdate_handleInitialize ::
  "'s dev_app \<Rightarrow> payload_t \<Rightarrow> 's dev_world \<Rightarrow> 's dev_result" where
  "fwUpdate_handleInitialize app payload w =
     (case (data payload, w) of
        (REQ_UPDATE r, d, s) \<Rightarrow>
          do {
            let d = (if ru_session_id r = 0 then d\<lparr>d_session_status := ERR_INVALID_SESSION\<rparr>
                     else d);
            let d = fwUpdate_resetEngine_dev d;
            let (status, s) = a_startUpdate app d payload s;
            let d = d\<lparr>d_session_status := status, d_session_id := ru_session_id r,
                      d_session_image_size := ru_file_size r,
                      d_session_chunk_size := ru_chunk_size r\<rparr>;
            d \<leftarrow> (if status > NOT_STARTED
                  then do {
                    n \<leftarrow> chunk_count (d_session_image_size d) (d_session_chunk_size d);
                    Some (d\<lparr>d_session_image_slot := ru_image_slot r,
                            d_session_image_flags := ru_image_flags r,
                            d_session_total_chunks := n, d_session_md5 := ru_md5_hash r\<rparr>) }
                  else Some d);
            fwUpdate_sendPayload_dev app
              \<lparr>target_device = TARGET_HOST,
               data = UPDATE_RESP (d_session_id d) (d_session_total_chunks d)
                        (d_session_status d)\<rparr> None (d, s)
          }
      | _ \<Rightarrow> Some (False, w))"

text \<open>The end of \<open>fwUpdate_handleChunk\<close>, once the last chunk is in.\<close>

definition fwUpdate_chunk_complete :: "'s dev_app \<Rightarrow> 's dev_world \<Rightarrow> 's dev_result" where
  "fwUpdate_chunk_complete app w =
     do {
       (_, d, s) \<leftarrow> fwUpdate_sendProgress app w;
       (ctx, md5) \<leftarrow> md5_final (d_md5Context d);
       let d = d\<lparr>d_md5Context := ctx\<rparr>;
       let (status, s) =
         (if hash_bytes (d_session_md5 d) \<noteq> hash_bytes md5 then (ERR_CHECKSUM_MISMATCH, s)
          else a_finishUpdate app d (d_session_target d) (d_session_image_slot d)
                 (d_session_image_flags d) s);
       let d = d\<lparr>d_session_status := status\<rparr>;
       if status \<noteq> FINALIZING
       then do { (_, w) \<leftarrow> fwUpdate_sendDone app status False False (d, s); Some (True, w) }
       else Some (True, d, s)
     }"

definition expected_size :: "u32 \<Rightarrow> u16 \<Rightarrow> u16 \<Rightarrow> u16 \<Rightarrow> u16" where
  "expected_size image_size chunk_size total_chunks chunk_id =
     (let mod_size = of_nat (unat image_size mod unat chunk_size) :: u16
      in if unat chunk_id + 1 = unat total_chunks \<and> mod_size \<noteq> 0
         then mod_size else chunk_size)"

definition fwUpdate_handleChunk ::
  "'s dev_app \<Rightarrow> payload_t \<Rightarrow> u8 list \<Rightarrow> 's dev_world \<Rightarrow> 's dev_result" where
  "fwUpdate_handleChunk app payload aux w =
     (case (data payload, w) of
        (UPDATE_CHUNK sid cid len, d, s) \<Rightarrow>
          if sid \<noteq> d_session_id d then Some (False, w)
          else if cid \<noteq> of_int (d_last_chunk_id d + 1)
          then do { (_, w) \<leftarrow> fwUpdate_sendRetry app REASON_INVALID_SEQID w; Some (False, w) }
          else if d_session_chunk_size d = 0 then None
          else if len \<noteq> expected_size (d_session_image_size d) (d_session_chunk_size d)
                          (d_session_total_chunks d) cid
          then do { (_, w) \<leftarrow> fwUpdate_sendRetry app REASON_INVALID_SIZE w; Some (False, w) }
          else if unat cid * unat (d_session_chunk_size d) \<ge> 2 ^ 31 then None
          else do {
            dat \<leftarrow> obj_rd aux 0 (int (unat len));
            let (r, s) = a_writeImageChunk app d (target_device payload)
              (d_session_image_slot d) (unat cid * unat (d_session_chunk_size d)) dat s;
            if r < NOT_STARTED
            then do { (_, w) \<leftarrow> fwUpdate_sendRetry app REASON_WRITE_ERROR (d, s);
                      Some (False, w) }
            else do {
              ctx \<leftarrow> md5_update (d_md5Context d) dat;
              let d = d\<lparr>d_session_status := IN_PROGRESS, d_last_chunk_id := int (unat cid),
                        d_md5Context := ctx\<rparr>;
              if d_last_chunk_id d \<ge> int (unat (d_session_total_chunks d)) - 1
              then fwUpdate_chunk_complete app (d, s)
              else Some (True, d, s)
            }
          }
      | _ \<Rightarrow> Some (False, w))"

definition fwUpdate_handleReset ::
  "'s dev_app \<Rightarrow> stack_junk \<Rightarrow> payload_t \<Rightarrow> 's dev_world \<Rightarrow> 's dev_result" where
  "fwUpdate_handleReset app junk payload w =
     (case data payload of
        REQ_RESET flags \<Rightarrow>
          do {
            (_, d, s) \<leftarrow> fwUpdate_sendPayload_dev app
              \<lparr>target_device = TARGET_HOST, data = RESET_RESP (j_target junk) (j_status junk)\<rparr>
              None w;
            let (r, s) = a_performReset app (d_session_target d) flags s;
            Some (r \<noteq> 0, d, s)
          }
      | _ \<Rightarrow> Some (False, w))"

definition fwUpdate_handleVersionInfo ::
  "'s dev_app \<Rightarrow> stack_junk \<Rightarrow> payload_t \<Rightarrow> 's dev_world \<Rightarrow> 's dev_result" where
  "fwUpdate_handleVersionInfo app junk payload w =
     (case (data payload, w) of
        (REQ_VERSION_INFO _, d, s) \<Rightarrow>
          let ((ok, devInfo), s) = a_queryVersionInfo app (target_device payload) s;
              i = (if ok then devInfo else dev_info_FF)
          in fwUpdate_sendPayload_dev app
               \<lparr>target_device = TARGET_HOST,
                data = VERSION_INFO_RESP
                  \<lparr>vr_resTarget = target_device payload, vr_serialNumber = di_serialNumber i,
                   vr_reserved = j_reserved junk, vr_hardwareType = di_hardwareType i,
                   vr_hardwareVer = di_hardwareVer i, vr_firmwareVer = di_firmwareVer i,
                   vr_buildHash = j_buildHash junk, vr_buildNumber = di_buildNumber i,
                   vr_buildType = di_buildType i, vr_buildYear = di_buildYear i,
                   vr_buildMonth = di_buildMonth i, vr_buildDay = di_buildDay i,
                   vr_buildHour = di_buildHour i, vr_buildMinute = di_buildMinute i,
                   vr_buildSecond = di_buildSecond i, vr_buildMillis = di_buildMillisecond i\<rparr>\<rparr>
               None (d, s)
      | _ \<Rightarrow> Some (False, w))"

definition fwUpdate_dispatch_dev ::
  "'s dev_app \<Rightarrow> stack_junk \<Rightarrow> payload_t \<Rightarrow> u8 list \<Rightarrow> 's dev_world \<Rightarrow> 's dev_result" where
  "fwUpdate_dispatch_dev app junk payload aux w =
     (case data payload of
        REQ_UPDATE _ \<Rightarrow> fwUpdate_handleInitialize app payload w
      | UPDATE_CHUNK _ _ _ \<Rightarrow> fwUpdate_handleChunk app payload aux w
      | REQ_RESET _ \<Rightarrow> fwUpdate_handleReset app junk payload w
      | REQ_VERSION_INFO _ \<Rightarrow> fwUpdate_handleVersionInfo app junk payload w
      | _ \<Rightarrow> Some (False, w))"

definition fwUpdate_processMessage_dev ::
  "'s dev_app \<Rightarrow> stack_junk \<Rightarrow> payload_t \<Rightarrow> u8 list \<Rightarrow> 's dev_world \<Rightarrow> 's dev_result" where
  "fwUpdate_processMessage_dev app junk payload aux w =
     (case w of (d, s) \<Rightarrow>
      if target_device payload \<noteq> d_session_target d then Some (False, w)
      else do {
        let (now, s) = a_current_timeMs app s;
        (result, d, s) \<leftarrow>
          fwUpdate_dispatch_dev app junk payload aux (d\<lparr>d_last_message := now\<rparr>, s);
        (d, s) \<leftarrow>
          (if d_progress_interval d > 0
           then let (now, s) = a_current_timeMs app s
                in if d_nextProgressReport d < now
                   then let (now, s) = a_current_timeMs app s
                        in do { (_, w) \<leftarrow> fwUpdate_sendProgress app
                                  (d\<lparr>d_nextProgressReport := now + d_progress_interval d\<rparr>, s);
                                Some w }
                   else Some (d, s)
           else Some (d, s));
        let (_, s) = a_step app (msg_type_of (data payload)) result s;
        Some (result, d, s)
      })"

definition fwUpdate_processBuffer_dev ::
  "'s dev_app \<Rightarrow> stack_junk \<Rightarrow> u8 list \<Rightarrow> 's dev_world \<Rightarrow> 's dev_result" where
  "fwUpdate_processBuffer_dev app junk buf w =
     do {
       (payload_len, payload, aux, _) \<leftarrow> fwUpdate_mapBufferToPayload buf;
       if payload_len \<le> 0 then Some (False, w)
       else fwUpdate_processMessage_dev app junk payload aux w
     }"

section \<open>Host\<close>

record fw_host =
  h_build_buffer :: "u8 list"
  h_last_message :: u32
  h_timeout_duration :: u32
  h_resend_count :: u32
  h_session_target :: u32
  h_session_status :: int
  h_session_id :: u16
  h_session_chunk_size :: u16
  h_session_total_chunks :: u16
  h_session_image_size :: u32
  h_session_progress_rate :: u16
  h_session_image_slot :: u8
  h_session_image_flags :: u8
  h_session_md5 :: md5hash_t
  h_md5Context :: md5Context_t
  h_next_chunk_id :: u16
  h_chunks_sent :: u16

definition FirmwareUpdateHost :: "u8 list \<Rightarrow> fw_host" where
  "FirmwareUpdateHost buf =
     \<lparr>h_build_buffer = buf, h_last_message = 0, h_timeout_duration = 20000,
      h_resend_count = 0, h_session_target = TARGET_HOST, h_session_status = NOT_STARTED,
      h_session_id = 0, h_session_chunk_size = 0, h_session_total_chunks = 0,
      h_session_image_size = 0, h_session_progress_rate = 250, h_session_image_slot = 0,
      h_session_image_flags = 0, h_session_md5 = Md5Hash 0 0 0 0,
      h_md5Context = \<lparr>md5_state = Md5Hash 0 0 0 0, md5_count0 = 0, md5_count1 = 0,
                      md5_buffer = replicate 64 0\<rparr>,
      h_next_chunk_id = 0, h_chunks_sent = 0\<rparr>"

type_synonym 's host_world = "fw_host \<times> 's"
type_synonym 's host_result = "(bool \<times> 's host_world) option"

text \<open>The wire, the image, the clock and the random numbers. \<open>b_getImageChunk\<close> returns its
  result and the bytes it wrote at the buffer it was given.\<close>

record 's host_io =
  b_writeToWire :: "u32 \<Rightarrow> u8 list \<Rightarrow> int \<Rightarrow> 's \<Rightarrow> bool \<times> 's"
  b_getImageChunk :: "fw_host \<Rightarrow> u32 \<Rightarrow> u32 \<Rightarrow> 's \<Rightarrow> (int \<times> u8 list) \<times> 's"
  b_current_timeMs :: "'s \<Rightarrow> u32 \<times> 's"
  b_rand :: "'s \<Rightarrow> u32 \<times> 's"

type_synonym 's host_handler = "payload_t \<Rightarrow> u8 list \<Rightarrow> 's host_world \<Rightarrow> 's host_result"

record 's host_handlers =
  c_handleVersionResponse :: "'s host_handler"
  c_handleUpdateResponse :: "'s host_handler"
  c_handleResendChunk :: "'s host_handler"
  c_handleUpdateProgress :: "'s host_handler"
  c_handleDone :: "'s host_handler"

definition fwUpdate_sendPayload_host ::
  "'s host_io \<Rightarrow> payload_t \<Rightarrow> u8 list option \<Rightarrow> 's host_world \<Rightarrow> 's host_result" where
  "fwUpdate_sendPayload_host io p aux_data w =
     (case w of (h, s) \<Rightarrow>
      do {
        (payload_len, buf) \<leftarrow>
          fwUpdate_packPayload (h_build_buffer h) (int FWUPDATE_MAX_PAYLOAD_SIZE) p aux_data;
        let (r, s) = b_writeToWire io (target_device p) buf payload_len s;
        Some (r, h\<lparr>h_build_buffer := buf\<rparr>, s)
      })"

definition fwUpdate_resetEngine_host :: "fw_host \<Rightarrow> fw_host" where
  "fwUpdate_resetEngine_host h =
     h\<lparr>h_resend_count := 0, h_session_status := NOT_STARTED, h_session_id := 0,
       h_session_chunk_size := 512, h_session_image_size := 0, h_session_image_slot := 0,
       h_next_chunk_id := 0, h_md5Context := md5_init (h_md5Context h)\<rparr>"

definition fwUpdate_isUpdating_host :: "fw_host \<Rightarrow> bool" where
  "fwUpdate_isUpdating_host h \<longleftrightarrow> h_session_status h \<ge> READY \<and> h_session_id h \<noteq> 0"

definition request_payload :: "fw_host \<Rightarrow> payload_t" where
  "request_payload h =
     \<lparr>target_device = h_session_target h,
      data = REQ_UPDATE
        \<lparr>ru_session_id = h_session_id h, ru_image_slot = h_session_image_slot h,
         ru_image_flags = h_session_image_flags h, ru_file_size = h_session_image_size h,
         ru_chunk_size = h_session_chunk_size h, ru_progress_rate = h_session_progress_rate h,
         ru_md5_hash = h_session_md5 h\<rparr>\<rparr>"

definition fwUpdate_requestUpdate ::
  "'s host_io \<Rightarrow> u32 \<Rightarrow> int \<Rightarrow> int \<Rightarrow> u16 \<Rightarrow> u32 \<Rightarrow> md5hash_t \<Rightarrow> int \<Rightarrow>
   's host_world \<Rightarrow> 's host_result" where
  "fwUpdate_requestUpdate io target_id image_slot image_flags chunk_size image_size image_md5
     progress_rate w =
     (case w of (h, s) \<Rightarrow>
      let h = fwUpdate_resetEngine_host h;
          (now, s) = b_current_timeMs io s;
          (rnd, s) = b_rand io s;
          h = h\<lparr>h_last_message := now, h_session_id := ucast rnd,
                h_session_status := NOT_STARTED, h_session_target := target_id,
                h_session_image_slot := of_int image_slot,
                h_session_image_flags := of_int image_flags,
                h_session_chunk_size := chunk_size, h_session_image_size := image_size,
                h_session_progress_rate := of_int progress_rate, h_session_md5 := image_md5\<rparr>
      in fwUpdate_sendPayload_host io (request_payload h) None (h, s))"

text \<open>The request sent again, while the session has not become ready.\<close>

definition fwUpdate_requestUpdate_again ::
  "'s host_io \<Rightarrow> 's host_world \<Rightarrow> 's host_result" where
  "fwUpdate_requestUpdate_again io w =
     (if h_session_status (fst w) \<ge> READY \<or> h_session_id (fst w) = 0 then Some (False, w)
      else fwUpdate_sendPayload_host io (request_payload (fst w)) None w)"

definition fwUpdate_requestReset ::
  "'s host_io \<Rightarrow> u32 \<Rightarrow> u16 \<Rightarrow> 's host_world \<Rightarrow> 's host_result" where
  "fwUpdate_requestReset io target reset_flags w =
     fwUpdate_sendPayload_host io
       \<lparr>target_device = target, data = REQ_RESET reset_flags\<rparr> None w"

text \<open>The one byte of the empty request structure is whatever the stack held.\<close>

definition fwUpdate_requestVersionInfo ::
  "'s host_io \<Rightarrow> u8 \<Rightarrow> u32 \<Rightarrow> 's host_world \<Rightarrow> 's host_result" where
  "fwUpdate_requestVersionInfo io junk target w =
     fwUpdate_sendPayload_host io
       \<lparr>target_device = target, data = REQ_VERSION_INFO junk\<rparr> None w"

text \<open>\<open>fwUpdate_sendNextChunk\<close> builds the message in place in the build buffer, whose size
  is not compared with the chunk size: what does not fit is written past its end. The
  multiplication of the chunk number and the chunk size is in \<open>int\<close>.\<close>

definition fwUpdate_sendNextChunk ::
  "'s host_io \<Rightarrow> 's host_world \<Rightarrow> (int \<times> 's host_world) option" where
  "fwUpdate_sendNextChunk io w =
     (case w of (h, s) \<Rightarrow>
      if h_next_chunk_id h \<ge> h_session_total_chunks h then Some (0, w)
      else if h_session_chunk_size h = 0 \<and>
              unat (h_next_chunk_id h) + 1 = unat (h_session_total_chunks h)
      then None
      else do {
        let cid = h_next_chunk_id h;
        let len = expected_size (h_session_image_size h) (h_session_chunk_size h)
                    (h_session_total_chunks h) cid;
        let msg = \<lparr>target_device = h_session_target h,
                   data = UPDATE_CHUNK (h_session_id h) cid len\<rparr>;
        buf \<leftarrow> obj_wr (h_build_buffer h) 0 (payload_bytes msg);
        let msg_len = int (payload_size_of msg + unat len);
        if unat cid * unat (h_session_chunk_size h) \<ge> 2 ^ 31 then None
        else do {
          let ((chunk_len, dat), s) =
            b_getImageChunk io h (of_nat (unat cid * unat (h_session_chunk_size h))) (ucast len) s;
          buf \<leftarrow> obj_wr buf (payload_size_of msg) dat;
          let h = h\<lparr>h_build_buffer := buf\<rparr>;
          let (h, s) =
            (if chunk_len = int (unat len)
             then let h = h\<lparr>h_chunks_sent := h_chunks_sent h + 1\<rparr>;
                      (ok, s) = b_writeToWire io (h_session_target h) buf msg_len s
                  in (if ok then h\<lparr>h_next_chunk_id := cid + 1\<rparr> else h, s)
             else (h, s));
          Some (int (unat (h_session_total_chunks h)) - int (unat (h_next_chunk_id h)), h, s)
        }
      })"

definition fwUpdate_processMessage_host ::
  "'s host_io \<Rightarrow> 's host_handlers \<Rightarrow> payload_t \<Rightarrow> u8 list \<Rightarrow> 's host_world \<Rightarrow> 's host_result"
  where
  "fwUpdate_processMessage_host io hs payload aux w =
     (case w of (h, s) \<Rightarrow>
      if target_device payload \<noteq> TARGET_HOST then Some (False, w)
      else
        let (now, s) = b_current_timeMs io s;
            h = h\<lparr>h_last_message := now\<rparr>
        in (case data payload of
              UPDATE_RESP sid _ _ \<Rightarrow>
                if sid = h_session_id h then c_handleUpdateResponse hs payload aux (h, s)
                else Some (False, h, s)
            | UPDATE_PROGRESS p \<Rightarrow>
                if pr_session_id p = h_session_id h
                then c_handleUpdateProgress hs payload aux (h, s)
                else Some (False, h, s)
            | REQ_RESEND_CHUNK sid cid _ \<Rightarrow>
                if sid = h_session_id h
                then c_handleResendChunk hs payload aux
                       (h\<lparr>h_resend_count :=
                           h_resend_count h +
                           of_int (int (unat (h_next_chunk_id h)) - int (unat cid)),
                          h_next_chunk_id := cid\<rparr>, s)
                else Some (False, h, s)
            | UPDATE_DONE sid status \<Rightarrow>
                if sid = h_session_id h
                then c_handleDone hs payload aux (h\<lparr>h_session_status := status\<rparr>, s)
                else Some (False, h, s)
            | VERSION_INFO_RESP _ \<Rightarrow> c_handleVersionResponse hs payload aux (h, s)
            | _ \<Rightarrow> Some (False, h, s)))"

definition fwUpdate_processBuffer_host ::
  "'s host_io \<Rightarrow> 's host_handlers \<Rightarrow> u8 list \<Rightarrow> 's host_world \<Rightarrow> 's host_result" where
  "fwUpdate_processBuffer_host io hs buf w =
     do {
       (msg_len, msg, aux, _) \<leftarrow> fwUpdate_mapBufferToPayload buf;
       if msg_len \<le> 0 then Some (False, w)
       else fwUpdate_processMessage_host io hs msg aux w
     }"

section \<open>The chunk count is the rounded-up quotient\<close>

lemma rne_div_exact: "0 < b \<Longrightarrow> b dvd a \<Longrightarrow> rne_div a b = a div b"
  by (simp add: rne_div_def)

lemma rne_div_bounds:
  assumes "0 < b"
  shows "2 * (rne_div a b * b) \<le> 2 * a + b" "2 * a \<le> 2 * (rne_div a b * b) + b"
proof -
  have a: "a = a div b * b + a mod b" and r: "a mod b < b" using assms by simp_all
  define q r where "q = a div b" and "r = a mod b"
  have *: "a = q * b + r" "r < b" using a r by (simp_all add: q_def r_def)
  have "rne_div a b = (if 2 * r < b \<or> (2 * r = b \<and> even q) then q else q + 1)"
    by (simp add: rne_div_def q_def r_def Let_def)
  then show "2 * (rne_div a b * b) \<le> 2 * a + b" "2 * a \<le> 2 * (rne_div a b * b) + b"
    using *(2) by (auto simp: *(1) add_mult_distrib)
qed

lemma floorlog_top:
  assumes "2 ^ 48 \<le> x"
  shows "2 ^ (floorlog 2 x - 24 + 23) \<le> x" "floorlog 2 x - 24 + 24 = floorlog 2 x"
proof -
  have "49 \<le> floorlog 2 x" using assms by (intro floorlog_geI) simp_all
  then have "floorlog 2 x - 24 + 23 = floorlog 2 x - 1" "floorlog 2 x - 24 + 24 = floorlog 2 x"
    by simp_all
  moreover have "0 < x" using assms by (rule less_le_trans [rotated]) simp
  ultimately show "2 ^ (floorlog 2 x - 24 + 23) \<le> x" "floorlog 2 x - 24 + 24 = floorlog 2 x"
    using floorlog_bounds [of x 2] by simp_all
qed

lemma ceil_mult: "0 < (k :: nat) \<Longrightarrow> (a * k + (k - 1)) div k = a"
  by (intro div_nat_eqI) (simp_all add: mult.commute [of k])

lemma float_div_ceil_exact:
  assumes n: "n < 2 ^ 24" and c: "0 < c" "c < 2 ^ 16"
  shows "float_div_ceil n c = (n + c - 1) div c"
proof (cases "n = 0")
  case True
  then show ?thesis using c by (simp add: float_div_ceil_def)
next
  case False
  define M :: nat where "M = 2 ^ 64"
  define x where "x = n * M div c"
  define e where "e = floorlog 2 x - 24"
  define v where "v = rne_div (n * M) (c * 2 ^ e) * 2 ^ e"
  have M: "0 < M" by (simp add: M_def)
  have eq: "float_div_ceil n c = (v + (M - 1)) div M"
    using False by (simp add: float_div_ceil_def x_def e_def v_def M_def Let_def)
  have x: "2 ^ 48 \<le> x"
  proof -
    have "c * 2 ^ 48 \<le> 2 ^ 16 * 2 ^ 48" using c by simp
    also have "\<dots> \<le> n * M" using False by (simp add: M_def)
    finally show ?thesis using c by (simp add: x_def less_eq_div_iff_mult_less_eq mult.commute)
  qed
  note fl = floorlog_top [OF x, folded e_def]
  have "c * x \<le> n * M" by (simp add: x_def mult.commute)
  then have "c * 2 ^ (e + 23) \<le> n * M" using fl(1) by (meson le_trans mult_le_mono2)
  also have "n * M < 2 ^ 24 * M" using n M by simp
  finally have w: "c * 2 ^ e < 2 * M" by (simp add: power_add)
  have vc: "v * c = rne_div (n * M) (c * 2 ^ e) * (c * 2 ^ e)" by (simp add: v_def)
  have b: "2 * (v * c) < 2 * (n * M) + 2 * M" "2 * (n * M) < 2 * (v * c) + 2 * M"
    using rne_div_bounds [of "c * 2 ^ e" "n * M"] c w unfolding vc by simp_all
  define a r where "a = n div c" and "r = n mod c"
  have nr: "n = a * c + r" "r < c" using c by (simp_all add: a_def r_def)
  show ?thesis
  proof (cases "r = 0")
    case True
    have "x = a * M" using nr True c by (simp add: x_def mult.assoc mult.left_commute [of a c])
    moreover have "0 < a" using False nr True by (cases a) simp_all
    ultimately have "floorlog 2 x = floorlog 2 a + 64"
      using floorlog_power [of a 2 64] by (simp only: M_def)
    moreover have "a < 2 ^ 24" using n nr True c by (metis add.right_neutral a_def div_le_dividend le_less_trans)
    then have "floorlog 2 a \<le> 24" by (intro floorlog_leI) simp_all
    ultimately have "e \<le> 64" by (simp add: e_def)
    then have "2 ^ e dvd M" unfolding M_def by (rule le_imp_power_dvd)
    then have d: "c * 2 ^ e dvd n * M" using nr True by (simp add: mult_dvd_mono)
    have "v * c = n * M" using d c by (simp only: vc rne_div_exact dvd_div_mult_self) (simp add: rne_div_exact)
    then have "v = a * M" using nr True c by simp
    then show ?thesis using eq M nr True c ceil_mult [of M a] ceil_mult [of c a] by simp
  next
    case False
    have "v * c < (a + 1) * M * c" 
    proof -
      have "v * c < (n + 1) * M" using b(1) by simp
      also have "n + 1 \<le> (a + 1) * c" using nr by simp
      then have "(n + 1) * M \<le> (a + 1) * c * M" by (rule mult_le_mono1)
      finally show ?thesis by (simp only: ac_simps)
    qed
    then have "v < (a + 1) * M" by (simp only: mult_less_cancel2)
    moreover have "a * M * c < v * c"
    proof -
      have "a * c * M \<le> (n - 1) * M" using nr False by (intro mult_le_mono1) simp
      also have "0 < n" using nr False by simp
      then have "(n - 1) * M + M = n * M" by (cases n) simp_all
      then have "(n - 1) * M < v * c" using b(2) by linarith
      finally show ?thesis by (simp add: ac_simps)
    qed
    then have "a * M < v" by (simp only: mult_less_cancel2)
    ultimately have "(v + (M - 1)) div M = a + 1"
      using M by (intro div_nat_eqI) (simp_all add: algebra_simps)
    moreover have "(n + c - 1) div c = a + 1"
      using nr False by (intro div_nat_eqI) (simp_all add: algebra_simps)
    ultimately show ?thesis using eq by simp
  qed
qed

lemma chunk_count_exact:
  assumes "unat sz < 2 ^ 24" "chunk \<noteq> 0" "(unat sz + unat chunk - 1) div unat chunk < 2 ^ 16"
  shows "chunk_count sz chunk = Some (of_nat ((unat sz + unat chunk - 1) div unat chunk))"
proof -
  have c: "0 < unat chunk" "unat chunk < 2 ^ 16"
    using assms(2) unsigned_less [of chunk, where ?'a = nat] by (simp_all add: unat_gt_0)
  show ?thesis
    using assms float_div_ceil_exact [OF assms(1) c]
    by (simp add: chunk_count_def float_of_u32_def Let_def)
qed

lemma chunk_count_big: "chunk_count (2 ^ 24 + 1) 512 = Some 32768"
  by (simp add: chunk_count_def float_of_u32_def float_div_ceil_def rne_div_def compute_floorlog)

text \<open>C34: The number of chunks a device announces. The device computes it with a \<open>float\<close> quotient
  and \<open>ceil\<close>; for every file shorter than \<open>2 ^ 24\<close> bytes and every chunk size for which the
  result fits 16 bits, the result is the integer quotient rounded up, in spite of the rounding
  of the division. The bound is needed: for \<open>2 ^ 24 + 1\<close> bytes in chunks of 512 the count is one
  too small.\<close>

theorem chunk_count_correct:
  assumes "unat sz < 2 ^ 24" "chunk \<noteq> 0" "(unat sz + unat chunk - 1) div unat chunk < 2 ^ 16"
  shows "chunk_count sz chunk = Some (of_nat ((unat sz + unat chunk - 1) div unat chunk)) \<and>
    chunk_count (2 ^ 24 + 1) 512 = Some 32768 \<and> (2 ^ 24 + 1 + 512 - 1) div 512 = (32769 :: nat)"
  using chunk_count_exact [OF assms] chunk_count_big by simp

theorem chunk_count_correct_witness: "chunk_count 1025 512 = Some 3"
  using chunk_count_correct [of 1025 512] by simp

end
