(* ===== verification/FwDevice.thy ===== *)
theory FwDevice
  imports FwUpdate
begin

text \<open>
  Safety of \<open>FirmwareUpdateDevice\<close> (\<open>src/src/protocol/FirmwareUpdate.cpp\<close>) under every
  sequence of received buffers: lost, repeated, reordered, from another session, or not
  produced by a host at all.

  The application is arbitrary; \<open>log_app\<close> runs it and records each start, flash write and
  finish. The invariant relates the log to the members of the device: the chunks written
  since an accepted request are consecutive, and the MD5 context stands for their
  concatenation until the last one is in.
\<close>

section \<open>The log of an application\<close>

datatype fw_event =
    EvStart req_update_t int
  | EvWrite nat "u8 list" int
  | EvFinish int

definition log_app :: "'s dev_app \<Rightarrow> ('s \<times> fw_event list) dev_app" where
  "log_app app =
     \<lparr>a_writeToWire = (\<lambda>t b n (s, l). let (r, s) = a_writeToWire app t b n s in (r, s, l)),
      a_performReset = (\<lambda>t f (s, l). let (r, s) = a_performReset app t f s in (r, s, l)),
      a_queryVersionInfo = (\<lambda>t (s, l). let (r, s) = a_queryVersionInfo app t s in (r, s, l)),
      a_startUpdate = (\<lambda>d p (s, l).
        let (r, s) = a_startUpdate app d p s
        in (r, s, case data p of REQ_UPDATE q \<Rightarrow> EvStart q r # l | _ \<Rightarrow> l)),
      a_writeImageChunk = (\<lambda>d t sl off dat (s, l).
        let (r, s) = a_writeImageChunk app d t sl off dat s in (r, s, EvWrite off dat r # l)),
      a_finishUpdate = (\<lambda>d t sl f (s, l).
        let (r, s) = a_finishUpdate app d t sl f s in (r, s, EvFinish r # l)),
      a_step = (\<lambda>t b (s, l). let (r, s) = a_step app t b s in (r, s, l)),
      a_current_timeMs = (\<lambda>(s, l). let (r, s) = a_current_timeMs app s in (r, s, l))\<rparr>"

fun session_req :: "fw_event list \<Rightarrow> req_update_t option" where
  "session_req [] = None"
| "session_req (EvStart q r # l) = (if r > NOT_STARTED then Some q else None)"
| "session_req (_ # l) = session_req l"

fun writes :: "fw_event list \<Rightarrow> (nat \<times> u8 list) list" where
  "writes [] = []"
| "writes (EvStart _ _ # l) = []"
| "writes (EvWrite off dat r # l) = (if r < NOT_STARTED then writes l else writes l @ [(off, dat)])"
| "writes (EvFinish _ # l) = writes l"

definition image_of :: "fw_event list \<Rightarrow> u8 list" where
  "image_of l = concat (map snd (writes l))"

definition chunks_of :: "req_update_t \<Rightarrow> nat" where
  "chunks_of q = (case chunk_count (ru_file_size q) (ru_chunk_size q) of
     Some n \<Rightarrow> max 1 (unat n) | None \<Rightarrow> 0)"

definition chunk_len :: "req_update_t \<Rightarrow> nat \<Rightarrow> nat" where
  "chunk_len q i = (case chunk_count (ru_file_size q) (ru_chunk_size q) of
     Some n \<Rightarrow> unat (expected_size (ru_file_size q) (ru_chunk_size q) n (of_nat i)) | None \<Rightarrow> 0)"

fun safe_event :: "fw_event \<Rightarrow> fw_event list \<Rightarrow> req_update_t \<Rightarrow> bool" where
  "safe_event (EvStart _ _) l q = True"
| "safe_event (EvWrite off dat r) l q =
     (length (writes l) < chunks_of q \<longrightarrow>
        off = length (writes l) * unat (ru_chunk_size q) \<and>
        length dat = chunk_len q (length (writes l)))"
| "safe_event (EvFinish r) l q =
     (chunks_of q \<le> length (writes l) \<and>
      (length (writes l) = chunks_of q \<longrightarrow> md5_spec (image_of l) = ru_md5_hash q))"

fun safe_log :: "fw_event list \<Rightarrow> bool" where
  "safe_log [] = True"
| "safe_log (e # l) \<longleftrightarrow>
     safe_log l \<and> (case session_req l of None \<Rightarrow> True | Some q \<Rightarrow> safe_event e l q)"

definition session_inv :: "fw_dev \<Rightarrow> fw_event list \<Rightarrow> req_update_t \<Rightarrow> bool" where
  "session_inv d l q \<longleftrightarrow>
     d_session_chunk_size d = ru_chunk_size q \<and> d_session_image_size d = ru_file_size q \<and>
     d_session_md5 d = ru_md5_hash q \<and>
     chunk_count (ru_file_size q) (ru_chunk_size q) = Some (d_session_total_chunks d) \<and>
     (length (writes l) < chunks_of q \<longrightarrow>
        d_last_chunk_id d = int (length (writes l)) - 1 \<and> md5_rep (d_md5Context d) (image_of l))"

definition dev_inv :: "fw_dev \<Rightarrow> fw_event list \<Rightarrow> bool" where
  "dev_inv d l \<longleftrightarrow> length (md5_buffer (d_md5Context d)) = 64 \<and> safe_log l \<and>
     (case session_req l of None \<Rightarrow> True | Some q \<Rightarrow> session_inv d l q)"

text \<open>The members that the protocol's bookkeeping never touches.\<close>

definition dev_core where
  "dev_core d = (d_session_id d, d_session_chunk_size d, d_session_image_size d, d_session_md5 d,
     d_session_total_chunks d, d_last_chunk_id d, d_md5Context d, d_session_target d,
     d_session_image_slot d, d_session_image_flags d)"

lemma dev_inv_core: "dev_core d' = dev_core d \<Longrightarrow> dev_inv d' l = dev_inv d l"
  by (simp add: dev_core_def dev_inv_def session_inv_def split: option.split)

lemma log_app_simps [simp]:
  "a_writeToWire (log_app app) t b n (s, l) = (let (r, s) = a_writeToWire app t b n s in (r, s, l))"
  "a_performReset (log_app app) t f (s, l) = (let (r, s) = a_performReset app t f s in (r, s, l))"
  "a_queryVersionInfo (log_app app) t (s, l) =
     (let (q, s) = a_queryVersionInfo app t s in (q, s, l))"
  "a_startUpdate (log_app app) d p (s, l) =
     (let (r, s) = a_startUpdate app d p s
      in (r, s, case data p of REQ_UPDATE q \<Rightarrow> EvStart q r # l | _ \<Rightarrow> l))"
  "a_writeImageChunk (log_app app) d t sl off dat (s, l) =
     (let (r, s) = a_writeImageChunk app d t sl off dat s in (r, s, EvWrite off dat r # l))"
  "a_finishUpdate (log_app app) d t sl g (s, l) =
     (let (r, s) = a_finishUpdate app d t sl g s in (r, s, EvFinish r # l))"
  "a_step (log_app app) m b' (s, l) = (let (r, s) = a_step app m b' s in (r, s, l))"
  "a_current_timeMs (log_app app) (s, l) = (let (now, s) = a_current_timeMs app s in (now, s, l))"
  by (simp_all add: log_app_def)

definition silent :: "fw_dev \<Rightarrow> fw_event list \<Rightarrow> fw_dev \<Rightarrow> fw_event list \<Rightarrow> bool" where
  "silent d l d' l' \<longleftrightarrow> dev_core d' = dev_core d \<and> l' = l"

lemma sendPayload_dev_core:
  "fwUpdate_sendPayload_dev (log_app app) p aux (d, s, l) = Some (r, d', s', l') \<Longrightarrow>
   silent d l d' l'"
  by (auto simp: fwUpdate_sendPayload_dev_def silent_def dev_core_def bind_eq_Some_conv
      split: prod.splits)

lemma sendRetry_core:
  "fwUpdate_sendRetry (log_app app) n (d, s, l) = Some (r, d', s', l') \<Longrightarrow> silent d l d' l'"
  by (auto simp: fwUpdate_sendRetry_def dest: sendPayload_dev_core)

lemma sendProgressFormatted_core:
  "fwUpdate_sendProgressFormatted (log_app app) n m (d, s, l) = Some (r, d', s', l') \<Longrightarrow>
   silent d l d' l'"
  by (auto simp: fwUpdate_sendProgressFormatted_def silent_def dev_core_def Let_def
      bind_eq_Some_conv split: prod.splits if_splits)

lemma sendProgress_core:
  "fwUpdate_sendProgress (log_app app) (d, s, l) = Some (r, d', s', l') \<Longrightarrow> silent d l d' l'"
  by (auto simp: fwUpdate_sendProgress_def split: prod.splits dest!: sendProgressFormatted_core)
     (auto simp: dev_core_def silent_def)

lemma sendDone_core:
  "fwUpdate_sendDone (log_app app) n False False (d, s, l) = Some (r, d', s', l') \<Longrightarrow>
   silent d l d' l'"
  by (auto simp: fwUpdate_sendDone_def bind_eq_Some_conv dest!: sendPayload_dev_core)
     (auto simp: dev_core_def silent_def)

lemma silent_inv: "silent d l d' l' \<Longrightarrow> dev_inv d l \<Longrightarrow> dev_inv d' l'"
  unfolding silent_def using dev_inv_core by blast

lemma start_inv:
  assumes "safe_log l" "length (md5_buffer (d_md5Context d)) = 64"
    "d_md5Context d = md5_init ctx" "d_last_chunk_id d = -1"
    "st > NOT_STARTED \<Longrightarrow> d_session_chunk_size d = ru_chunk_size q \<and>
       d_session_image_size d = ru_file_size q \<and> d_session_md5 d = ru_md5_hash q \<and>
       chunk_count (ru_file_size q) (ru_chunk_size q) = Some (d_session_total_chunks d)"
  shows "dev_inv d (EvStart q st # l)"
  using assms md5_init_rep [of "ctx"]
  by (auto simp: dev_inv_def session_inv_def image_of_def md5_init_def split: option.split)

lemma resetEngine_dev_sel [simp]:
  "d_md5Context (fwUpdate_resetEngine_dev d) = md5_init (d_md5Context d)"
  "d_last_chunk_id (fwUpdate_resetEngine_dev d) = -1"
  "fwUpdate_resetEngine_dev (d\<lparr>d_session_status := st\<rparr>) = fwUpdate_resetEngine_dev d"
  by (simp_all add: fwUpdate_resetEngine_dev_def)

lemma md5_init_buffer [simp]: "md5_buffer (md5_init ctx) = md5_buffer ctx"
  by (simp add: md5_init_def)

lemma handleInitialize_inv:
  assumes "fwUpdate_handleInitialize (log_app app) p (d, s, l) = Some (r, d', s', l')" "dev_inv d l"
  shows "dev_inv d' l'"
proof (cases "data p")
  case (REQ_UPDATE q)
  obtain st s1 where st: "a_startUpdate app (fwUpdate_resetEngine_dev d) p s = (st, s1)"
    by fastforce
  have r: "fwUpdate_resetEngine_dev
      (if ru_session_id q = 0 then d\<lparr>d_session_status := ERR_INVALID_SESSION\<rparr> else d) =
    fwUpdate_resetEngine_dev d" by simp
  show ?thesis using assms unfolding fwUpdate_handleInitialize_def REQ_UPDATE
    by (auto simp: r st REQ_UPDATE Let_def bind_eq_Some_conv dev_inv_def [of d l]
        split: if_splits
        dest!: sendPayload_dev_core elim!: silent_inv intro!: start_inv)
qed (use assms in \<open>auto simp: fwUpdate_handleInitialize_def\<close>)

lemma writes_image_step:
  "r \<ge> NOT_STARTED \<Longrightarrow> image_of (EvWrite off dat r # l) = image_of l @ dat"
  by (simp add: image_of_def)

lemma md5_update_buffer:
  assumes "md5_update ctx dat = Some ctx'" "length (md5_buffer ctx) = 64"
  shows "length (md5_buffer ctx') = 64"
  using assms
  by (auto simp: md5_update_def Let_def bind_eq_Some_conv dest!: obj_wr_length split: if_splits prod.splits)

lemma md5_final_buffer:
  assumes "md5_final ctx = Some (ctx', h)" "length (md5_buffer ctx) = 64"
  shows "length (md5_buffer ctx') = 64"
  using assms by (auto simp: md5_final_def Let_def bind_eq_Some_conv dest!: md5_update_buffer)

lemma hash_bytes_inject: "hash_bytes a = hash_bytes b \<longleftrightarrow> a = b"
  by (metis hash_bytes_inverse)

definition session_params :: "fw_dev \<Rightarrow> req_update_t \<Rightarrow> bool" where
  "session_params d q \<longleftrightarrow>
     d_session_chunk_size d = ru_chunk_size q \<and> d_session_image_size d = ru_file_size q \<and>
     d_session_md5 d = ru_md5_hash q \<and>
     chunk_count (ru_file_size q) (ru_chunk_size q) = Some (d_session_total_chunks d)"

text \<open>All chunks are in: the context may still stand for the image.\<close>

definition full_inv :: "fw_dev \<Rightarrow> fw_event list \<Rightarrow> bool" where
  "full_inv d l \<longleftrightarrow> length (md5_buffer (d_md5Context d)) = 64 \<and> safe_log l \<and>
     (case session_req l of None \<Rightarrow> True | Some q \<Rightarrow>
        session_params d q \<and> chunks_of q \<le> length (writes l) \<and>
        (length (writes l) = chunks_of q \<longrightarrow> md5_rep (d_md5Context d) (image_of l)))"

lemma full_inv_dev_inv: "full_inv d l \<Longrightarrow> dev_inv d l"
  by (auto simp: full_inv_def dev_inv_def session_inv_def session_params_def split: option.splits)

lemma full_inv_silent: "silent d l d' l' \<Longrightarrow> full_inv d l \<Longrightarrow> full_inv d' l'"
  by (auto simp: silent_def dev_core_def full_inv_def session_params_def split: option.splits)

lemma full_inv_final:
  assumes "full_inv d l" "md5_final (d_md5Context d) = Some (ctx, h)"
  shows "dev_inv (d\<lparr>d_md5Context := ctx, d_session_status := st\<rparr>) l"
    and "d_session_md5 d = h \<Longrightarrow> dev_inv (d\<lparr>d_md5Context := ctx, d_session_status := st\<rparr>) (EvFinish r # l)"
  using assms md5_final_buffer [OF assms(2)] md5_final_rep [of "d_md5Context d" "image_of l"]
  by (auto simp: full_inv_def dev_inv_def session_inv_def session_params_def split: option.splits)

lemma chunk_complete_inv:
  assumes run: "fwUpdate_chunk_complete (log_app app) (d, s, l) = Some (r, d', s', l')"
    and inv: "full_inv d l"
  shows "dev_inv d' l'"
proof -
  have cc: "dev_inv d2 l2"
    if "silent d l d1 l1" "md5_final (d_md5Context d1) = Some (ctx, h)"
      "silent (d1\<lparr>d_md5Context := ctx, d_session_status := st\<rparr>) l1' d2 l2"
      "l1' = l1 \<or> (d_session_md5 d1 = h \<and> l1' = EvFinish r' # l1)"
    for d1 l1 ctx h st l1' d2 l2 r'
    using that full_inv_final [OF full_inv_silent [OF that(1) inv] that(2)] silent_inv [OF that(3)]
    by auto
  have "silent d0 l0 d0 l0" for d0 l0 by (simp add: silent_def)
  then show ?thesis
    using run unfolding fwUpdate_chunk_complete_def
    by (auto simp: hash_bytes_inject Let_def bind_eq_Some_conv split: if_splits prod.splits
        dest!: sendProgress_core sendDone_core intro: cc)
qed

lemma chunks_of_total:
  "chunk_count (ru_file_size q) (ru_chunk_size q) = Some n \<Longrightarrow> chunks_of q = max 1 (unat n)"
  by (simp add: chunks_of_def)

lemma unat_u16_less: "unat (w :: u16) < 65536"
  using unsigned_less [of w, where ?'a = nat] by simp

text \<open>A write the device attempts in an open session.\<close>

lemma attempt_open:
  fixes cid :: u16
  assumes "session_inv d l q" "length (writes l) < chunks_of q"
    "cid = of_int (d_last_chunk_id d + 1)"
  shows "unat cid = length (writes l)"
proof -
  have n: "chunks_of q = max 1 (unat (d_session_total_chunks d))"
    using assms(1) by (simp add: session_inv_def chunks_of_total)
  have "cid = of_nat (length (writes l))"
    using assms by (simp add: session_inv_def)
  moreover have "length (writes l) < 2 ^ 16"
    using assms(2) n unat_u16_less [of "d_session_total_chunks d"] by simp
  ultimately show ?thesis by (simp add: unat_of_nat)
qed

lemma attempt_safe:
  assumes inv: "dev_inv d l" and cid: "cid = of_int (d_last_chunk_id d + 1)"
    and len: "length dat = unat (expected_size (d_session_image_size d) (d_session_chunk_size d)
               (d_session_total_chunks d) cid)"
  shows "safe_log (EvWrite (unat cid * unat (d_session_chunk_size d)) dat r # l)"
proof (cases "session_req l")
  case None
  then show ?thesis using inv by (simp add: dev_inv_def)
next
  case (Some q)
  then have s: "session_inv d l q" "safe_log l" using inv by (simp_all add: dev_inv_def)
  have p: "d_session_chunk_size d = ru_chunk_size q" "d_session_image_size d = ru_file_size q"
    "chunk_count (ru_file_size q) (ru_chunk_size q) = Some (d_session_total_chunks d)"
    using s(1) by (simp_all add: session_inv_def)
  have "length (writes l) < chunks_of q \<Longrightarrow> cid = of_nat (length (writes l))"
    using attempt_open [OF s(1) _ cid] by (metis of_nat_unat ucast_id)
  then show ?thesis
    using s(2) Some len p attempt_open [OF s(1) _ cid] by (auto simp: chunk_len_def)
qed

lemma attempt_failed:
  assumes "dev_inv d l" "safe_log (EvWrite off dat r # l)" "r < NOT_STARTED"
  shows "dev_inv d (EvWrite off dat r # l)"
  using assms by (simp add: dev_inv_def session_inv_def image_of_def split: option.splits)

lemma attempt_done:
  fixes cid :: u16
  assumes inv: "dev_inv d l" and cid: "cid = of_int (d_last_chunk_id d + 1)"
    and safe: "safe_log (EvWrite off dat r # l)" and r: "r \<ge> NOT_STARTED"
    and ctx: "md5_update (d_md5Context d) dat = Some ctx" and len: "length dat < 65536"
  defines "d' \<equiv> d\<lparr>d_session_status := IN_PROGRESS, d_last_chunk_id := int (unat cid),
                   d_md5Context := ctx\<rparr>"
  shows "int (unat (d_session_total_chunks d)) - 1 \<le> int (unat cid) \<Longrightarrow>
           full_inv d' (EvWrite off dat r # l)"
    and "int (unat cid) < int (unat (d_session_total_chunks d)) - 1 \<Longrightarrow>
           dev_inv d' (EvWrite off dat r # l)"
proof -
  have buf: "length (md5_buffer ctx) = 64"
    using md5_update_buffer [OF ctx] inv by (simp add: dev_inv_def)
  have img: "image_of (EvWrite off' dat r # l) = image_of l @ dat" for off'
    by (rule writes_image_step [OF r])
  have rep: "md5_rep ctx (image_of l @ dat)" if "md5_rep (d_md5Context d) (image_of l)"
    using md5_update_rep [OF that, of dat] ctx len by auto
  have *: "session_params d q" "chunks_of q = max 1 (unat (d_session_total_chunks d))"
    "length (writes l) < chunks_of q \<Longrightarrow> unat cid = length (writes l) \<and> md5_rep ctx (image_of l @ dat)"
    if "session_req l = Some q" for q
  proof -
    have s: "session_inv d l q" using inv that by (simp add: dev_inv_def)
    then show "session_params d q" "chunks_of q = max 1 (unat (d_session_total_chunks d))"
      by (simp_all add: session_inv_def session_params_def chunks_of_total)
    show "unat cid = length (writes l) \<and> md5_rep ctx (image_of l @ dat)"
      if "length (writes l) < chunks_of q"
      using that s rep attempt_open [OF s that cid] by (simp add: session_inv_def)
  qed
  show "full_inv d' (EvWrite off dat r # l)"
    if le: "int (unat (d_session_total_chunks d)) - 1 \<le> int (unat cid)"
  proof (cases "session_req l")
    case None
    then show ?thesis using safe buf by (simp add: full_inv_def d'_def)
  next
    case (Some q)
    have "unat (d_session_total_chunks d) \<le> Suc (unat cid)" using le by linarith
    then have "chunks_of q \<le> Suc (length (writes l))" using *(2,3) [OF Some] by linarith
    then show ?thesis
      using Some safe buf r img *(1,3) [OF Some]
      by (simp add: full_inv_def d'_def session_params_def)
  qed
  show "dev_inv d' (EvWrite off dat r # l)"
    if lt: "int (unat cid) < int (unat (d_session_total_chunks d)) - 1"
  proof (cases "session_req l")
    case None
    then show ?thesis using safe buf by (simp add: dev_inv_def d'_def)
  next
    case (Some q)
    have u: "length (writes l) < chunks_of q \<Longrightarrow> uint cid = int (length (writes l))"
      using *(3) [OF Some] by (metis of_nat_unat)
    then show ?thesis
      using Some safe buf r img *(1,3) [OF Some]
      by (auto simp: dev_inv_def session_inv_def d'_def session_params_def)
  qed
qed

lemma handleChunk_write_inv:
  fixes cid :: u16
  assumes inv: "dev_inv d l" and cid: "cid = of_int (d_last_chunk_id d + 1)"
    and len: "len = expected_size (d_session_image_size d) (d_session_chunk_size d)
               (d_session_total_chunks d) cid"
    and dat: "obj_rd aux 0 (int (unat len)) = Some dat"
    and run: "(if e < NOT_STARTED
       then do { (_, w) \<leftarrow> fwUpdate_sendRetry (log_app app) REASON_WRITE_ERROR
                   (d, s, EvWrite (unat cid * unat (d_session_chunk_size d)) dat e # l);
                 Some (False, w) }
       else do {
         ctx \<leftarrow> md5_update (d_md5Context d) dat;
         let d = d\<lparr>d_session_status := IN_PROGRESS, d_last_chunk_id := int (unat cid),
                   d_md5Context := ctx\<rparr>;
         if d_last_chunk_id d \<ge> int (unat (d_session_total_chunks d)) - 1
         then fwUpdate_chunk_complete (log_app app)
                (d, s, EvWrite (unat cid * unat (d_session_chunk_size d0)) dat e # l)
         else Some (True, d, s, EvWrite (unat cid * unat (d_session_chunk_size d0)) dat e # l)
       }) = Some (r, d', s', l')" and d0: "d0 = d"
  shows "dev_inv d' l'"
proof -
  let ?l = "EvWrite (unat cid * unat (d_session_chunk_size d)) dat e # l"
  have ld: "length dat = unat len" using dat by (auto simp: obj_rd_def split: if_splits)
  have safe: "safe_log ?l" using attempt_safe [OF inv cid] ld len by simp
  show ?thesis
  proof (cases "e < NOT_STARTED")
    case True
    then show ?thesis
      using run attempt_failed [OF inv safe True]
      by (auto simp: bind_eq_Some_conv dest!: sendRetry_core elim: silent_inv)
  next
    case False
    then obtain ctx where ctx: "md5_update (d_md5Context d) dat = Some ctx"
      using run by (auto simp: bind_eq_Some_conv)
    have "length dat < 65536" using ld unat_u16_less [of len] by simp
    note dn = attempt_done [OF inv cid safe _ ctx this]
    show ?thesis
      using run False ctx dn d0
      by (auto simp: Let_def not_le simp del: of_nat_unat split: if_splits
          dest!: chunk_complete_inv)
  qed
qed

lemma handleChunk_inv:
  assumes run: "fwUpdate_handleChunk (log_app app) p aux (d, s, l) = Some (r, d', s', l')"
    and inv: "dev_inv d l"
  shows "dev_inv d' l'"
proof (cases "data p")
  case (UPDATE_CHUNK sid cid len)
  let ?exp = "expected_size (d_session_image_size d) (d_session_chunk_size d)
               (d_session_total_chunks d) cid"
  note R = run [unfolded fwUpdate_handleChunk_def UPDATE_CHUNK msg_data_t.case prod.case]
  show ?thesis
  proof (cases "sid = d_session_id d \<and> cid = of_int (d_last_chunk_id d + 1) \<and>
      d_session_chunk_size d \<noteq> 0 \<and> len = ?exp")
    case False
    then show ?thesis
      using R inv
      by (auto simp: bind_eq_Some_conv split: if_splits dest!: sendRetry_core
          elim: silent_inv [OF _ inv])
  next
    case True
    then have sid: "d_session_id d = sid" and cid: "of_int (d_last_chunk_id d + 1) = cid"
      and ch: "d_session_chunk_size d \<noteq> 0" and len: "?exp = len" by simp_all
    note R' = R [unfolded sid cid len]
    obtain dat where dat: "obj_rd aux 0 (int (unat len)) = Some dat"
      using R' ch by (auto simp: bind_eq_Some_conv split: if_splits)
    obtain e s1 where "a_writeImageChunk app d (target_device p) (d_session_image_slot d)
        (unat cid * unat (d_session_chunk_size d)) dat s = (e, s1)" by fastforce
    then show ?thesis
      using ch R' dat
        handleChunk_write_inv [OF inv cid [symmetric] len [symmetric] dat, of e app s1 d r d' s' l']
      by (simp split: if_splits)
  qed
qed (use assms in \<open>auto simp: fwUpdate_handleChunk_def\<close>)

lemma handleReset_inv:
  assumes "fwUpdate_handleReset (log_app app) junk p (d, s, l) = Some (r, d', s', l')" "dev_inv d l"
  shows "dev_inv d' l'"
  using assms
  by (auto simp: fwUpdate_handleReset_def bind_eq_Some_conv split: msg_data_t.splits prod.splits
      dest!: sendPayload_dev_core) (blast intro: silent_inv)+

lemma handleVersionInfo_inv:
  assumes "fwUpdate_handleVersionInfo (log_app app) junk p (d, s, l) = Some (r, d', s', l')"
    "dev_inv d l"
  shows "dev_inv d' l'"
  using assms
  by (auto simp: fwUpdate_handleVersionInfo_def Let_def split: msg_data_t.splits prod.splits
      dest!: sendPayload_dev_core elim: silent_inv)

lemma dispatch_inv:
  assumes "fwUpdate_dispatch_dev (log_app app) junk p aux (d, s, l) = Some (r, d', s', l')"
    "dev_inv d l"
  shows "dev_inv d' l'"
  using assms
  by (auto simp: fwUpdate_dispatch_dev_def split: msg_data_t.splits
      dest!: handleInitialize_inv handleChunk_inv handleReset_inv handleVersionInfo_inv)

lemma dev_inv_times [simp]:
  "dev_inv (d\<lparr>d_last_message := t\<rparr>) l = dev_inv d l"
  "dev_inv (d\<lparr>d_nextProgressReport := t\<rparr>) l = dev_inv d l"
  by (rule dev_inv_core, simp add: dev_core_def)+

lemma processMessage_dev_inv:
  assumes run: "fwUpdate_processMessage_dev (log_app app) junk p aux (d, s, l) = Some (r, d', s', l')"
    and inv: "dev_inv d l"
  shows "dev_inv d' l'"
proof (cases "target_device p = d_session_target d")
  case True
  obtain now s0 where now: "a_current_timeMs app s = (now, s0)" by fastforce
  obtain r1 d1 s1 l1 where d1: "fwUpdate_dispatch_dev (log_app app) junk p aux
      (d\<lparr>d_last_message := now\<rparr>, s0, l) = Some (r1, d1, s1, l1)"
    using run True now
    by (auto simp: fwUpdate_processMessage_dev_def bind_eq_Some_conv)
  then have inv1: "dev_inv d1 l1" using dispatch_inv [OF d1] inv by simp
  show ?thesis
    using run True now d1 inv1
    by (auto simp: fwUpdate_processMessage_dev_def Let_def bind_eq_Some_conv
        split: if_splits prod.splits dest!: sendProgress_core dest: silent_inv)
qed (use assms in \<open>auto simp: fwUpdate_processMessage_dev_def\<close>)

inductive dev_reachable :: "'s dev_app \<Rightarrow> 's dev_world \<Rightarrow> 's dev_world \<Rightarrow> bool"
  for app :: "'s dev_app" and w0 :: "'s dev_world" where
  init: "dev_reachable app w0 w0"
| recv: "dev_reachable app w0 w \<Longrightarrow> fwUpdate_processBuffer_dev app junk buf w = Some (r, w') \<Longrightarrow>
     dev_reachable app w0 w'"

lemma FirmwareUpdateDevice_inv: "dev_inv (FirmwareUpdateDevice buf tid) []"
  by (simp add: dev_inv_def FirmwareUpdateDevice_def fwUpdate_resetEngine_dev_def md5_init_def)

lemma dev_reachable_inv:
  assumes "dev_reachable (log_app app) (FirmwareUpdateDevice buf tid, s0, []) w"
  shows "dev_inv (fst w) (snd (snd w))"
  using assms
proof induction
  case init
  show ?case by (simp add: FirmwareUpdateDevice_inv)
next
  case (recv w junk bs r w')
  then show ?case
    by (cases w; cases w')
       (auto simp: fwUpdate_processBuffer_dev_def bind_eq_Some_conv split: if_splits
         dest: processMessage_dev_inv)
qed

lemma safe_log_split:
  "safe_log (post @ e # pre) \<Longrightarrow> session_req pre = Some q \<Longrightarrow> safe_log pre \<and> safe_event e pre q"
  by (induction post) auto

lemma safe_log_writes:
  "safe_log l \<Longrightarrow> session_req l = Some q \<Longrightarrow> length (writes l) \<le> chunks_of q \<Longrightarrow>
   i < length (writes l) \<Longrightarrow>
   fst (writes l ! i) = i * unat (ru_chunk_size q) \<and> length (snd (writes l ! i)) = chunk_len q i"
proof (induction l rule: writes.induct)
  case (3 off dat r l)
  then show ?case
    by (cases "i = length (writes l)") (auto simp: nth_append split: if_splits)
qed auto

end
