(* ===== verification/FwHost.thy ===== *)
theory FwHost
  imports FwUpdate
begin

text \<open>
  The host of the SDK, \<open>src/src/ISFirmwareUpdater.cpp\<close>: the functions that
  \<open>FirmwareUpdateHost\<close> leaves to its subclass, the queue of commands as far as the protocol
  uses it, and the error handler.

  The clock, the random numbers, \<open>comManagerSendData\<close> on the device's port and the DFU
  updater are a record of functions on an external state \<open>'x\<close>. The source file is a file
  stream. The progress and status callbacks only report and are left out, and the text of
  an error is an argument. \<open>target_devInfo\<close> is null or points to \<open>remoteDevInfo\<close>, hence a
  truth value.
\<close>

section \<open>State\<close>

record 'x isfu =
  srcFile :: "istream option"
  last_resent_chunk :: u16
  resent_chunkid_count :: u16
  resent_chunkid_time :: u32
  chunkDelay :: u16
  nextChunkDelay :: u16
  nextChunkSend :: u32
  pauseUntil :: u32
  updateStartTime :: u32
  nextStartAttempt :: u32
  attemptInterval :: u16
  requestPending :: bool
  commands :: "string list"
  activeStep :: string
  failLabel :: string
  stepErrors :: "(string \<times> string \<times> string) list"
  fu_target :: u32
  remoteDevInfo :: dev_info
  target_devInfo :: bool
  ext :: 'x

record 'x isfu_env =
  e_current_timeMs :: "'x \<Rightarrow> u32 \<times> 'x"
  e_rand :: "'x \<Rightarrow> u32 \<times> 'x"
  e_sendData :: "u8 list \<Rightarrow> int \<Rightarrow> 'x \<Rightarrow> int \<times> 'x"
  e_dfu :: "(u8 list \<Rightarrow> int \<Rightarrow> 'x \<Rightarrow> bool \<times> 'x) option"

definition on_ext :: "('x \<Rightarrow> 'a \<times> 'x) \<Rightarrow> 'x isfu \<Rightarrow> 'a \<times> 'x isfu" where
  "on_ext f u = (let (r, x) = f (ext u) in (r, u\<lparr>ext := x\<rparr>))"

definition dev_info_zero :: dev_info where
  "dev_info_zero = \<lparr>di_hardwareType = 0, di_serialNumber = 0, di_hardwareVer = 0,
     di_firmwareVer = 0, di_buildNumber = 0, di_buildType = 0, di_buildYear = 0,
     di_buildMonth = 0, di_buildDay = 0, di_buildHour = 0, di_buildMinute = 0,
     di_buildSecond = 0, di_buildMillisecond = 0\<rparr>"

text \<open>The member initialisers; \<open>target\<close> has none.\<close>

definition ISFirmwareUpdater :: "u32 \<Rightarrow> 'x \<Rightarrow> 'x isfu" where
  "ISFirmwareUpdater junk x =
     \<lparr>srcFile = None, last_resent_chunk = 0, resent_chunkid_count = 0, resent_chunkid_time = 0,
      chunkDelay = 15, nextChunkDelay = 250, nextChunkSend = 0, pauseUntil = 0,
      updateStartTime = 0, nextStartAttempt = 0, attemptInterval = 350,
      requestPending = False, commands = [], activeStep = [], failLabel = [], stepErrors = [],
      fu_target = junk, remoteDevInfo = dev_info_zero, target_devInfo = False, ext = x\<rparr>"

section \<open>The image\<close>

text \<open>\<open>seekg\<close> of a file stream to an absolute position.\<close>

definition is_seekg :: "istream \<Rightarrow> nat \<Rightarrow> istream" where
  "is_seekg is n =
     (let is = is\<lparr>is_eof := False\<rparr> in if is_fail is then is else is\<lparr>is_pos := n\<rparr>)"

definition fwUpdate_getImageChunk ::
  "fw_host \<Rightarrow> u32 \<Rightarrow> u32 \<Rightarrow> 'x isfu \<Rightarrow> (int \<times> u8 list) \<times> 'x isfu" where
  "fwUpdate_getImageChunk h offset len u =
     (case srcFile u of
        Some is \<Rightarrow>
          if is_good is
          then let is = is_seekg is (unat offset);
                   len = min len (h_session_image_size h - of_int (is_tellg is));
                   (got, is) = is_read is (unat len)
               in ((int (length got), got), u\<lparr>srcFile := Some is\<rparr>)
          else ((-1, []), u)
      | None \<Rightarrow> ((-1, []), u))"

section \<open>The wire\<close>

text \<open>For firmware 2.0.0 up to build 10 the flags byte of a request is cleared in the
  buffer: it is byte 3 of the structure, after the header of 8 bytes, and the type is the
  second word of the header.\<close>

definition old_firmware :: "dev_info \<Rightarrow> bool" where
  "old_firmware i \<longleftrightarrow>
     di_firmwareVer i AND 0xFF = 2 \<and> drop_bit 8 (di_firmwareVer i) AND 0xFF = 0 \<and>
     drop_bit 16 (di_firmwareVer i) AND 0xFF = 0 \<and> drop_bit 24 (di_firmwareVer i) AND 0xFF \<le> 10"

definition fwUpdate_writeToWire ::
  "'x isfu_env \<Rightarrow> u32 \<Rightarrow> u8 list \<Rightarrow> int \<Rightarrow> 'x isfu \<Rightarrow> bool \<times> 'x isfu" where
  "fwUpdate_writeToWire env target buf buff_len u =
     (case (e_dfu env, target AND TARGET_DFU_FLAG = TARGET_DFU_FLAG) of
        (Some process, True) \<Rightarrow> on_ext (process buf buff_len) u
      | _ \<Rightarrow>
          let buf = (if old_firmware (remoteDevInfo u) \<and> take 4 (drop 4 buf) = u32_bytes 3
                     then buf[11 := 0] else buf);
              (now, u) = on_ext (e_current_timeMs env) u;
              u = u\<lparr>nextChunkSend := now + ucast (chunkDelay u)\<rparr>;
              (result, u) = on_ext (e_sendData env buf buff_len) u
          in (result = 0, u))"

definition isfu_io :: "'x isfu_env \<Rightarrow> 'x isfu host_io" where
  "isfu_io env =
     \<lparr>b_writeToWire = fwUpdate_writeToWire env, b_getImageChunk = fwUpdate_getImageChunk,
      b_current_timeMs = on_ext (e_current_timeMs env), b_rand = on_ext (e_rand env)\<rparr>"

section \<open>The handlers\<close>

definition fwUpdate_handleVersionResponse :: "'x isfu host_handler" where
  "fwUpdate_handleVersionResponse msg aux w =
     (case (data msg, w) of
        (VERSION_INFO_RESP v, h, u) \<Rightarrow>
          let u = u\<lparr>remoteDevInfo := dev_info_zero\<rparr>
          in if vr_resTarget v > TARGET_HOST \<and> vr_resTarget v \<le> TARGET_MAXNUM \<and>
                vr_resTarget v \<noteq> fu_target u
             then Some (False, h, u)
             else Some (True, h, u\<lparr>remoteDevInfo := (remoteDevInfo u)\<lparr>
                    di_serialNumber := vr_serialNumber v, di_hardwareType := vr_hardwareType v,
                    di_hardwareVer := vr_hardwareVer v, di_firmwareVer := vr_firmwareVer v,
                    di_buildYear := vr_buildYear v, di_buildMonth := vr_buildMonth v,
                    di_buildDay := vr_buildDay v, di_buildHour := vr_buildHour v,
                    di_buildMinute := vr_buildMinute v, di_buildSecond := vr_buildSecond v,
                    di_buildMillisecond := vr_buildMillis v, di_buildType := vr_buildType v\<rparr>,
                  target_devInfo := True\<rparr>)
      | _ \<Rightarrow> None)"

text \<open>The statuses of the switch that end the update.\<close>

definition fatal_status :: "int \<Rightarrow> bool" where
  "fatal_status st \<longleftrightarrow> st \<in> set [-1, -2, -3, -4, -5, -7, -8, -9, -10, -11, -12, -13]"

definition fwUpdate_handleUpdateResponse :: "'x isfu_env \<Rightarrow> 'x isfu host_handler" where
  "fwUpdate_handleUpdateResponse env msg aux w =
     (case (data msg, w) of
        (UPDATE_RESP sid totl_chunks status, h, u) \<Rightarrow>
          if h_session_id h \<noteq> sid then Some (False, w)
          else if h_session_status h = status \<and> h_session_status h \<noteq> INITIALIZING
          then Some (True, w)
          else
            let h = h\<lparr>h_session_status := status, h_session_total_chunks := totl_chunks\<rparr>
            in if status = ERR_MAX_CHUNK_SIZE
               then fwUpdate_requestUpdate (isfu_io env) (h_session_target h)
                      (int (unat (h_session_image_slot h)))
                      (int (unat (h_session_image_flags h))) (h_session_chunk_size h div 2)
                      (h_session_image_size h) (h_session_md5 h) 500 (h, u)
               else if fatal_status status then Some (False, h, u)
               else if status = READY then Some (True, h\<lparr>h_next_chunk_id := 0\<rparr>, u)
               else Some (True, h, u)
      | _ \<Rightarrow> None)"

text \<open>The comparison with \<open>last_resent_chunk\<close>, which no function assigns.\<close>

definition fwUpdate_handleResendChunk :: "'x isfu_env \<Rightarrow> 'x isfu host_handler" where
  "fwUpdate_handleResendChunk env msg aux w =
     (case (data msg, w) of
        (REQ_RESEND_CHUNK sid cid reason, h, u) \<Rightarrow>
          let (current_ms, u) = on_ext (e_current_timeMs env) u;
              again = (cid = last_resent_chunk u);
              u = (if again
                   then u\<lparr>resent_chunkid_count := resent_chunkid_count u + 1\<rparr>
                   else u\<lparr>resent_chunkid_count := 0, resent_chunkid_time := current_ms\<rparr>)
          in if again \<and> resent_chunkid_count u > 10 \<and>
                current_ms - resent_chunkid_time u > 5000
             then Some (False,
               (if reason = REASON_WRITE_ERROR
                then h\<lparr>h_session_status := ERR_FLASH_WRITE_FAILURE\<rparr>
                else if reason = REASON_INVALID_SEQID \<or> reason = REASON_INVALID_SIZE
                then h\<lparr>h_session_status := ERR_INVALID_CHUNK\<rparr>
                else h), u)
             else
               let (now, u) = on_ext (e_current_timeMs env) u;
                   u = u\<lparr>nextChunkSend := now + ucast (nextChunkDelay u)\<rparr>
               in do { (r, w) \<leftarrow> fwUpdate_sendNextChunk (isfu_io env) (h, u);
                       Some (r \<noteq> 0, w) }
      | _ \<Rightarrow> None)"

definition fwUpdate_handleUpdateProgress :: "'x isfu host_handler" where
  "fwUpdate_handleUpdateProgress msg aux w =
     (case (data msg, w) of
        (UPDATE_PROGRESS p, h, u) \<Rightarrow>
          Some (True, (if h_session_status h \<ge> NOT_STARTED
                       then h\<lparr>h_session_status := pr_status p\<rparr> else h), u)
      | _ \<Rightarrow> None)"

definition fwUpdate_handleDone :: "'x isfu host_handler" where
  "fwUpdate_handleDone msg aux w =
     (case (data msg, w) of
        (UPDATE_DONE sid status, h, u) \<Rightarrow> Some (True, h\<lparr>h_session_status := status\<rparr>, u)
      | _ \<Rightarrow> None)"

definition isfu_handlers :: "'x isfu_env \<Rightarrow> 'x isfu host_handlers" where
  "isfu_handlers env =
     \<lparr>c_handleVersionResponse = fwUpdate_handleVersionResponse,
      c_handleUpdateResponse = fwUpdate_handleUpdateResponse env,
      c_handleResendChunk = fwUpdate_handleResendChunk env,
      c_handleUpdateProgress = fwUpdate_handleUpdateProgress,
      c_handleDone = fwUpdate_handleDone\<rparr>"

section \<open>Starting an update\<close>

text \<open>\<open>opened\<close> is the stream of the image, from the file or the open package; \<open>None\<close> when the
  package does not hold it. A failed hash that reports 0 leaves the size 0 and the hash as
  it was, and the request goes out.\<close>

definition initializeUpdate ::
  "'x isfu_env \<Rightarrow> int \<Rightarrow> md5Context_t \<Rightarrow> md5hash_t \<Rightarrow> istream option \<Rightarrow> u32 \<Rightarrow> int \<Rightarrow> int \<Rightarrow>
   int \<Rightarrow> int \<Rightarrow> fw_host \<times> 'x isfu \<Rightarrow> (int \<times> fw_host \<times> 'x isfu) option" where
  "initializeUpdate env errno stack g_md5hash opened target slot flags chunkSize progressRate w =
     (case (opened, w) of
        (None, _) \<Rightarrow> Some (-15, w)
      | (Some is, h, u) \<Rightarrow>
          do {
            r \<leftarrow> (if flags AND 0x80 \<noteq> 0 then altMD5_file_details errno g_md5hash (Some is)
                  else md5_file_details errno stack (Some is));
            let (hashError, fileSize, md5, is) =
              (case r of Inl e \<Rightarrow> (e, 0, h_session_md5 h, is)
               | Inr (n, md5, is) \<Rightarrow> (0, n, md5, is));
            let h = h\<lparr>h_session_md5 := md5\<rparr>;
            let u = u\<lparr>srcFile := Some is\<rparr>;
            if hashError \<noteq> 0 then Some (-15, h, u)
            else do {
              let (now, u) = on_ext (e_current_timeMs env) u;
              let u = u\<lparr>updateStartTime := now\<rparr>;
              let (now, u) = on_ext (e_current_timeMs env) u;
              let u = u\<lparr>nextStartAttempt := now + ucast (attemptInterval u)\<rparr>;
              (sent, w) \<leftarrow> fwUpdate_requestUpdate (isfu_io env) target slot flags
                (of_int chunkSize) (ucast fileSize) md5 progressRate (h, u);
              Some (if sent then NOT_STARTED else ERR_UNKNOWN, w)
            }
          })"

section \<open>Commands and completion\<close>

definition setTarget :: "'x isfu_env \<Rightarrow> u32 \<Rightarrow> fw_host \<times> 'x isfu \<Rightarrow> fw_host \<times> 'x isfu" where
  "setTarget env target w =
     (case w of (h, u) \<Rightarrow>
      let h = h\<lparr>h_session_target := target, h_session_image_slot := 0\<rparr>;
          u = u\<lparr>fu_target := target, target_devInfo := False\<rparr>;
          (now, u) = on_ext (e_current_timeMs env) u
      in (h, u\<lparr>pauseUntil := now + 2000\<rparr>))"

definition setCommands :: "string list \<Rightarrow> 'x isfu \<Rightarrow> bool \<times> 'x isfu" where
  "setCommands cmds u = (True, u\<lparr>commands := cmds\<rparr>)"

definition hasPendingCommands :: "'x isfu \<Rightarrow> bool" where
  "hasPendingCommands u \<longleftrightarrow> commands u \<noteq> []"

definition fwUpdate_isDone :: "fw_host \<times> 'x isfu \<Rightarrow> bool" where
  "fwUpdate_isDone w \<longleftrightarrow>
     (let cmdsPending = hasPendingCommands (snd w);
          in_progress = (h_session_status (fst w) > NOT_STARTED \<and>
                         h_session_status (fst w) < FINISHED)
      in \<not> (cmdsPending \<or> requestPending (snd w) \<or> in_progress))"

definition handleCommandError ::
  "string \<Rightarrow> string \<Rightarrow> fw_host \<times> 'x isfu \<Rightarrow> fw_host \<times> 'x isfu" where
  "handleCommandError cmd err w =
     (case w of (h, u) \<Rightarrow>
      let (h, u) = (if commands u \<noteq> []
                    then (fwUpdate_resetEngine_host h, u\<lparr>requestPending := False\<rparr>)
                    else (h, u));
          u = u\<lparr>stepErrors := stepErrors u @ [(activeStep u, cmd, err)]\<rparr>
      in if failLabel u = []
         then (h, u\<lparr>commands := [], fu_target := TARGET_HOST\<rparr>)
         else (h, u\<lparr>commands := dropWhile (\<lambda>c. c \<noteq> failLabel u) (commands u)\<rparr>))"

end
