(* ===== verification/FwTransfer.thy ===== *)
theory FwTransfer
  imports FwDevice FwHost
begin

text \<open>
  A complete update over a lossless link, and the recovery from a lost or repeated chunk.

  \<open>image_source\<close> is what the host needs of its subclass: an image it can read and a wire that
  carries its messages. \<open>flash_device\<close> is what the device needs: a flash that takes every
  write. Inside the first, the host sends exactly the messages \<open>chunk_message\<close>; inside the
  second, a device in session consumes them. The first is interpreted on
  \<open>ISFirmwareUpdater\<close>, the second on the device of the unit test
  \<open>src/tests/test_ISFirmwareUpdate.cpp\<close>, both on a link that queues messages.
\<close>

section \<open>The pieces of an image\<close>

definition piece :: "u8 list \<Rightarrow> nat \<Rightarrow> nat \<Rightarrow> u8 list" where
  "piece img ch i = take ch (drop (i * ch) img)"

definition chunk_message :: "u16 \<Rightarrow> u32 \<Rightarrow> u8 list \<Rightarrow> nat \<Rightarrow> nat \<Rightarrow> u8 list" where
  "chunk_message sid target img ch i =
     payload_bytes \<lparr>target_device = target,
       data = UPDATE_CHUNK sid (of_nat i) (of_nat (length (piece img ch i)))\<rparr> @ piece img ch i"

definition nchunks :: "u8 list \<Rightarrow> nat \<Rightarrow> nat" where
  "nchunks img ch = (length img + ch - 1) div ch"

lemma nchunks_bounds:
  assumes "0 < ch" "i < nchunks img ch"
  shows "i * ch < length img" "Suc i < nchunks img ch \<longleftrightarrow> Suc i * ch < length img"
proof -
  have *: "j < nchunks img ch \<longleftrightarrow> j * ch < length img" for j
  proof -
    have "j < nchunks img ch \<longleftrightarrow> Suc j \<le> (length img + ch - 1) div ch"
      by (simp add: nchunks_def Suc_le_eq)
    also have "\<dots> \<longleftrightarrow> Suc j * ch \<le> length img + ch - 1"
      using assms(1) by (simp add: less_eq_div_iff_mult_less_eq)
    also have "\<dots> \<longleftrightarrow> j * ch < length img" using assms(1) by auto
    finally show ?thesis .
  qed
  show "i * ch < length img" "Suc i < nchunks img ch \<longleftrightarrow> Suc i * ch < length img"
    using * assms(2) by blast+
qed

lemma expected_piece:
  assumes "unat sz = length img" "ch \<noteq> 0" "i < nchunks img (unat ch)"
    "unat total_chunks = nchunks img (unat ch)"
  shows "unat (expected_size sz ch total_chunks (of_nat i)) = length (piece img (unat ch) i)"
proof -
  let ?ch = "unat ch"
  have ch: "0 < ?ch" using assms(2) by (simp add: unat_gt_0)
  have i: "unat (of_nat i :: u16) = i"
    using assms(3) unat_u16_less [of total_chunks] by (simp add: assms(4) unat_of_nat)
  note b = nchunks_bounds [OF ch assms(3)]
  show ?thesis
  proof (cases "Suc i = nchunks img ?ch")
    case True
    then have le: "length img \<le> Suc i * ?ch" using b(2) by auto
    define r where "r = length img - i * ?ch"
    have r: "0 < r" "r \<le> ?ch" "length img = r + i * ?ch" using b(1) le by (auto simp: r_def)
    have len: "length (piece img ?ch i) = r" using r(2) by (simp add: piece_def r_def)
    have "length img mod ?ch = r mod ?ch" by (simp add: r(3))
    then have m: "unat sz mod ?ch = (if r = ?ch then 0 else r)" using r(1,2) assms(1) by simp
    have u: "unat (of_nat r :: u16) = r"
      using r(2) unat_u16_less [of ch] by (simp add: unat_of_nat)
    then have "(of_nat r :: u16) \<noteq> 0" using r(1) by auto
    then show ?thesis
      using True i assms(4) m u by (simp add: expected_size_def Let_def len)
  next
    case False
    then have "Suc i < nchunks img ?ch" using assms(3) by simp
    then show ?thesis
      using False i assms(4) b(2) by (simp add: expected_size_def Let_def piece_def)
  qed
qed

lemma take_piece: "take (i * ch) img @ piece img ch i = take (Suc i * ch) img"
  by (simp add: piece_def take_add [symmetric] add.commute)

lemma payload_size_le:
  "known_data d \<Longrightarrow> fwUpdate_getPayloadSize (msg_type_of d) n False \<le> 42"
  by (cases d) (simp_all add: known_data_def fwUpdate_getPayloadSize_def)

lemma packPayload_plain:
  assumes "known_data (data p)" "aux_len_of (data p) = 0" "length buf = 604" "604 \<le> max_len"
    "aux = None \<or> aux = Some []"
  shows "\<exists>buf'. fwUpdate_packPayload buf max_len p aux = Some (int (length (payload_bytes p)), buf') \<and>
     length buf' = 604 \<and> take (length (payload_bytes p)) buf' = payload_bytes p"
  using assms payload_size_le [OF assms(1), of 0] length_payload_bytes [OF assms(1)]
    known_type(3) [OF assms(1), of 0]
  by (auto simp: fwUpdate_packPayload_def obj_wr_def Let_def)

section \<open>The device\<close>

definition dev_same :: "fw_dev \<Rightarrow> fw_dev \<Rightarrow> bool" where
  "dev_same d d' \<longleftrightarrow> length (d_build_buffer d') = 604 \<and> dev_core d' = dev_core d \<and>
     d_session_status d' = d_session_status d"

text \<open>A device in session that expects chunk \<open>i\<close> of the image.\<close>

definition dev_expects :: "u8 list \<Rightarrow> u16 \<Rightarrow> u32 \<Rightarrow> u16 \<Rightarrow> nat \<Rightarrow> fw_dev \<Rightarrow> bool" where
  "dev_expects img sid target ch i d \<longleftrightarrow>
     length (d_build_buffer d) = 604 \<and> d_session_target d = target \<and> d_session_id d = sid \<and>
     d_session_chunk_size d = ch \<and> ch \<noteq> 0 \<and> unat (d_session_image_size d) = length img \<and>
     unat (d_session_total_chunks d) = nchunks img (unat ch) \<and>
     d_session_md5 d = md5_spec img \<and> d_last_chunk_id d = int i - 1 \<and>
     md5_rep (d_md5Context d) (take (i * unat ch) img) \<and> length img < 2 ^ 31"

lemma dev_expects_same: "dev_same d d' \<Longrightarrow> dev_expects img sid t ch i d \<Longrightarrow> dev_expects img sid t ch i d'"
  by (auto simp: dev_same_def dev_core_def dev_expects_def)

lemma dev_same_trans: "dev_same d d' \<Longrightarrow> dev_same d' d'' \<Longrightarrow> dev_same d d''"
  by (simp add: dev_same_def)

text \<open>The buffers of a list, received in order.\<close>

fun deliver :: "'s dev_app \<Rightarrow> stack_junk \<Rightarrow> u8 list list \<Rightarrow> 's dev_world \<Rightarrow> 's dev_world option"
  where
  "deliver app junk [] w = Some w"
| "deliver app junk (b # bs) w =
     do { (_, w) \<leftarrow> fwUpdate_processBuffer_dev app junk b w; deliver app junk bs w }"

locale flash_device =
  fixes app :: "'s dev_app" and flash :: "'s \<Rightarrow> (nat \<times> u8 list) list"
    and replies :: "'s \<Rightarrow> u8 list list"
  assumes wire: "0 \<le> n \<Longrightarrow> nat n \<le> length buf \<Longrightarrow> \<exists>r s'. a_writeToWire app t buf n s = (r, s') \<and>
      flash s' = flash s \<and> replies s' = replies s @ [take (nat n) buf]"
    and image: "\<exists>r s'. a_writeImageChunk app d t sl off dat s = (r, s') \<and> NOT_STARTED \<le> r \<and>
      flash s' = flash s @ [(off, dat)] \<and> replies s' = replies s"
    and finish: "md5_state (d_md5Context d) = d_session_md5 d \<Longrightarrow>
      \<exists>s'. a_finishUpdate app d t sl f s = (FINISHED, s') \<and> flash s' = flash s \<and>
        replies s' = replies s"
    and clock: "\<exists>now s'. a_current_timeMs app s = (now, s') \<and> flash s' = flash s \<and>
      replies s' = replies s"
    and step: "\<exists>r s'. a_step app m b s = (r, s') \<and> flash s' = flash s \<and> replies s' = replies s"
begin

lemma sendPayload:
  assumes "length (d_build_buffer d) = 604" "known_data (data p)" "aux_len_of (data p) = 0"
  shows "\<exists>r d' s'. fwUpdate_sendPayload_dev app p None (d, s) = Some (r, d', s') \<and> dev_same d d' \<and>
    flash s' = flash s \<and> replies s' = replies s @ [payload_bytes p]"
proof -
  obtain buf where b: "fwUpdate_packPayload (d_build_buffer d) 604 p None =
      Some (int (length (payload_bytes p)), buf)" "length buf = 604"
      "take (length (payload_bytes p)) buf = payload_bytes p"
    using packPayload_plain [OF assms(2,3,1), of 604 None] by auto
  moreover have "length (payload_bytes p) \<le> 604" using b(2,3) by (metis length_take min.cobounded1)
  moreover from this obtain r s' where "a_writeToWire app (target_device p) buf
      (int (length (payload_bytes p))) s = (r, s')" "flash s' = flash s"
      "replies s' = replies s @ [payload_bytes p]"
    using wire [of "int (length (payload_bytes p))" buf "target_device p" s] b by auto
  ultimately show ?thesis
    by (simp add: fwUpdate_sendPayload_dev_def FWUPDATE_MAX_PAYLOAD_SIZE_def
        FWUPDATE_MAX_CHUNK_SIZE_def dev_same_def dev_core_def)
qed

lemma sendProgress:
  assumes "length (d_build_buffer d) = 604"
  shows "\<exists>r d' s'. fwUpdate_sendProgress app (d, s) = Some (r, d', s') \<and> dev_same d d' \<and>
    flash s' = flash s \<and> set (replies s) \<subseteq> set (replies s')"
proof -
  obtain now s1 where now: "a_current_timeMs app s = (now, s1)" "flash s1 = flash s"
      "replies s1 = replies s" using clock [of s] by blast
  let ?msg = "\<lparr>target_device = TARGET_HOST, data = UPDATE_PROGRESS
     \<lparr>pr_session_id = d_session_id d, pr_status = d_session_status d,
      pr_num_chunks = of_int (max 0 (min (int (unat (d_session_total_chunks d))) (d_last_chunk_id d + 1))),
      pr_totl_chunks = d_session_total_chunks d, pr_msg_level = of_int 99, pr_msg_len = of_nat 0\<rparr>\<rparr>"
  obtain buf where b: "fwUpdate_packPayload (d_build_buffer d) 604 ?msg (Some []) =
      Some (int (length (payload_bytes ?msg)), buf)" "length buf = 604"
      "take (length (payload_bytes ?msg)) buf = payload_bytes ?msg"
    using packPayload_plain [of ?msg "d_build_buffer d" 604 "Some []"] assms
    by (auto simp: known_data_def)
  have "length (payload_bytes ?msg) \<le> 604" using b(2,3) by (metis length_take min.cobounded1)
  then obtain r s2 where "a_writeToWire app TARGET_HOST buf (int (length (payload_bytes ?msg))) s1 = (r, s2)"
      "flash s2 = flash s1" "replies s2 = replies s1 @ [payload_bytes ?msg]"
    using wire [of "int (length (payload_bytes ?msg))" buf TARGET_HOST s1] b(2,3) by auto
  then show ?thesis
    using assms now b
    by (auto simp: fwUpdate_sendProgress_def fwUpdate_sendProgressFormatted_def Let_def
        dev_same_def dev_core_def)
qed

lemma sendDone:
  assumes "length (d_build_buffer d) = 604"
  shows "\<exists>r d' s'. fwUpdate_sendDone app st False False (d, s) = Some (r, d', s') \<and>
    dev_same (d\<lparr>d_session_status := st\<rparr>) d' \<and> flash s' = flash s \<and>
    replies s' = replies s @ [payload_bytes \<lparr>target_device = TARGET_HOST,
       data = UPDATE_DONE (d_session_id d) st\<rparr>]"
  using sendPayload [of "d\<lparr>d_session_status := st\<rparr>" "\<lparr>target_device = TARGET_HOST,
       data = UPDATE_DONE (d_session_id d) st\<rparr>" s] assms
  by (auto simp: fwUpdate_sendDone_def known_data_def)

lemma chunk_complete:
  assumes "length (d_build_buffer d) = 604" "md5_rep (d_md5Context d) img"
    "d_session_md5 d = md5_spec img"
  shows "\<exists>d' s'. fwUpdate_chunk_complete app (d, s) = Some (True, d', s') \<and>
    length (d_build_buffer d') = 604 \<and> d_session_status d' = FINISHED \<and> flash s' = flash s \<and>
    payload_bytes \<lparr>target_device = TARGET_HOST, data = UPDATE_DONE (d_session_id d) FINISHED\<rparr>
      \<in> set (replies s')"
proof -
  obtain r d1 s1 where p: "fwUpdate_sendProgress app (d, s) = Some (r, d1, s1)" "dev_same d d1"
      "flash s1 = flash s" using sendProgress [OF assms(1)] by blast
  then have c: "d_md5Context d1 = d_md5Context d" "d_session_md5 d1 = md5_spec img"
    "d_session_id d1 = d_session_id d" "length (d_build_buffer d1) = 604"
    using assms by (auto simp: dev_same_def dev_core_def)
  obtain ctx where ctx: "md5_final (d_md5Context d) = Some (ctx, md5_spec img)"
    using md5_final_rep [OF assms(2)] by blast
  then have "md5_state ctx = md5_spec img"
    by (auto simp: md5_final_def Let_def bind_eq_Some_conv)
  then obtain s2 where f: "a_finishUpdate app (d1\<lparr>d_md5Context := ctx\<rparr>) (d_session_target d1)
      (d_session_image_slot d1) (d_session_image_flags d1) s1 = (FINISHED, s2)" "flash s2 = flash s1"
    using finish [of "d1\<lparr>d_md5Context := ctx\<rparr>" "d_session_target d1" "d_session_image_slot d1"
        "d_session_image_flags d1" s1] c by auto
  let ?d = "d1\<lparr>d_md5Context := ctx, d_session_status := FINISHED\<rparr>"
  obtain r3 d3 s3 where "fwUpdate_sendDone app FINISHED False False (?d, s2) = Some (r3, d3, s3)"
      "dev_same (?d\<lparr>d_session_status := FINISHED\<rparr>) d3" "flash s3 = flash s2"
      "replies s3 = replies s2 @ [payload_bytes \<lparr>target_device = TARGET_HOST,
         data = UPDATE_DONE (d_session_id ?d) FINISHED\<rparr>]"
    using sendDone [of ?d FINISHED s2] c(4) by auto
  then show ?thesis
    using p c ctx f by (simp add: fwUpdate_chunk_complete_def dev_same_def)
qed

lemma handleChunk_run:
  assumes d: "dev_expects img sid target ch i d" and i: "i < nchunks img (unat ch)"
  shows "\<exists>r s1 ctx. a_writeImageChunk app d target (d_session_image_slot d) (i * unat ch)
      (piece img (unat ch) i) s = (r, s1) \<and>
    flash s1 = flash s @ [(i * unat ch, piece img (unat ch) i)] \<and>
    md5_rep ctx (take (Suc i * unat ch) img) \<and>
    fwUpdate_handleChunk app \<lparr>target_device = target,
       data = UPDATE_CHUNK sid (of_nat i) (of_nat (length (piece img (unat ch) i)))\<rparr>
      (piece img (unat ch) i) (d, s) =
    (let d' = d\<lparr>d_session_status := IN_PROGRESS, d_last_chunk_id := int i, d_md5Context := ctx\<rparr>
     in if Suc i < nchunks img (unat ch) then Some (True, d', s1)
        else fwUpdate_chunk_complete app (d', s1))"
proof -
  let ?ch = "unat ch" and ?p = "piece img (unat ch) i"
  have ch: "0 < ?ch" and sz: "unat (d_session_image_size d) = length img"
    and tot: "unat (d_session_total_chunks d) = nchunks img ?ch" and c0: "ch \<noteq> 0"
    and m: "length img < 2 ^ 31" and rep: "md5_rep (d_md5Context d) (take (i * ?ch) img)"
    using d by (auto simp: dev_expects_def unat_gt_0)
  note b = nchunks_bounds [OF ch i]
  have iu: "unat (of_nat i :: u16) = i"
    using i tot unat_u16_less [of "d_session_total_chunks d"] by (simp add: unat_of_nat)
  have pl: "length ?p \<le> ?ch" by (simp add: piece_def)
  then have pu: "unat (of_nat (length ?p) :: u16) = length ?p"
    using unat_u16_less [of ch] by (simp add: unat_of_nat)
  have u: "uint (of_nat i :: u16) = int i" "uint (of_nat (length ?p) :: u16) = int (length ?p)"
    "uint (d_session_total_chunks d) = int (nchunks img ?ch)"
    using iu pu tot by (metis of_nat_unat)+
  have ex: "of_nat (length ?p) = expected_size (d_session_image_size d) ch
      (d_session_total_chunks d) (of_nat i)"
    using expected_piece [OF sz c0 i tot] by (metis of_nat_unat ucast_id)
  have off: "i * ?ch < 2 ^ 31" using b(1) m by simp
  obtain r s1 where w: "a_writeImageChunk app d target (d_session_image_slot d) (i * ?ch) ?p s = (r, s1)"
      "NOT_STARTED \<le> r" "flash s1 = flash s @ [(i * ?ch, ?p)]" "replies s1 = replies s"
    using image [of d target "d_session_image_slot d" "i * ?ch" ?p s] by blast
  obtain ctx where ctx: "md5_update (d_md5Context d) ?p = Some ctx"
      "md5_rep ctx (take (Suc i * ?ch) img)"
    using md5_update_rep [OF rep, of ?p] pl unat_u16_less [of ch] take_piece [of i ?ch img] by auto
  have "fwUpdate_handleChunk app \<lparr>target_device = target,
       data = UPDATE_CHUNK sid (of_nat i) (of_nat (length ?p))\<rparr> ?p (d, s) =
     (if int i \<ge> int (nchunks img ?ch) - 1
      then fwUpdate_chunk_complete app
        (d\<lparr>d_session_status := IN_PROGRESS, d_last_chunk_id := int i, d_md5Context := ctx\<rparr>, s1)
      else Some (True, d\<lparr>d_session_status := IN_PROGRESS, d_last_chunk_id := int i, d_md5Context := ctx\<rparr>, s1))"
    using d w ctx(1) ex off iu pu u c0
    by (simp add: fwUpdate_handleChunk_def dev_expects_def obj_rd_def)
  moreover have "int i \<ge> int (nchunks img ?ch) - 1 \<longleftrightarrow> \<not> Suc i < nchunks img ?ch" by linarith
  ultimately show ?thesis
    using w ctx(2)
    by (intro exI [of _ r] exI [of _ s1] exI [of _ ctx]) (simp add: Let_def)
qed

lemma handleChunk_expected:
  assumes d: "dev_expects img sid target ch i d" and i: "i < nchunks img (unat ch)"
  shows "\<exists>d' s'. fwUpdate_handleChunk app
      \<lparr>target_device = target,
       data = UPDATE_CHUNK sid (of_nat i) (of_nat (length (piece img (unat ch) i)))\<rparr>
      (piece img (unat ch) i) (d, s) = Some (True, d', s') \<and>
    flash s' = flash s @ [(i * unat ch, piece img (unat ch) i)] \<and>
    length (d_build_buffer d') = 604 \<and>
    (Suc i < nchunks img (unat ch) \<longrightarrow> dev_expects img sid target ch (Suc i) d') \<and>
    (Suc i = nchunks img (unat ch) \<longrightarrow> d_session_status d' = FINISHED \<and>
       payload_bytes \<lparr>target_device = TARGET_HOST, data = UPDATE_DONE sid FINISHED\<rparr>
         \<in> set (replies s'))"
proof -
  let ?ch = "unat ch" and ?p = "piece img (unat ch) i"
  obtain s1 ctx where run: "flash s1 = flash s @ [(i * ?ch, ?p)]" "md5_rep ctx (take (Suc i * ?ch) img)"
      "fwUpdate_handleChunk app \<lparr>target_device = target,
         data = UPDATE_CHUNK sid (of_nat i) (of_nat (length ?p))\<rparr> ?p (d, s) =
       (let d' = d\<lparr>d_session_status := IN_PROGRESS, d_last_chunk_id := int i, d_md5Context := ctx\<rparr>
        in if Suc i < nchunks img ?ch then Some (True, d', s1)
           else fwUpdate_chunk_complete app (d', s1))"
    using handleChunk_run [OF d i, of s] by blast
  let ?d = "d\<lparr>d_session_status := IN_PROGRESS, d_last_chunk_id := int i, d_md5Context := ctx\<rparr>"
  show ?thesis
  proof (cases "Suc i < nchunks img ?ch")
    case True
    then show ?thesis using run d by (simp add: dev_expects_def)
  next
    case False
    have "0 < ?ch" using d by (simp add: dev_expects_def unat_gt_0)
    then have "length img \<le> Suc i * ?ch" using False nchunks_bounds(2) [OF _ i] by simp
    then have "md5_rep (d_md5Context ?d) img" using run(2) by simp
    then show ?thesis
      using chunk_complete [of ?d img s1] run(1,3) d False i by (auto simp: dev_expects_def)
  qed
qed

lemma processMessage_after:
  assumes "target_device p = d_session_target d"
    "\<And>now s0. flash s0 = flash s \<Longrightarrow> replies s0 = replies s \<Longrightarrow> \<exists>r d1 s1.
       fwUpdate_dispatch_dev app junk p aux (d\<lparr>d_last_message := now\<rparr>, s0) = Some (r, d1, s1) \<and>
       length (d_build_buffer d1) = 604 \<and> P r d1 (flash s1) (replies s1)"
  shows "\<exists>r d' s' d1 rs. fwUpdate_processMessage_dev app junk p aux (d, s) = Some (r, d', s') \<and>
    P r d1 (flash s') rs \<and> dev_same d1 d' \<and> set rs \<subseteq> set (replies s')"
proof -
  obtain now s0 where now: "a_current_timeMs app s = (now, s0)" "flash s0 = flash s"
      "replies s0 = replies s" using clock [of s] by blast
  obtain r d1 s1 where d1: "fwUpdate_dispatch_dev app junk p aux (d\<lparr>d_last_message := now\<rparr>, s0) =
      Some (r, d1, s1)" "length (d_build_buffer d1) = 604" "P r d1 (flash s1) (replies s1)"
    using assms(2) [OF now(2,3)] by blast
  obtain n1 s2 where n1: "a_current_timeMs app s1 = (n1, s2)" "flash s2 = flash s1"
      "replies s2 = replies s1" using clock [of s1] by blast
  obtain n2 s3 where n2: "a_current_timeMs app s2 = (n2, s3)" "flash s3 = flash s2"
      "replies s3 = replies s2" using clock [of s2] by blast
  let ?d = "d1\<lparr>d_nextProgressReport := n2 + d_progress_interval d1\<rparr>"
  obtain r4 d4 s4 where d4: "fwUpdate_sendProgress app (?d, s3) = Some (r4, d4, s4)"
      "dev_same ?d d4" "flash s4 = flash s3" "set (replies s3) \<subseteq> set (replies s4)"
    using sendProgress [of ?d s3] d1(2) by auto
  have "dev_same d1 d4" "dev_same d1 d1"
    using d4(2) d1(2) by (auto simp: dev_same_def dev_core_def)
  moreover obtain r5 s5 where "a_step app (msg_type_of (data p)) r s4 = (r5, s5)"
      "flash s5 = flash s4" "replies s5 = replies s4" using step by blast
  moreover obtain r6 s6 where "a_step app (msg_type_of (data p)) r s1 = (r6, s6)"
      "flash s6 = flash s1" "replies s6 = replies s1" using step by blast
  moreover obtain r7 s7 where "a_step app (msg_type_of (data p)) r s2 = (r7, s7)"
      "flash s7 = flash s2" "replies s7 = replies s2" using step by blast
  ultimately show ?thesis
    using assms(1) now d1 n1 n2 d4
    by (cases "d_progress_interval d1 > 0"; cases "d_nextProgressReport d1 < n1")
       (auto simp: fwUpdate_processMessage_dev_def intro!: exI [of _ "replies s1"])
qed

lemma dev_expects_time [simp]:
  "dev_expects img sid target ch i (d\<lparr>d_last_message := t\<rparr>) = dev_expects img sid target ch i d"
  by (simp add: dev_expects_def)

lemma chunk_message_map:
  assumes "length (piece img ch i) < 65536"
  shows "fwUpdate_mapBufferToPayload (chunk_message sid target img ch i) =
    Some (int (14 + length (piece img ch i)), \<lparr>target_device = target,
      data = UPDATE_CHUNK sid (of_nat i) (of_nat (length (piece img ch i)))\<rparr>, piece img ch i,
      chunk_message sid target img ch i)"
  using assms mapBuffer_bytes [of "\<lparr>target_device = target,
      data = UPDATE_CHUNK sid (of_nat i) (of_nat (length (piece img ch i)))\<rparr>" "piece img ch i"]
  by (simp add: chunk_message_def known_data_def fwUpdate_getPayloadSize_def unat_of_nat)

lemma processBuffer_chunk:
  assumes d: "dev_expects img sid target ch i d" and i: "i < nchunks img (unat ch)"
  shows "\<exists>d' s'. fwUpdate_processBuffer_dev app junk (chunk_message sid target img (unat ch) i) (d, s) =
      Some (True, d', s') \<and>
    flash s' = flash s @ [(i * unat ch, piece img (unat ch) i)] \<and>
    (Suc i < nchunks img (unat ch) \<longrightarrow> dev_expects img sid target ch (Suc i) d') \<and>
    (Suc i = nchunks img (unat ch) \<longrightarrow> d_session_status d' = FINISHED \<and>
       payload_bytes \<lparr>target_device = TARGET_HOST, data = UPDATE_DONE sid FINISHED\<rparr>
         \<in> set (replies s'))"
proof -
  let ?n = "nchunks img (unat ch)" and ?p = "piece img (unat ch) i"
  let ?m = "\<lparr>target_device = target, data = UPDATE_CHUNK sid (of_nat i) (of_nat (length ?p))\<rparr>"
  let ?P = "\<lambda>r d1 fl rs. r \<and> fl = flash s @ [(i * unat ch, ?p)] \<and>
      (Suc i < ?n \<longrightarrow> dev_expects img sid target ch (Suc i) d1) \<and>
      (Suc i = ?n \<longrightarrow> d_session_status d1 = FINISHED \<and>
         payload_bytes \<lparr>target_device = TARGET_HOST, data = UPDATE_DONE sid FINISHED\<rparr> \<in> set rs)"
  have t: "target_device ?m = d_session_target d" using d by (simp add: dev_expects_def)
  have l: "length ?p < 65536" using unat_u16_less [of ch] by (simp add: piece_def)
  have "\<exists>r d' s' d1 rs. fwUpdate_processMessage_dev app junk ?m ?p (d, s) = Some (r, d', s') \<and>
      ?P r d1 (flash s') rs \<and> dev_same d1 d' \<and> set rs \<subseteq> set (replies s')"
  proof (rule processMessage_after [OF t])
    fix now s0
    assume s0: "flash s0 = flash s"
    obtain d1 s1 where "fwUpdate_handleChunk app ?m ?p (d\<lparr>d_last_message := now\<rparr>, s0) =
        Some (True, d1, s1)" "length (d_build_buffer d1) = 604" "?P True d1 (flash s1) (replies s1)"
      using handleChunk_expected [of img sid target ch i "d\<lparr>d_last_message := now\<rparr>" s0] d i s0
      by auto
    then show "\<exists>r d1 s1. fwUpdate_dispatch_dev app junk ?m ?p (d\<lparr>d_last_message := now\<rparr>, s0) =
        Some (r, d1, s1) \<and> length (d_build_buffer d1) = 604 \<and> ?P r d1 (flash s1) (replies s1)"
      by (intro exI [of _ True] exI [of _ d1] exI [of _ s1])
         (simp only: fwUpdate_dispatch_dev_def payload_t.simps msg_data_t.case simp_thms, blast)
  qed
  then obtain r d' s' d1 rs where r: "fwUpdate_processMessage_dev app junk ?m ?p (d, s) =
      Some (r, d', s')" "?P r d1 (flash s') rs" "dev_same d1 d'" "set rs \<subseteq> set (replies s')"
    by blast
  have "fwUpdate_processBuffer_dev app junk (chunk_message sid target img (unat ch) i) (d, s) =
      Some (True, d', s')"
    using r(1,2) chunk_message_map [OF l] by (simp add: fwUpdate_processBuffer_dev_def)
  moreover have "d_session_status d' = d_session_status d1" using r(3) by (simp add: dev_same_def)
  ultimately show ?thesis using r(2,4) dev_expects_same [OF r(3)] by auto
qed

lemma deliver_image:
  "dev_expects img sid target ch i d \<Longrightarrow> i < nchunks img (unat ch) \<Longrightarrow>
   \<exists>d' s'. deliver app junk
       (map (chunk_message sid target img (unat ch)) [i..<nchunks img (unat ch)]) (d, s) =
       Some (d', s') \<and>
     flash s' = flash s @
       map (\<lambda>j. (j * unat ch, piece img (unat ch) j)) [i..<nchunks img (unat ch)] \<and>
     d_session_status d' = FINISHED \<and>
     payload_bytes \<lparr>target_device = TARGET_HOST, data = UPDATE_DONE sid FINISHED\<rparr>
       \<in> set (replies s')"
proof (induction "nchunks img (unat ch) - i" arbitrary: i d s)
  case (Suc k)
  let ?n = "nchunks img (unat ch)"
  obtain d1 s1 where 1: "fwUpdate_processBuffer_dev app junk
      (chunk_message sid target img (unat ch) i) (d, s) = Some (True, d1, s1)"
      "flash s1 = flash s @ [(i * unat ch, piece img (unat ch) i)]"
      "Suc i < ?n \<Longrightarrow> dev_expects img sid target ch (Suc i) d1"
      "Suc i = ?n \<Longrightarrow> d_session_status d1 = FINISHED \<and>
         payload_bytes \<lparr>target_device = TARGET_HOST, data = UPDATE_DONE sid FINISHED\<rparr>
           \<in> set (replies s1)"
    using processBuffer_chunk [OF Suc.prems] by blast
  have up: "[i..<?n] = i # [Suc i..<?n]" using Suc.prems(2) by (simp add: upt_conv_Cons)
  show ?case
  proof (cases "Suc i < ?n")
    case True
    then show ?thesis using Suc.hyps(1) [of "Suc i" d1 s1] Suc.hyps(2) 1 up by auto
  next
    case False
    then show ?thesis using 1 up Suc.prems(2) by simp
  qed
qed simp

lemma processBuffer_wrong_chunk:
  assumes d: "dev_expects img sid target ch i d" and i: "i < nchunks img (unat ch)"
    and j: "j < nchunks img (unat ch)" "j \<noteq> i"
  shows "\<exists>d' s'. fwUpdate_processBuffer_dev app junk
      (chunk_message sid target img (unat ch) j) (d, s) = Some (False, d', s') \<and>
    dev_expects img sid target ch i d' \<and> flash s' = flash s \<and>
    payload_bytes \<lparr>target_device = TARGET_HOST,
      data = REQ_RESEND_CHUNK sid (of_nat i) REASON_INVALID_SEQID\<rparr> \<in> set (replies s')"
proof -
  let ?p = "piece img (unat ch) j"
  let ?m = "\<lparr>target_device = target, data = UPDATE_CHUNK sid (of_nat j) (of_nat (length ?p))\<rparr>"
  let ?r = "\<lparr>target_device = TARGET_HOST,
      data = REQ_RESEND_CHUNK sid (of_nat i) REASON_INVALID_SEQID\<rparr>"
  let ?P = "\<lambda>r d1 fl rs. \<not> r \<and> fl = flash s \<and> dev_expects img sid target ch i d1 \<and>
      payload_bytes ?r \<in> set rs"
  have t: "target_device ?m = d_session_target d" using d by (simp add: dev_expects_def)
  have l: "length ?p < 65536" using unat_u16_less [of ch] by (simp add: piece_def)
  have "nchunks img (unat ch) < 65536"
    using d unat_u16_less [of "d_session_total_chunks d"] by (simp add: dev_expects_def)
  then have ne: "(of_nat j :: u16) \<noteq> of_nat i"
    using i j by (simp add: word_unat_eq_iff unat_of_nat)
  have "\<exists>r d' s' d1 rs. fwUpdate_processMessage_dev app junk ?m ?p (d, s) = Some (r, d', s') \<and>
      ?P r d1 (flash s') rs \<and> dev_same d1 d' \<and> set rs \<subseteq> set (replies s')"
  proof (rule processMessage_after [OF t])
    fix now s0
    assume s0: "flash s0 = flash s"
    let ?d = "d\<lparr>d_last_message := now\<rparr>"
    obtain r d1 s1 where "fwUpdate_sendPayload_dev app ?r None (?d, s0) = Some (r, d1, s1)"
        "dev_same ?d d1" "flash s1 = flash s0" "replies s1 = replies s0 @ [payload_bytes ?r]"
      using sendPayload [of ?d ?r s0] d by (auto simp: known_data_def dev_expects_def)
    then show "\<exists>r d1 s1. fwUpdate_dispatch_dev app junk ?m ?p (?d, s0) = Some (r, d1, s1) \<and>
        length (d_build_buffer d1) = 604 \<and> ?P r d1 (flash s1) (replies s1)"
      using d ne s0 dev_expects_same [of ?d d1 img sid target ch i]
      by (auto simp: fwUpdate_dispatch_dev_def fwUpdate_handleChunk_def fwUpdate_sendRetry_def
          dev_expects_def)
  qed
  then obtain r d' s' d1 rs where r: "fwUpdate_processMessage_dev app junk ?m ?p (d, s) =
      Some (r, d', s')" "?P r d1 (flash s') rs" "dev_same d1 d'" "set rs \<subseteq> set (replies s')"
    by blast
  then show ?thesis
    using chunk_message_map [OF l] dev_expects_same [OF r(3)]
    by (auto simp: fwUpdate_processBuffer_dev_def)
qed

end

section \<open>The host\<close>

definition host_core where
  "host_core h = (h_session_target h, h_session_status h, h_session_id h, h_session_chunk_size h,
     h_session_total_chunks h, h_session_image_size h, h_session_md5 h)"

text \<open>A host in session: the chunk, with its header of 14 bytes, fits the build buffer.\<close>

definition host_ready :: "u8 list \<Rightarrow> fw_host \<Rightarrow> bool" where
  "host_ready img h \<longleftrightarrow>
     length (h_build_buffer h) = 604 \<and> h_session_chunk_size h \<noteq> 0 \<and>
     unat (h_session_chunk_size h) \<le> 590 \<and> unat (h_session_image_size h) = length img \<and>
     unat (h_session_total_chunks h) = nchunks img (unat (h_session_chunk_size h)) \<and>
     length img < 2 ^ 31 \<and> h_session_target h AND TARGET_DFU_FLAG = 0"

fun send_chunks :: "'s host_io \<Rightarrow> nat \<Rightarrow> 's host_world \<Rightarrow> 's host_world option" where
  "send_chunks io 0 w = Some w"
| "send_chunks io (Suc n) w = do { (_, w) \<leftarrow> fwUpdate_sendNextChunk io w; send_chunks io n w }"

abbreviation host_message :: "u8 list \<Rightarrow> fw_host \<Rightarrow> nat \<Rightarrow> u8 list" where
  "host_message img h \<equiv>
     chunk_message (h_session_id h) (h_session_target h) img (unat (h_session_chunk_size h))"

locale image_source =
  fixes io :: "'s host_io" and img :: "u8 list" and sent :: "'s \<Rightarrow> u8 list list"
    and fine :: "'s \<Rightarrow> bool"
  assumes get: "fine s \<Longrightarrow> unat (h_session_image_size h) = length img \<Longrightarrow>
      unat off + unat len \<le> length img \<Longrightarrow>
      \<exists>s'. b_getImageChunk io h off len s =
          ((int (unat len), take (unat len) (drop (unat off) img)), s') \<and>
        fine s' \<and> sent s' = sent s"
    and wire: "fine s \<Longrightarrow> 0 \<le> n \<Longrightarrow> nat n \<le> length buf \<Longrightarrow> target AND TARGET_DFU_FLAG = 0 \<Longrightarrow>
      \<exists>s'. b_writeToWire io target buf n s = (True, s') \<and> fine s' \<and>
        sent s' = sent s @ [take (nat n) buf]"
begin

lemma sendNextChunk:
  assumes h: "host_ready img h" and f: "fine s"
    and i: "h_next_chunk_id h = of_nat i" "i < nchunks img (unat (h_session_chunk_size h))"
  shows "\<exists>h' s'. fwUpdate_sendNextChunk io (h, s) =
      Some (int (nchunks img (unat (h_session_chunk_size h))) - int (Suc i), h', s') \<and>
    host_ready img h' \<and> host_core h' = host_core h \<and> h_next_chunk_id h' = of_nat (Suc i) \<and>
    fine s' \<and> sent s' = sent s @ [host_message img h i]"
proof -
  let ?ch = "unat (h_session_chunk_size h)" and ?n = "nchunks img (unat (h_session_chunk_size h))"
  let ?p = "piece img ?ch i"
  have ch: "0 < ?ch" and n: "unat (h_session_total_chunks h) = ?n" "?n < 65536"
    and sz: "unat (h_session_image_size h) = length img" "length img < 2 ^ 31"
    using h unat_u16_less [of "h_session_total_chunks h"] by (auto simp: host_ready_def unat_gt_0)
  have c0: "h_session_chunk_size h \<noteq> 0" using h by (simp add: host_ready_def)
  note b = nchunks_bounds [OF ch i(2)]
  have iu: "unat (of_nat i :: u16) = i" "unat (of_nat (Suc i) :: u16) = Suc i"
    using i(2) n(2) unat_of_nat [of "Suc i", where ?'a = 16] by (simp_all add: unat_of_nat)
  have pl: "length ?p \<le> ?ch" "length ?p = min ?ch (length img - i * ?ch)" "?ch \<le> 590"
    using h by (simp_all add: piece_def host_ready_def)
  have p590: "length ?p \<le> 590" using pl(1,3) by simp
  have ex: "expected_size (h_session_image_size h) (h_session_chunk_size h)
      (h_session_total_chunks h) (of_nat i) = of_nat (length ?p)"
    using expected_piece [OF sz(1) _ i(2) n(1)] h
    by (metis host_ready_def of_nat_unat ucast_id)
  have pu: "unat (of_nat (length ?p) :: u16) = length ?p"
    "unat (ucast (of_nat (length ?p) :: u16) :: u32) = length ?p"
    using pl by (simp_all add: unat_of_nat unsigned_ucast_eq take_bit_eq_mod)
  have ou: "unat (of_nat (i * ?ch) :: u32) = i * ?ch"
    using b(1) sz(2) by (simp only: unat_of_nat32) simp
  let ?m = "\<lparr>target_device = h_session_target h,
      data = UPDATE_CHUNK (h_session_id h) (of_nat i) (of_nat (length ?p))\<rparr>"
  have ml: "length (payload_bytes ?m) = 14" "payload_size_of ?m = 14"
    using length_payload_bytes [of ?m] by (simp_all add: known_data_def fwUpdate_getPayloadSize_def)
  have le: "i * ?ch + length ?p \<le> length img" using pl(2) b(1) by simp
  have tp: "take (length ?p) (drop (i * ?ch) img) = ?p"
    by (cases "?ch \<le> length img - i * ?ch") (simp_all add: piece_def)
  obtain s1 where g: "b_getImageChunk io h (of_nat (i * ?ch)) (ucast (of_nat (length ?p) :: u16)) s =
      ((int (length ?p), ?p), s1)" "fine s1" "sent s1 = sent s"
    using get [OF f sz(1), of "of_nat (i * ?ch)" "ucast (of_nat (length ?p) :: u16)",
        unfolded pu ou tp, OF le] by blast
  let ?b = "payload_bytes ?m @ ?p @ drop (14 + length ?p) (h_build_buffer h)"
  have lb: "length (h_build_buffer h) = 604" using h by (simp add: host_ready_def)
  have w: "obj_wr (h_build_buffer h) 0 (payload_bytes ?m) =
      Some (payload_bytes ?m @ drop 14 (h_build_buffer h))"
    "obj_wr (payload_bytes ?m @ drop 14 (h_build_buffer h)) 14 ?p = Some ?b"
    using lb ml p590 by (simp_all add: obj_wr_def add.commute)
  have bl: "14 + length ?p \<le> length ?b" and tb: "take (14 + length ?p) ?b = host_message img h i"
    using lb ml p590 by (simp_all add: chunk_message_def)
  obtain s2 where x: "b_writeToWire io (h_session_target h) ?b (int (14 + length ?p)) s1 = (True, s2)"
      "fine s2" "sent s2 = sent s1 @ [host_message img h i]"
    using wire [OF g(2), of "int (14 + length ?p)" ?b "h_session_target h",
        unfolded nat_int tb, OF _ bl] h
    by (auto simp: host_ready_def simp del: of_nat_add)
  have lt: "\<not> h_next_chunk_id h \<ge> h_session_total_chunks h" "\<not> 2 ^ 31 \<le> i * ?ch"
    using i n iu b(1) sz(2) by (simp_all add: not_le word_less_nat_alt)
  have u: "uint (of_nat (length ?p) :: u16) = int (length ?p)"
    "uint (h_session_total_chunks h) = int ?n" "uint (of_nat i + 1 :: u16) = 1 + int i"
    using pu(1) n(1) iu(2) by (metis of_nat_unat, metis of_nat_unat, metis of_nat_unat of_nat_Suc add.commute)
  have "fwUpdate_sendNextChunk io (h, s) = Some (int ?n - int (Suc i),
      h\<lparr>h_build_buffer := ?b, h_chunks_sent := h_chunks_sent h + 1,
        h_next_chunk_id := of_nat i + 1\<rparr>, s2)"
    using lt i(1) iu(1) ex w g(1) x(1) ml(2) pu(1) u c0
    by (simp add: fwUpdate_sendNextChunk_def Let_def)
  then show ?thesis
    using h lb ml p590 x(2,3) g(3)
    by (simp add: host_ready_def host_core_def add.commute)
qed

lemma send_all:
  "host_ready img h \<Longrightarrow> fine s \<Longrightarrow> h_next_chunk_id h = of_nat i \<Longrightarrow>
   i + k \<le> nchunks img (unat (h_session_chunk_size h)) \<Longrightarrow>
   \<exists>h' s'. send_chunks io k (h, s) = Some (h', s') \<and> host_ready img h' \<and>
     host_core h' = host_core h \<and> h_next_chunk_id h' = of_nat (i + k) \<and> fine s' \<and>
     sent s' = sent s @ map (host_message img h) [i..<i + k]"
proof (induction k arbitrary: h s i)
  case (Suc k)
  obtain r h1 s1 where 1: "fwUpdate_sendNextChunk io (h, s) = Some (r, h1, s1)"
      "host_ready img h1" "host_core h1 = host_core h" "h_next_chunk_id h1 = of_nat (Suc i)"
      "fine s1" "sent s1 = sent s @ [host_message img h i]"
    using sendNextChunk [OF Suc.prems(1,2,3)] Suc.prems(4) by auto
  have "[i..<i + Suc k] = i # [Suc i..<Suc i + k]" by (simp add: upt_conv_Cons)
  moreover have "host_message img h1 = host_message img h" "h_session_chunk_size h1 = h_session_chunk_size h"
    using 1(3) by (simp_all add: host_core_def)
  ultimately show ?case
    using Suc.IH [OF 1(2,5,4)] Suc.prems(4) 1 by auto
qed simp

end

end
