(* ===== verification/FwSystem.thy ===== *)
theory FwSystem
  imports FwTransfer
begin

text \<open>
  The host \<open>ISFirmwareUpdater\<close> and the device of the unit test
  (\<open>src/tests/test_ISFirmwareUpdate.cpp\<close>) joined by a link that queues messages: the
  interpretations of the two interfaces, the complete update from a file to the flash, and
  the recovery from a chunk out of order.
\<close>

section \<open>The link and the device of the test\<close>

record link =
  l_clock :: u32
  l_seed :: u32
  l_sent :: "u8 list list"

definition link_env :: "link isfu_env" where
  "link_env =
     \<lparr>e_current_timeMs = (\<lambda>x. (l_clock x, x\<lparr>l_clock := l_clock x + 1\<rparr>)),
      e_rand = (\<lambda>x. (l_seed x, x\<lparr>l_seed := l_seed x * 1103515245 + 12345\<rparr>)),
      e_sendData = (\<lambda>buf n x. (0, x\<lparr>l_sent := l_sent x @ [take (nat n) buf]\<rparr>)),
      e_dfu = None\<rparr>"

text \<open>The functions of \<open>ISFirmwareUpdateTestDev\<close>. Its exchange buffer is the queue of the
  link.\<close>

definition test_startUpdate :: "payload_t \<Rightarrow> int" where
  "test_startUpdate p =
     (case data p of
        REQ_UPDATE q \<Rightarrow>
          if ru_image_slot q \<noteq> 0 then -2
          else if ru_file_size q > 0x800000 then -4
          else if unat (ru_chunk_size q) > FWUPDATE_MAX_CHUNK_SIZE then ERR_MAX_CHUNK_SIZE
          else READY
      | _ \<Rightarrow> READY)"

definition test_finishUpdate :: "fw_dev \<Rightarrow> int" where
  "test_finishUpdate d =
     (if hash_bytes (md5_state (d_md5Context d)) = hash_bytes (d_session_md5 d) then FINISHED
      else ERR_CHECKSUM_MISMATCH)"

definition test_app :: "link dev_app" where
  "test_app =
     \<lparr>a_writeToWire = (\<lambda>t buf n x. (True, x\<lparr>l_sent := l_sent x @ [take (nat n) buf]\<rparr>)),
      a_performReset = (\<lambda>t f x. (0, x)),
      a_queryVersionInfo = (\<lambda>t x. ((False, dev_info_zero), x)),
      a_startUpdate = (\<lambda>d p x. (test_startUpdate p, x)),
      a_writeImageChunk = (\<lambda>d t sl off dat x. (IN_PROGRESS, x)),
      a_finishUpdate = (\<lambda>d t sl f x. (test_finishUpdate d, x)),
      a_step = (\<lambda>m b x. (True, x)),
      a_current_timeMs = (\<lambda>x. (l_clock x, x\<lparr>l_clock := l_clock x + 1\<rparr>))\<rparr>"

definition isfu_fine :: "u8 list \<Rightarrow> link isfu \<Rightarrow> bool" where
  "isfu_fine img u \<longleftrightarrow>
     (case srcFile u of None \<Rightarrow> False | Some is \<Rightarrow> is_good is \<and> is_bytes is = img) \<and>
     \<not> old_firmware (remoteDevInfo u)"

abbreviation isfu_sent :: "link isfu \<Rightarrow> u8 list list" where
  "isfu_sent u \<equiv> l_sent (ext u)"

section \<open>Interpretations\<close>

lemma isfu_wire:
  assumes "isfu_fine img u"
  shows "\<exists>u'. fwUpdate_writeToWire link_env target buf n u = (True, u') \<and> isfu_fine img u' \<and>
    isfu_sent u' = isfu_sent u @ [take (nat n) buf] \<and> last_resent_chunk u' = last_resent_chunk u"
  using assms
  by (auto simp: fwUpdate_writeToWire_def link_env_def on_ext_def isfu_fine_def Let_def)

lemma isfu_get:
  assumes "isfu_fine img u" "unat (h_session_image_size h) = length img"
    "unat off + unat len \<le> length img"
  shows "\<exists>u'. fwUpdate_getImageChunk h off len u =
      ((int (unat len), take (unat len) (drop (unat off) img)), u') \<and>
    isfu_fine img u' \<and> isfu_sent u' = isfu_sent u"
proof -
  obtain f where f: "srcFile u = Some f" "is_good f" "is_bytes f = img"
    using assms(1) by (auto simp: isfu_fine_def split: option.splits)
  let ?is = "f\<lparr>is_eof := False, is_pos := unat off\<rparr>"
  have seek: "is_seekg f (unat off) = ?is" and "is_tellg ?is = uint off" and good: "is_good ?is"
    using f(2) by (simp_all add: is_seekg_def is_tellg_def is_good_def)
  then have tell: "of_int (is_tellg ?is) = off" by simp
  have "off \<le> h_session_image_size h" using assms(2,3) by (simp add: word_le_nat_alt)
  then have "unat (h_session_image_size h - off) = length img - unat off"
    using assms(2) by (simp add: unat_sub)
  moreover have "unat len \<le> length img - unat off" using assms(3) by linarith
  ultimately have mn: "min len (h_session_image_size h - off) = len"
    by (simp add: min_def word_le_nat_alt)
  have "is_read ?is (unat len) = (take (unat len) (drop (unat off) img),
      ?is\<lparr>is_pos := unat off + unat len, is_fail := False\<rparr>)"
    using good f(3) assms(3) by (simp add: is_read_def Let_def is_good_def)
  then show ?thesis
    using f assms(1,3) seek tell mn
    by (auto simp: fwUpdate_getImageChunk_def Let_def isfu_fine_def is_good_def)
qed

interpretation fu: image_source "isfu_io link_env" img isfu_sent "isfu_fine img" for img
proof
  fix s :: "link isfu" and h :: fw_host and off len :: u32
  assume "isfu_fine img s" "unat (h_session_image_size h) = length img"
    "unat off + unat len \<le> length img"
  then show "\<exists>s'. b_getImageChunk (isfu_io link_env) h off len s =
      ((int (unat len), take (unat len) (drop (unat off) img)), s') \<and>
    isfu_fine img s' \<and> isfu_sent s' = isfu_sent s"
    using isfu_get by (simp add: isfu_io_def)
next
  fix s n buf and target :: u32
  assume "isfu_fine img s"
  then show "\<exists>s'. b_writeToWire (isfu_io link_env) target buf n s = (True, s') \<and>
      isfu_fine img s' \<and> isfu_sent s' = isfu_sent s @ [take (nat n) buf]"
    using isfu_wire [of img s target buf n] by (auto simp: isfu_io_def)
qed

interpretation td: flash_device "log_app test_app" "\<lambda>(x, l). writes l" "\<lambda>(x, l). l_sent x"
  by unfold_locales
     (auto simp: test_app_def test_finishUpdate_def split: prod.splits)

lemma concat_pieces:
  assumes "0 < ch"
  shows "concat (map (piece img ch) [0..<nchunks img ch]) = img"
proof -
  have "concat (map (piece img ch) [0..<k]) = take (k * ch) img" for k
    by (induction k) (simp_all add: take_piece [simplified] take_piece)
  moreover have "length img \<le> nchunks img ch * ch"
    using assms div_mult_mod_eq [of "length img + ch - 1" ch] mod_less_divisor [of ch "length img + ch - 1"]
    unfolding nchunks_def by linarith
  ultimately show ?thesis by simp
qed

section \<open>The steps of an update\<close>

lemma sendPayload_host:
  assumes "length (h_build_buffer h) = 604" "known_data (data p)" "aux_len_of (data p) = 0"
    "isfu_fine img u"
  shows "\<exists>buf u'. fwUpdate_sendPayload_host (isfu_io link_env) p None (h, u) =
      Some (True, h\<lparr>h_build_buffer := buf\<rparr>, u') \<and> length buf = 604 \<and> isfu_fine img u' \<and>
    isfu_sent u' = isfu_sent u @ [payload_bytes p]"
proof -
  obtain buf where "fwUpdate_packPayload (h_build_buffer h) 604 p None =
      Some (int (length (payload_bytes p)), buf)" "length buf = 604"
      "take (length (payload_bytes p)) buf = payload_bytes p"
    using packPayload_plain [OF assms(2,3,1), of 604 None] by auto
  moreover obtain u' where "fwUpdate_writeToWire link_env (target_device p) buf
      (int (length (payload_bytes p))) u = (True, u')" "isfu_fine img u'"
      "isfu_sent u' = isfu_sent u @ [take (length (payload_bytes p)) buf]"
    using isfu_wire [OF assms(4), of "target_device p" buf "int (length (payload_bytes p))"] by auto
  ultimately show ?thesis
    by (auto simp: fwUpdate_sendPayload_host_def isfu_io_def FWUPDATE_MAX_PAYLOAD_SIZE_def
        FWUPDATE_MAX_CHUNK_SIZE_def)
qed

lemma isfu_fine_ext [simp]: "isfu_fine img (u\<lparr>ext := x\<rparr>) = isfu_fine img u"
  "isfu_fine img (u\<lparr>updateStartTime := t\<rparr>) = isfu_fine img u"
  "isfu_fine img (u\<lparr>nextStartAttempt := t\<rparr>) = isfu_fine img u"
  "isfu_fine img (u\<lparr>nextChunkSend := t\<rparr>) = isfu_fine img u"
  "isfu_fine img (u\<lparr>resent_chunkid_count := n, resent_chunkid_time := t\<rparr>) = isfu_fine img u"
  "isfu_fine img (u\<lparr>resent_chunkid_count := n\<rparr>) = isfu_fine img u"
  by (simp_all add: isfu_fine_def)

lemma link_clock [simp]:
  "e_current_timeMs link_env x = (l_clock x, x\<lparr>l_clock := l_clock x + 1\<rparr>)"
  "e_rand link_env x = (l_seed x, x\<lparr>l_seed := l_seed x * 1103515245 + 12345\<rparr>)"
  by (simp_all add: link_env_def)

lemma requestUpdate_sends:
  assumes "length (h_build_buffer h) = 604" "isfu_fine img u"
  shows "\<exists>h' u'. fwUpdate_requestUpdate (isfu_io link_env) target slot flags ch sz md5 rate (h, u) =
      Some (True, h', u') \<and> length (h_build_buffer h') = 604 \<and> isfu_fine img u' \<and>
    isfu_sent u' = isfu_sent u @ [payload_bytes (request_payload h')] \<and>
    h_session_target h' = target \<and> h_session_status h' = NOT_STARTED \<and>
    h_session_chunk_size h' = ch \<and> h_session_image_size h' = sz \<and> h_session_md5 h' = md5 \<and>
    h_session_image_slot h' = of_int slot"
proof -
  define h1 where "h1 = (fwUpdate_resetEngine_host h)\<lparr>h_last_message := l_clock (ext u),
      h_session_id := ucast (l_seed (ext u)), h_session_status := NOT_STARTED,
      h_session_target := target, h_session_image_slot := of_int slot,
      h_session_image_flags := of_int flags, h_session_chunk_size := ch,
      h_session_image_size := sz, h_session_progress_rate := of_int rate, h_session_md5 := md5\<rparr>"
  define u1 where "u1 = u\<lparr>ext := (ext u)\<lparr>l_clock := l_clock (ext u) + 1,
      l_seed := l_seed (ext u) * 1103515245 + 12345\<rparr>\<rparr>"
  have 1: "length (h_build_buffer h1) = 604" "isfu_fine img u1" "isfu_sent u1 = isfu_sent u"
    using assms by (simp_all add: h1_def u1_def fwUpdate_resetEngine_host_def)
  have "fwUpdate_requestUpdate (isfu_io link_env) target slot flags ch sz md5 rate (h, u) =
      fwUpdate_sendPayload_host (isfu_io link_env) (request_payload h1) None (h1, u1)"
    by (simp add: fwUpdate_requestUpdate_def isfu_io_def on_ext_def h1_def u1_def Let_def)
  moreover obtain buf u2 where "fwUpdate_sendPayload_host (isfu_io link_env) (request_payload h1)
      None (h1, u1) = Some (True, h1\<lparr>h_build_buffer := buf\<rparr>, u2)" "length buf = 604"
      "isfu_fine img u2" "isfu_sent u2 = isfu_sent u1 @ [payload_bytes (request_payload h1)]"
    using sendPayload_host [OF 1(1) _ _ 1(2), of "request_payload h1"]
    by (auto simp: request_payload_def known_data_def)
  ultimately show ?thesis
    using 1(3) by (simp add: request_payload_def) (simp add: h1_def)
qed

lemma initializeUpdate_sends:
  assumes "is_good f" "is_bytes f = img" "length img < 2 ^ 31" "length (md5_buffer stack) = 64"
    "length (h_build_buffer h) = 604" "\<not> old_firmware (remoteDevInfo u)"
  shows "\<exists>h' u'. initializeUpdate link_env errno stack g (Some f) target 0 0 ch rate (h, u) =
      Some (NOT_STARTED, h', u') \<and> length (h_build_buffer h') = 604 \<and> isfu_fine img u' \<and>
    isfu_sent u' = isfu_sent u @ [payload_bytes (request_payload h')] \<and>
    h_session_target h' = target \<and> h_session_status h' = NOT_STARTED \<and>
    h_session_chunk_size h' = of_int ch \<and> unat (h_session_image_size h') = length img \<and>
    h_session_md5 h' = md5_spec img \<and> h_session_image_slot h' = 0"
proof -
  let ?u = "u\<lparr>srcFile := Some (f\<lparr>is_pos := 0\<rparr>), updateStartTime := l_clock (ext u),
     ext := (ext u)\<lparr>l_clock := l_clock (ext u) + 1 + 1\<rparr>,
     nextStartAttempt := l_clock (ext u) + 1 + ucast (attemptInterval u)\<rparr>"
  have f: "isfu_fine img ?u" using assms by (simp add: isfu_fine_def is_good_def)
  have sz: "unat (ucast (of_nat (length img) :: u64) :: u32) = length img"
    using assms(3) by (simp add: unsigned_ucast_eq take_bit_eq_mod unat_of_nat)
  obtain h' u' where "fwUpdate_requestUpdate (isfu_io link_env) target 0 0 (of_int ch)
      (ucast (of_nat (length img) :: u64)) (md5_spec img) rate
      (h\<lparr>h_session_md5 := md5_spec img\<rparr>, ?u) = Some (True, h', u')"
      "length (h_build_buffer h') = 604" "isfu_fine img u'"
      "isfu_sent u' = isfu_sent u @ [payload_bytes (request_payload h')]"
      "h_session_target h' = target" "h_session_status h' = NOT_STARTED"
      "h_session_chunk_size h' = of_int ch"
      "h_session_image_size h' = ucast (of_nat (length img) :: u64)"
      "h_session_md5 h' = md5_spec img" "h_session_image_slot h' = of_int 0"
    using requestUpdate_sends [OF _ f, of "h\<lparr>h_session_md5 := md5_spec img\<rparr>" target 0 0 "of_int ch"
        "ucast (of_nat (length img) :: u64)" "md5_spec img" rate] assms(5) by auto
  then show ?thesis
    using md5_file_details_good [OF assms(1) _ assms(4), of errno] assms(2,3) sz
    by (simp add: initializeUpdate_def on_ext_def)
qed

abbreviation resp_message :: "u16 \<Rightarrow> u16 \<Rightarrow> u8 list" where
  "resp_message sid n \<equiv> payload_bytes \<lparr>target_device = TARGET_HOST, data = UPDATE_RESP sid n READY\<rparr>"

abbreviation done_message :: "u16 \<Rightarrow> u8 list" where
  "done_message sid \<equiv> payload_bytes \<lparr>target_device = TARGET_HOST, data = UPDATE_DONE sid FINISHED\<rparr>"

lemma processBuffer_plain:
  assumes "known_data (data p)" "wf_data (data p)" "aux_len_of (data p) = 0"
  shows "fwUpdate_processBuffer_dev app junk (payload_bytes p) w =
      fwUpdate_processMessage_dev app junk p [] w"
    and "fwUpdate_processBuffer_host io hs (payload_bytes p) w' =
      fwUpdate_processMessage_host io hs p [] w'"
  using mapBuffer_bytes [OF assms(1,2), of "[]"] known_type(3) [OF assms(1), of 0] assms(3)
  by (simp_all add: fwUpdate_processBuffer_dev_def fwUpdate_processBuffer_host_def)

lemma device_accepts_request:
  assumes d: "length (d_build_buffer d) = 604" "length (md5_buffer (d_md5Context d)) = 64"
      "d_session_target d = h_session_target h"
    and h: "h_session_chunk_size h \<noteq> 0" "unat (h_session_chunk_size h) \<le> 512"
      "unat (h_session_image_size h) = length img" "h_session_md5 h = md5_spec img"
      "h_session_image_slot h = 0"
    and img: "length img \<le> 0x800000" "nchunks img (unat (h_session_chunk_size h)) < 65536"
  shows "\<exists>d' s' l'. fwUpdate_processBuffer_dev (log_app test_app) junk
      (payload_bytes (request_payload h)) (d, s, l) = Some (True, d', s', l') \<and>
    dev_expects img (h_session_id h) (h_session_target h) (h_session_chunk_size h) 0 d' \<and>
    writes l' = [] \<and>
    resp_message (h_session_id h) (of_nat (nchunks img (unat (h_session_chunk_size h))))
      \<in> set (l_sent s')"
proof -
  let ?n = "of_nat (nchunks img (unat (h_session_chunk_size h))) :: u16"
  let ?p = "request_payload h"
  have k: "known_data (data ?p)" "wf_data (data ?p)" "aux_len_of (data ?p) = 0"
    by (simp_all add: request_payload_def known_data_def)
  have cnt: "chunk_count (h_session_image_size h) (h_session_chunk_size h) = Some ?n"
    using chunk_count_exact [of "h_session_image_size h" "h_session_chunk_size h"] h img
    by (simp add: nchunks_def)
  let ?P = "\<lambda>r d1 fl rs. r \<and> dev_expects img (h_session_id h) (h_session_target h)
      (h_session_chunk_size h) 0 d1 \<and> fl = [] \<and> resp_message (h_session_id h) ?n \<in> set rs"
  have "\<exists>r d' s' d1 rs. fwUpdate_processMessage_dev (log_app test_app) junk ?p [] (d, s, l) =
      Some (r, d', s') \<and> ?P r d1 (case s' of (x, l) \<Rightarrow> writes l) rs \<and> dev_same d1 d' \<and>
      set rs \<subseteq> set (case s' of (x, l) \<Rightarrow> l_sent x)"
  proof (rule td.processMessage_after)
    show "target_device ?p = d_session_target d" using d(3) by (simp add: request_payload_def)
    fix now and s0 :: "link \<times> fw_event list"
    obtain x0 l0 where s0: "s0 = (x0, l0)" by fastforce
    define q where "q = (case data ?p of REQ_UPDATE q \<Rightarrow> q)"
    have q: "data ?p = REQ_UPDATE q" "ru_session_id q = h_session_id h" "ru_file_size q = h_session_image_size h"
      "ru_chunk_size q = h_session_chunk_size h" "ru_md5_hash q = md5_spec img" "ru_image_slot q = 0"
      using h by (simp_all add: request_payload_def q_def)
    have st: "test_startUpdate ?p = READY"
      using h(2,3) img(1) q by (simp add: test_startUpdate_def FWUPDATE_MAX_CHUNK_SIZE_def word_less_nat_alt)
    define d2 where "d2 = (fwUpdate_resetEngine_dev (d\<lparr>d_last_message := now\<rparr>))\<lparr>
      d_session_status := READY, d_session_id := h_session_id h,
      d_session_image_size := h_session_image_size h, d_session_chunk_size := h_session_chunk_size h,
      d_session_image_slot := ru_image_slot q, d_session_image_flags := ru_image_flags q,
      d_session_total_chunks := ?n, d_session_md5 := md5_spec img\<rparr>"
    have ex: "dev_expects img (h_session_id h) (h_session_target h) (h_session_chunk_size h) 0 d2"
      using d h img md5_init_rep [OF d(2)]
      by (simp add: dev_expects_def d2_def fwUpdate_resetEngine_dev_def unat_of_nat)
    then have "length (d_build_buffer d2) = 604" by (simp add: dev_expects_def)
    then obtain r d1 x1 l1 where 1: "fwUpdate_sendPayload_dev (log_app test_app)
        \<lparr>target_device = TARGET_HOST, data = UPDATE_RESP (h_session_id h) ?n READY\<rparr> None
        (d2, x0, EvStart q READY # l0) = Some (r, d1, x1, l1)" "dev_same d2 d1"
        "writes l1 = []" "l_sent x1 = l_sent x0 @ [resp_message (h_session_id h) ?n]"
      using td.sendPayload [of d2 "\<lparr>target_device = TARGET_HOST,
          data = UPDATE_RESP (h_session_id h) ?n READY\<rparr>" "(x0, EvStart q READY # l0)"]
      by (auto simp: known_data_def)
    let ?d = "d\<lparr>d_last_message := now\<rparr>"
    have rs: "fwUpdate_resetEngine_dev (if c then ?d\<lparr>d_session_status := e\<rparr> else ?d) =
        fwUpdate_resetEngine_dev ?d" for c e by simp
    have "a_startUpdate (log_app test_app) (fwUpdate_resetEngine_dev ?d) ?p (x0, l0) =
        (READY, x0, EvStart q READY # l0)" using st q(1) by (simp add: test_app_def)
    then have "fwUpdate_dispatch_dev (log_app test_app) junk ?p [] (?d, s0) = Some (r, d1, x1, l1)"
      using 1(1) cnt q(2-5) unfolding fwUpdate_dispatch_dev_def fwUpdate_handleInitialize_def q(1)
      by (simp add: s0 d2_def Let_def rs)
    moreover have r unfolding s0 using 1(1)
      by (auto simp: fwUpdate_sendPayload_dev_def bind_eq_Some_conv test_app_def)
    ultimately show "\<exists>r d1 s1. fwUpdate_dispatch_dev (log_app test_app) junk ?p []
        (d\<lparr>d_last_message := now\<rparr>, s0) = Some (r, d1, s1) \<and> length (d_build_buffer d1) = 604 \<and>
        ?P r d1 (case s1 of (x, l) \<Rightarrow> writes l) (case s1 of (x, l) \<Rightarrow> l_sent x)"
      using 1 dev_expects_same [OF 1(2) ex] by (auto simp: dev_same_def)
  qed
  then show ?thesis
    using dev_expects_same unfolding processBuffer_plain(1) [OF k] by fastforce
qed


lemma host_accepts_response:
  assumes h: "length (h_build_buffer h) = 604" "h_session_chunk_size h \<noteq> 0"
      "unat (h_session_chunk_size h) \<le> 590" "unat (h_session_image_size h) = length img"
      "h_session_status h = NOT_STARTED" "h_session_target h AND TARGET_DFU_FLAG = 0"
    and img: "length img < 2 ^ 31" "nchunks img (unat (h_session_chunk_size h)) < 65536"
    and u: "isfu_fine img u"
  shows "\<exists>h' u'. fwUpdate_processBuffer_host (isfu_io link_env) (isfu_handlers link_env)
      (resp_message (h_session_id h) (of_nat (nchunks img (unat (h_session_chunk_size h))))) (h, u) =
      Some (True, h', u') \<and> host_ready img h' \<and> h_next_chunk_id h' = 0 \<and>
    h_session_id h' = h_session_id h \<and> h_session_target h' = h_session_target h \<and>
    h_session_chunk_size h' = h_session_chunk_size h \<and> isfu_fine img u' \<and>
    isfu_sent u' = isfu_sent u"
proof -
  let ?n = "of_nat (nchunks img (unat (h_session_chunk_size h))) :: u16"
  let ?p = "\<lparr>target_device = TARGET_HOST, data = UPDATE_RESP (h_session_id h) ?n READY\<rparr>"
  have k: "known_data (data ?p)" "wf_data (data ?p)" "aux_len_of (data ?p) = 0"
    by (simp_all add: known_data_def int16_def)
  show ?thesis
    unfolding processBuffer_plain(2) [OF k]
    using assms
    by (simp add: fwUpdate_processMessage_host_def isfu_handlers_def isfu_io_def on_ext_def
        fwUpdate_handleUpdateResponse_def fatal_status_def host_ready_def unat_of_nat)
qed

lemma host_finishes:
  "\<exists>h' u'. fwUpdate_processBuffer_host (isfu_io link_env) (isfu_handlers link_env)
      (done_message (h_session_id h)) (h, u) = Some (True, h', u') \<and>
    h_session_status h' = FINISHED"
proof -
  let ?p = "\<lparr>target_device = TARGET_HOST, data = UPDATE_DONE (h_session_id h) FINISHED\<rparr>"
  have k: "known_data (data ?p)" "wf_data (data ?p)" "aux_len_of (data ?p) = 0"
    by (simp_all add: known_data_def int16_def)
  show ?thesis
    unfolding processBuffer_plain(2) [OF k]
    by (simp add: fwUpdate_processMessage_host_def isfu_handlers_def isfu_io_def on_ext_def
        fwUpdate_handleDone_def)
qed

lemma isfu_time: "b_current_timeMs (isfu_io env) = on_ext (e_current_timeMs env)"
  by (simp add: isfu_io_def)

lemma host_resends:
  assumes h: "host_ready img h" "i < nchunks img (unat (h_session_chunk_size h))"
    and u: "isfu_fine img u" "of_nat i \<noteq> last_resent_chunk u \<or> resent_chunkid_count u < 10"
  shows "\<exists>r h' u'. fwUpdate_processBuffer_host (isfu_io link_env) (isfu_handlers link_env)
      (payload_bytes \<lparr>target_device = TARGET_HOST,
        data = REQ_RESEND_CHUNK (h_session_id h) (of_nat i) REASON_INVALID_SEQID\<rparr>) (h, u) =
      Some (r, h', u') \<and> host_ready img h' \<and> h_next_chunk_id h' = of_nat (Suc i) \<and>
    isfu_sent u' = isfu_sent u @ [host_message img h i]"
proof -
  let ?p = "\<lparr>target_device = TARGET_HOST,
      data = REQ_RESEND_CHUNK (h_session_id h) (of_nat i) REASON_INVALID_SEQID\<rparr>"
  have k: "known_data (data ?p)" "wf_data (data ?p)" "aux_len_of (data ?p) = 0"
    by (simp_all add: known_data_def int16_def)
  define h1 where "h1 = h\<lparr>h_last_message := l_clock (ext u),
      h_resend_count := h_resend_count h + of_int (int (unat (h_next_chunk_id h)) - int (unat (of_nat i :: u16))),
      h_next_chunk_id := of_nat i\<rparr>"
  have h1: "host_ready img h1" "h_next_chunk_id h1 = of_nat i"
    "h_session_chunk_size h1 = h_session_chunk_size h" "host_message img h1 i = host_message img h i"
    using h(1) by (simp_all add: h1_def host_ready_def)
  define x where "x = (ext u)\<lparr>l_clock := l_clock (ext u) + 1 + 1 + 1\<rparr>"
  define c where "c = (if of_nat i = last_resent_chunk u then resent_chunkid_count u + 1 else 0)"
  define t where "t = (if of_nat i = last_resent_chunk u then resent_chunkid_time u else l_clock (ext u) + 1)"
  define u1 where "u1 = u\<lparr>resent_chunkid_count := c, resent_chunkid_time := t, ext := x,
      nextChunkSend := l_clock (ext u) + 1 + 1 + ucast (nextChunkDelay u)\<rparr>"
  have c10: "\<not> (of_nat i = last_resent_chunk u \<and> resent_chunkid_count u + 1 > 10)"
  proof
    assume a: "of_nat i = last_resent_chunk u \<and> resent_chunkid_count u + 1 > 10"
    then have "unat (resent_chunkid_count u) < 10" using u(2) by (simp add: word_less_nat_alt)
    moreover have "10 < unat (resent_chunkid_count u + 1)" using a by (simp add: word_less_nat_alt)
    moreover have "unat (resent_chunkid_count u + 1) \<le> unat (resent_chunkid_count u) + 1"
      by (simp add: unat_word_ariths)
    ultimately show False by simp
  qed
  have f1: "isfu_fine img u1" "isfu_sent u1 = isfu_sent u" using u(1) by (simp_all add: u1_def x_def isfu_fine_def)
  obtain r h2 u2 where "fwUpdate_sendNextChunk (isfu_io link_env) (h1, u1) = Some (r, h2, u2)"
      "host_ready img h2" "h_next_chunk_id h2 = of_nat (Suc i)"
      "isfu_sent u2 = isfu_sent u1 @ [host_message img h1 i]"
    using fu.sendNextChunk [OF h1(1) f1(1) h1(2)] h(2) h1(3) by auto
  moreover have "fwUpdate_processMessage_host (isfu_io link_env) (isfu_handlers link_env) ?p [] (h, u) =
      do { (r, w) \<leftarrow> fwUpdate_sendNextChunk (isfu_io link_env) (h1, u1); Some (r \<noteq> 0, w) }"
    using c10
    by (cases "of_nat i = last_resent_chunk u")
       (auto simp: fwUpdate_processMessage_host_def isfu_handlers_def isfu_time on_ext_def
        fwUpdate_handleResendChunk_def h1_def u1_def x_def c_def t_def Let_def)
  ultimately show ?thesis
    unfolding processBuffer_plain(2) [OF k] using h1(4) f1(2) by auto
qed

section \<open>A complete update\<close>

text \<open>C2: A complete update reaches the flash. The host opens a file and calls
  \<open>initializeUpdate\<close>; the device answers the request, the host takes the answer and sends
  every chunk, the device receives them in order. Then every byte of the file has been written,
  each chunk at its offset, the device checked the MD5 and finished, and the message it sends makes
  the host finish too. The statement runs the code of both sides on the raw buffers, for
  every file of up to 8 MiB (the limit of the device of the unit test), every chunk size up to
  \<open>FWUPDATE_MAX_CHUNK_SIZE\<close> that needs fewer than \<open>2^16\<close> chunks, and every earlier state
  of the device.\<close>

theorem firmware_update_delivers:
  assumes f: "is_good f" "is_bytes f = img" "img \<noteq> []" "length img \<le> 0x800000"
    and ch: "0 < ch" "ch \<le> 512" "nchunks img (nat ch) < 65536"
    and h: "length (h_build_buffer h) = 604" "length (md5_buffer stack) = 64"
      "\<not> old_firmware (remoteDevInfo u)" "target AND TARGET_DFU_FLAG = 0"
    and d: "length (d_build_buffer d) = 604" "length (md5_buffer (d_md5Context d)) = 64"
      "d_session_target d = target"
  shows "\<exists>h1 u1 req d1 s1 l1 resp h2 u2 h3 u3 chunks d2 s2 l2 finish h4 u4.
    initializeUpdate link_env errno stack g (Some f) target 0 0 ch rate (h, u) =
      Some (NOT_STARTED, h1, u1) \<and> isfu_sent u1 = isfu_sent u @ [req] \<and>
    fwUpdate_processBuffer_dev (log_app test_app) junk req (d, s, l) = Some (True, d1, s1, l1) \<and>
    resp \<in> set (l_sent s1) \<and>
    fwUpdate_processBuffer_host (isfu_io link_env) (isfu_handlers link_env) resp (h1, u1) =
      Some (True, h2, u2) \<and>
    send_chunks (isfu_io link_env) (nchunks img (nat ch)) (h2, u2) = Some (h3, u3) \<and>
    isfu_sent u3 = isfu_sent u1 @ chunks \<and>
    deliver (log_app test_app) junk chunks (d1, s1, l1) = Some (d2, s2, l2) \<and>
    d_session_status d2 = FINISHED \<and> image_of l2 = img \<and>
    map fst (writes l2) = map (\<lambda>i. i * nat ch) [0..<nchunks img (nat ch)] \<and>
    finish \<in> set (l_sent s2) \<and>
    fwUpdate_processBuffer_host (isfu_io link_env) (isfu_handlers link_env) finish (h3, u3) =
      Some (True, h4, u4) \<and> h_session_status h4 = FINISHED"
proof -
  have c1: "unat (of_int ch :: u16) = nat ch"
    using ch(1,2) by (cases ch) (simp_all add: unat_of_nat)
  then have c: "unat (of_int ch :: u16) = nat ch" "(of_int ch :: u16) \<noteq> 0"
    using ch(1) by auto
  have m: "length img < 2 ^ 31" and c512: "nat ch \<le> 512" using f(4) ch(2) by simp_all
  obtain h1 u1 where 1: "initializeUpdate link_env errno stack g (Some f) target 0 0 ch rate (h, u) =
      Some (NOT_STARTED, h1, u1)" "length (h_build_buffer h1) = 604" "isfu_fine img u1"
      "isfu_sent u1 = isfu_sent u @ [payload_bytes (request_payload h1)]"
      "h_session_target h1 = target" "h_session_status h1 = NOT_STARTED"
      "h_session_chunk_size h1 = of_int ch" "unat (h_session_image_size h1) = length img"
      "h_session_md5 h1 = md5_spec img" "h_session_image_slot h1 = 0"
    using initializeUpdate_sends [OF f(1,2) m h(2,1,3)] by blast
  obtain d1 s1 l1 where 2: "fwUpdate_processBuffer_dev (log_app test_app) junk
      (payload_bytes (request_payload h1)) (d, s, l) = Some (True, d1, s1, l1)"
      "dev_expects img (h_session_id h1) target (of_int ch) 0 d1" "writes l1 = []"
      "resp_message (h_session_id h1) (of_nat (nchunks img (nat ch))) \<in> set (l_sent s1)"
    using device_accepts_request [OF d(1,2), of h1 img junk s l] 1 c ch(3) c512 d(3) f(4) by auto
  obtain h2 u2 where 3: "fwUpdate_processBuffer_host (isfu_io link_env) (isfu_handlers link_env)
      (resp_message (h_session_id h1) (of_nat (nchunks img (nat ch)))) (h1, u1) = Some (True, h2, u2)"
      "host_ready img h2" "h_next_chunk_id h2 = of_nat 0" "h_session_id h2 = h_session_id h1"
      "h_session_target h2 = target" "h_session_chunk_size h2 = of_int ch" "isfu_fine img u2"
      "isfu_sent u2 = isfu_sent u1"
    using host_accepts_response [of h1 img u1] 1 c ch(3) c512 h(4) m by auto
  obtain h3 u3 where 4: "send_chunks (isfu_io link_env) (nchunks img (nat ch)) (h2, u2) = Some (h3, u3)"
      "host_core h3 = host_core h2"
      "isfu_sent u3 = isfu_sent u2 @ map (host_message img h2) [0..<nchunks img (nat ch)]"
    using fu.send_all [OF 3(2,7,3), of "nchunks img (nat ch)"] 3(6) c by auto
  have "0 < nchunks img (nat ch)"
    using f(3) ch(1) by (cases img) (simp_all add: nchunks_def div_greater_zero_iff)
  then obtain d2 s2 l2 where 5: "deliver (log_app test_app) junk
      (map (chunk_message (h_session_id h1) target img (nat ch)) [0..<nchunks img (nat ch)])
      (d1, s1, l1) = Some (d2, s2, l2)" "d_session_status d2 = FINISHED"
      "writes l2 = map (\<lambda>j. (j * nat ch, piece img (nat ch) j)) [0..<nchunks img (nat ch)]"
      "done_message (h_session_id h1) \<in> set (l_sent s2)"
    using td.deliver_image [OF 2(2), of junk "(s1, l1)"] c 2(3) by auto
  have img: "image_of l2 = img"
    using concat_pieces [of "nat ch" img] ch(1) 5(3) by (simp add: image_of_def comp_def)
  obtain h4 u4 where 6: "fwUpdate_processBuffer_host (isfu_io link_env) (isfu_handlers link_env)
      (done_message (h_session_id h1)) (h3, u3) = Some (True, h4, u4)" "h_session_status h4 = FINISHED"
    using host_finishes [of h3 u3] 4(2) 3(4) by (auto simp: host_core_def)
  have ms: "isfu_sent u3 = isfu_sent u1 @
      map (chunk_message (h_session_id h1) target img (nat ch)) [0..<nchunks img (nat ch)]"
    using 4(3) 3(4,5,6,8) c by simp
  have fst: "map fst (writes l2) = map (\<lambda>i. i * nat ch) [0..<nchunks img (nat ch)]"
    using 5(3) by simp
  show ?thesis
    using 1(1,4) 2(1,4) 3(1) 4(1) ms 5(1,2,4) img fst 6 by blast
qed

definition demo_device :: fw_dev where
  "demo_device = FirmwareUpdateDevice (replicate 604 0) TARGET_IMX5"

definition demo_host :: "fw_host \<times> link isfu" where
  "demo_host = (FirmwareUpdateHost (replicate 604 0),
     ISFirmwareUpdater 0 \<lparr>l_clock = 1000, l_seed = 77, l_sent = []\<rparr>)"

definition demo_junk :: stack_junk where
  "demo_junk = \<lparr>j_target = 0, j_status = 0, j_reserved = 0, j_buildHash = 0\<rparr>"

definition demo_file :: istream where
  "demo_file = \<lparr>is_bytes = [1, 2, 3, 4, 5], is_pos = 0, is_eof = False, is_fail = False\<rparr>"

section \<open>What a finished update means on the device\<close>

lemma length_image_of: "length (image_of l) = sum_list (map (\<lambda>x. length (snd x)) (writes l))"
  by (simp add: image_of_def length_concat comp_def)

lemma chunk_lens:
  assumes "0 < unat (ru_file_size q)" "unat (ru_file_size q) < 2 ^ 24" "ru_chunk_size q \<noteq> 0"
    "(unat (ru_file_size q) + unat (ru_chunk_size q) - 1) div unat (ru_chunk_size q) < 65536"
  shows "sum_list (map (chunk_len q) [0..<chunks_of q]) = unat (ru_file_size q)"
proof -
  let ?img = "replicate (unat (ru_file_size q)) (0 :: u8)" and ?ch = "unat (ru_chunk_size q)"
  let ?n = "nchunks ?img ?ch"
  have ch: "0 < ?ch" using assms(3) by (simp add: unat_gt_0)
  have n: "?n < 65536" using assms(4) by (simp add: nchunks_def)
  then have nu: "unat (of_nat ?n :: u16) = ?n" by (simp add: unat_of_nat)
  have "0 < ?n" using assms(1) ch by (simp add: nchunks_def div_greater_zero_iff)
  moreover have cnt: "chunk_count (ru_file_size q) (ru_chunk_size q) = Some (of_nat ?n)"
    using chunk_count_exact [of "ru_file_size q" "ru_chunk_size q"] assms by (simp add: nchunks_def)
  ultimately have cs: "chunks_of q = ?n" using nu by (simp add: chunks_of_def)
  have "map (chunk_len q) [0..<?n] = map (\<lambda>i. length (piece ?img ?ch i)) [0..<?n]"
    using expected_piece [of "ru_file_size q" ?img "ru_chunk_size q" _ "of_nat ?n"] cnt nu assms(3)
    by (simp add: chunk_len_def)
  also have "sum_list \<dots> = length (concat (map (piece ?img ?ch) [0..<?n]))"
    by (simp add: length_concat comp_def)
  finally show ?thesis using concat_pieces [OF ch, of ?img] cs by simp
qed

text \<open>C6: What finishing means on the device, whatever raw buffers it received since it was
  constructed and whatever its application answers. When the code calls
  \<open>fwUpdate_finishUpdate\<close> under an accepted request, at least the announced number of
  chunks has been written since that request; and unless the host went on after the end, every chunk
  went to its offset with its length, the MD5 of the data written is the MD5 of the request, and
  the amount of data is the announced file size (where the count of chunks is exact).\<close>

theorem dev_finish_safe:
  assumes "dev_reachable (log_app app) (FirmwareUpdateDevice buf tid, s0, []) (d, s, post @ EvFinish r # pre)"
    "session_req pre = Some q"
  shows "chunks_of q \<le> length (writes pre) \<and>
    (length (writes pre) = chunks_of q \<longrightarrow>
      md5_spec (image_of pre) = ru_md5_hash q \<and>
      (\<forall>i < chunks_of q. fst (writes pre ! i) = i * unat (ru_chunk_size q) \<and>
         length (snd (writes pre ! i)) = chunk_len q i) \<and>
      (0 < unat (ru_file_size q) \<and> unat (ru_file_size q) < 2 ^ 24 \<and> ru_chunk_size q \<noteq> 0 \<and>
       (unat (ru_file_size q) + unat (ru_chunk_size q) - 1) div unat (ru_chunk_size q) < 65536 \<longrightarrow>
         length (image_of pre) = unat (ru_file_size q)))"
proof -
  have "safe_log (post @ EvFinish r # pre)"
    using dev_reachable_inv [OF assms(1)] by (simp add: dev_inv_def)
  then have safe: "safe_log pre" "safe_event (EvFinish r) pre q"
    using safe_log_split assms(2) by blast+
  have w: "length (writes pre) = chunks_of q \<Longrightarrow> i < chunks_of q \<Longrightarrow>
      fst (writes pre ! i) = i * unat (ru_chunk_size q) \<and>
      length (snd (writes pre ! i)) = chunk_len q i" for i
    using safe_log_writes [OF safe(1) assms(2)] by simp
  then have "length (writes pre) = chunks_of q \<Longrightarrow>
      map (\<lambda>x. length (snd x)) (writes pre) = map (chunk_len q) [0..<chunks_of q]"
    by (intro nth_equalityI) simp_all
  then show ?thesis
    using safe(2) w chunk_lens [of q] by (simp add: length_image_of)
qed

text \<open>The log after a message, for the example.\<close>

lemma processMessage_dev_log:
  assumes "fwUpdate_processMessage_dev (log_app app) junk p aux (d, s, l) = Some (r, d', s', l')"
    "target_device p = d_session_target d"
  shows "\<exists>now s0 r1 d1 s1. fwUpdate_dispatch_dev (log_app app) junk p aux
    (d\<lparr>d_last_message := now\<rparr>, s0, l) = Some (r1, d1, s1, l')"
proof -
  obtain now s0 where now: "a_current_timeMs app s = (now, s0)" by fastforce
  obtain r1 d1 s1 l1 where d1: "fwUpdate_dispatch_dev (log_app app) junk p aux
      (d\<lparr>d_last_message := now\<rparr>, s0, l) = Some (r1, d1, s1, l1)"
    using assms now by (auto simp: fwUpdate_processMessage_dev_def bind_eq_Some_conv)
  have "l' = l1"
    using assms now d1
    by (auto simp: fwUpdate_processMessage_dev_def Let_def bind_eq_Some_conv silent_def
        split: if_splits prod.splits dest!: sendProgress_core)
  then show ?thesis using d1 by blast
qed

lemma handleInitialize_log:
  assumes "fwUpdate_handleInitialize (log_app app) p (d, s, l) = Some (r, d', s', l')" "data p = REQ_UPDATE q"
  shows "\<exists>st d0 s0. st = fst (a_startUpdate app d0 p s0) \<and> l' = EvStart q st # l"
proof -
  obtain st s1 where st: "a_startUpdate app (fwUpdate_resetEngine_dev d) p s = (st, s1)" by fastforce
  have "l' = EvStart q st # l"
    using assms st unfolding fwUpdate_handleInitialize_def assms(2)
    by (auto simp: assms(2) Let_def bind_eq_Some_conv silent_def split: if_splits dest!: sendPayload_dev_core)
  then show ?thesis using st by (metis fst_conv)
qed

lemma chunk_complete_log:
  assumes "fwUpdate_chunk_complete (log_app app) (d, s, l) = Some (r, d', s', l')"
    "md5_final (d_md5Context d) = Some (ctx, d_session_md5 d)"
  shows "\<exists>e. l' = EvFinish e # l"
  using assms
  by (auto simp: fwUpdate_chunk_complete_def Let_def bind_eq_Some_conv silent_def dev_core_def
      split: if_splits prod.splits dest!: sendProgress_core sendDone_core)

text \<open>A host that asks for an image of three bytes in one chunk, and the device that receives both
  messages.\<close>

definition demo_asking :: fw_host where
  "demo_asking = (FirmwareUpdateHost (replicate 604 0))\<lparr>h_session_target := TARGET_IMX5,
     h_session_id := 77, h_session_chunk_size := 8, h_session_image_size := 3,
     h_session_md5 := md5_spec [1, 2, 3]\<rparr>"

definition demo_req :: req_update_t where
  "demo_req = (case data (request_payload demo_asking) of REQ_UPDATE q \<Rightarrow> q)"

lemma demo_req: "data (request_payload demo_asking) = REQ_UPDATE demo_req" "ru_file_size demo_req = 3"
  "ru_chunk_size demo_req = 8" "ru_md5_hash demo_req = md5_spec [1, 2, 3]"
  "target_device (request_payload demo_asking) = TARGET_IMX5"
  by (simp_all add: demo_req_def request_payload_def demo_asking_def)

lemma demo_finish:
  "\<exists>d s e r. dev_reachable (log_app test_app) (demo_device, s0, [])
     (d, s, [EvFinish e, EvWrite 0 [1, 2, 3] r, EvStart demo_req READY]) \<and> \<not> r < NOT_STARTED"
proof -
  have n: "nchunks [1, 2, 3 :: u8] (unat (h_session_chunk_size demo_asking)) = 1"
    "piece [1, 2, 3 :: u8] 8 0 = [1, 2, 3]" "nchunks [1, 2, 3 :: u8] 8 = 1"
    by (simp_all add: demo_asking_def nchunks_def piece_def)
  obtain d1 s1 l1 where 1: "fwUpdate_processBuffer_dev (log_app test_app) junk
      (payload_bytes (request_payload demo_asking)) (demo_device, s0, []) = Some (True, d1, s1, l1)"
      "dev_expects [1, 2, 3] 77 TARGET_IMX5 8 0 d1"
    using device_accepts_request [of demo_device demo_asking "[1, 2, 3]" junk s0 "[]"] n
    by (auto simp: demo_device_def demo_asking_def FirmwareUpdateDevice_def
        FirmwareUpdateHost_def fwUpdate_resetEngine_dev_def md5_init_def)
  have k: "known_data (data (request_payload demo_asking))" "wf_data (data (request_payload demo_asking))"
    "aux_len_of (data (request_payload demo_asking)) = 0"
    by (simp_all add: request_payload_def known_data_def)
  have t: "target_device (request_payload demo_asking) = d_session_target demo_device"
    by (simp add: request_payload_def demo_asking_def demo_device_def FirmwareUpdateDevice_def
        fwUpdate_resetEngine_dev_def)
  obtain now x0 r1 d1' s1' where "fwUpdate_handleInitialize (log_app test_app) (request_payload demo_asking)
      (demo_device\<lparr>d_last_message := now\<rparr>, x0, []) = Some (r1, d1', s1', l1)"
    using processMessage_dev_log [OF 1(1) [unfolded processBuffer_plain(1) [OF k]] t]
    by (auto simp: fwUpdate_dispatch_dev_def demo_req(1))
  from handleInitialize_log [OF this demo_req(1)] have l1: "l1 = [EvStart demo_req READY]"
    by (auto simp: test_app_def test_startUpdate_def request_payload_def demo_asking_def
        FirmwareUpdateHost_def FWUPDATE_MAX_CHUNK_SIZE_def word_less_nat_alt)
  have u8: "unat (8 :: u16) = 8" by simp
  obtain d2 s2 l2 where 2: "fwUpdate_processBuffer_dev (log_app test_app) junk
      (chunk_message 77 TARGET_IMX5 [1, 2, 3] 8 0) (d1, s1, l1) = Some (True, d2, s2, l2)"
    using td.processBuffer_chunk [OF 1(2), of junk "(s1, l1)"] n by auto
  let ?m = "\<lparr>target_device = TARGET_IMX5, data = UPDATE_CHUNK 77 0 3\<rparr>"
  have pm: "fwUpdate_processMessage_dev (log_app test_app) junk ?m [1, 2, 3] (d1, s1, l1) = Some (True, d2, s2, l2)"
    using 2 td.chunk_message_map [of "[1, 2, 3]" 8 0 77 TARGET_IMX5] n(2)
    by (simp add: fwUpdate_processBuffer_dev_def)
  have tm: "target_device ?m = d_session_target d1" using 1(2) by (simp add: dev_expects_def)
  obtain now x r2 d2' s2' where "fwUpdate_dispatch_dev (log_app test_app) junk ?m [1, 2, 3]
      (d1\<lparr>d_last_message := now\<rparr>, x, l1) = Some (r2, d2', s2', l2)"
    using processMessage_dev_log [OF pm tm] by (elim exE) (rule that)
  then have run: "fwUpdate_handleChunk (log_app test_app) ?m [1, 2, 3]
      (d1\<lparr>d_last_message := now\<rparr>, x, l1) = Some (r2, d2', s2', l2)"
    unfolding fwUpdate_dispatch_dev_def payload_t.simps msg_data_t.case .
  have "dev_expects [1, 2, 3] 77 TARGET_IMX5 8 0 (d1\<lparr>d_last_message := now\<rparr>)" using 1(2) by (simp add: dev_expects_def)
  from td.handleChunk_run [OF this, of "(x, l1)"] n obtain s3 ctx where w:
    "a_writeImageChunk (log_app test_app) (d1\<lparr>d_last_message := now\<rparr>) TARGET_IMX5
       (d_session_image_slot d1) 0 [1, 2, 3] (x, l1) = s3" "md5_rep ctx [1, 2, 3]"
    "fwUpdate_handleChunk (log_app test_app) ?m [1, 2, 3] (d1\<lparr>d_last_message := now\<rparr>, x, l1) =
       fwUpdate_chunk_complete (log_app test_app) (d1\<lparr>d_last_message := now, d_session_status := IN_PROGRESS,
         d_last_chunk_id := 0, d_md5Context := ctx\<rparr>, snd s3)"
    by auto
  have s3: "snd s3 = (x, EvWrite 0 [1, 2, 3] IN_PROGRESS # l1)" using w(1) by (auto simp: test_app_def)
  obtain ctx2 where "md5_final ctx = Some (ctx2, d_session_md5 d1)"
    using md5_final_rep [OF w(2)] 1(2) by (auto simp: dev_expects_def)
  then have "\<exists>e. l2 = EvFinish e # EvWrite 0 [1, 2, 3] IN_PROGRESS # l1"
    using chunk_complete_log [of test_app _ x "EvWrite 0 [1, 2, 3] IN_PROGRESS # l1" r2 d2' s2' l2 ctx2]
      run unfolding w(3) s3 by auto
  moreover have "dev_reachable (log_app test_app) (demo_device, s0, []) (d2, s2, l2)"
    using dev_reachable.recv [OF dev_reachable.recv [OF dev_reachable.init 1(1)] 2] .
  moreover have "\<not> (IN_PROGRESS :: int) < NOT_STARTED" by simp
  ultimately show ?thesis using l1 by blast
qed

theorem dev_finish_safe_witness:
  "\<exists>d s post e pre q. dev_reachable (log_app test_app) (demo_device, \<lparr>l_clock = 0, l_seed = 0, l_sent = []\<rparr>, [])
       (d, s, post @ EvFinish e # pre) \<and>
     session_req pre = Some q \<and> chunks_of q \<le> length (writes pre) \<and> image_of pre = [1, 2, 3] \<and>
     md5_spec [1, 2, 3] = ru_md5_hash q \<and> length [1, 2, 3 :: u8] = unat (ru_file_size q)"
proof -
  obtain d s e r where r: "dev_reachable (log_app test_app) (demo_device, \<lparr>l_clock = 0, l_seed = 0, l_sent = []\<rparr>, [])
      (d, s, [] @ EvFinish e # [EvWrite 0 [1, 2, 3] r, EvStart demo_req READY])" "\<not> r < NOT_STARTED"
    using demo_finish [of "\<lparr>l_clock = 0, l_seed = 0, l_sent = []\<rparr>"] by auto
  let ?pre = "[EvWrite 0 [1, 2, 3] r, EvStart demo_req READY]"
  have p: "session_req ?pre = Some demo_req" "image_of ?pre = [1, 2, 3]" "length (writes ?pre) = 1"
    using r(2) by (simp_all add: image_of_def)
  have "chunks_of demo_req = 1"
    using chunk_count_exact [of 3 8] by (simp add: chunks_of_def demo_req)
  then have f: "chunks_of demo_req \<le> length (writes ?pre)" "md5_spec (image_of ?pre) = ru_md5_hash demo_req"
    "length (image_of ?pre) = unat (ru_file_size demo_req)"
    using dev_finish_safe [OF r(1) [unfolded demo_device_def] p(1)] p(3) demo_req(2,3)
    by (auto simp del: writes.simps)
  show ?thesis
    by (intro exI [of _ d] exI [of _ s] exI [of _ "[]"] exI [of _ e] exI [of _ ?pre] exI [of _ demo_req] conjI)
      (use r(1) p f in \<open>simp_all del: writes.simps\<close>)
qed

text \<open>The complete update at a concrete input: an image of five bytes in chunks of two.\<close>

theorem firmware_update_delivers_witness:
  "\<exists>h1 u1 d1 s1 l1 h2 u2 h3 u3 d2 s2 l2 req resp chunks.
    initializeUpdate link_env 0 (md5_init (d_md5Context demo_device)) (Md5Hash 0 0 0 0)
      (Some demo_file) TARGET_IMX5 0 0 2 0 demo_host = Some (NOT_STARTED, h1, u1) \<and>
    isfu_sent u1 = [req] \<and>
    fwUpdate_processBuffer_dev (log_app test_app) demo_junk req
      (demo_device, \<lparr>l_clock = 0, l_seed = 0, l_sent = []\<rparr>, []) = Some (True, d1, s1, l1) \<and>
    resp \<in> set (l_sent s1) \<and>
    fwUpdate_processBuffer_host (isfu_io link_env) (isfu_handlers link_env) resp (h1, u1) =
      Some (True, h2, u2) \<and>
    send_chunks (isfu_io link_env) 3 (h2, u2) = Some (h3, u3) \<and>
    isfu_sent u3 = isfu_sent u1 @ chunks \<and>
    deliver (log_app test_app) demo_junk chunks (d1, s1, l1) = Some (d2, s2, l2) \<and>
    d_session_status d2 = FINISHED \<and> image_of l2 = [1, 2, 3, 4, 5]"
proof -
  obtain h u where w: "demo_host = (h, u)" by fastforce
  have f: "is_good demo_file" "is_bytes demo_file = [1, 2, 3, 4, 5]" "[1, 2, 3, 4, 5 :: u8] \<noteq> []"
    "length [1, 2, 3, 4, 5 :: u8] \<le> 0x800000"
    by (simp_all add: demo_file_def is_good_def)
  have c: "(0 :: int) < 2" "(2 :: int) \<le> 512" "nchunks [1, 2, 3, 4, 5 :: u8] (nat 2) < 65536"
    "nchunks [1, 2, 3, 4, 5 :: u8] (nat 2) = 3"
    by (simp_all add: nchunks_def)
  have h: "length (h_build_buffer h) = 604" "\<not> old_firmware (remoteDevInfo u)" "isfu_sent u = []"
    using w by (auto simp: demo_host_def FirmwareUpdateHost_def ISFirmwareUpdater_def dev_info_zero_def
        old_firmware_def)
  have d: "length (md5_buffer (md5_init (d_md5Context demo_device))) = 64"
    "length (d_build_buffer demo_device) = 604" "length (md5_buffer (d_md5Context demo_device)) = 64"
    "d_session_target demo_device = TARGET_IMX5" "TARGET_IMX5 AND TARGET_DFU_FLAG = 0"
    by (simp_all add: demo_device_def FirmwareUpdateDevice_def fwUpdate_resetEngine_dev_def)
  show ?thesis
    using firmware_update_delivers [OF f c(1-3) h(1) d(1) h(2) d(5,2-4), of 0 "Md5Hash 0 0 0 0" 0 demo_junk
        "\<lparr>l_clock = 0, l_seed = 0, l_sent = []\<rparr>" "[]"]
    unfolding w c(4) h(3) append_Nil by blast
qed

section \<open>Recovery\<close>

text \<open>C9: A chunk out of order is recovered. A device in session that expects chunk \<open>i\<close> and
  receives chunk \<open>j\<close> instead (one was lost, repeated or overtaken) writes nothing, keeps its
  state and asks for chunk \<open>i\<close>. The host, given that message, sends chunk \<open>i\<close> again, unless that is the
  chunk in \<open>last_resent_chunk\<close> and it counted ten requests for it already, goes on from there, and the device accepts it: the
  bytes of chunk \<open>i\<close> go to their offset and the device expects the next chunk, or finishes
  if it was the last one.\<close>

theorem resend_recovers:
  assumes d: "dev_expects img (h_session_id h) (h_session_target h) (h_session_chunk_size h) i d"
    and h: "host_ready img h"
    and ij: "i < nchunks img (unat (h_session_chunk_size h))"
      "j < nchunks img (unat (h_session_chunk_size h))" "j \<noteq> i"
    and u: "isfu_fine img u" "of_nat i \<noteq> last_resent_chunk u \<or> resent_chunkid_count u < 10"
  shows "\<exists>d1 s1 l1 req r h1 u1 msg d2 s2 l2.
    fwUpdate_processBuffer_dev (log_app test_app) junk (host_message img h j) (d, s, l) =
      Some (False, d1, s1, l1) \<and> writes l1 = writes l \<and>
    dev_expects img (h_session_id h) (h_session_target h) (h_session_chunk_size h) i d1 \<and>
    req \<in> set (l_sent s1) \<and>
    fwUpdate_processBuffer_host (isfu_io link_env) (isfu_handlers link_env) req (h, u) =
      Some (r, h1, u1) \<and> isfu_sent u1 = isfu_sent u @ [msg] \<and>
    h_next_chunk_id h1 = of_nat (Suc i) \<and> host_ready img h1 \<and>
    fwUpdate_processBuffer_dev (log_app test_app) junk msg (d1, s1, l1) = Some (True, d2, s2, l2) \<and>
    writes l2 = writes l @ [(i * unat (h_session_chunk_size h), piece img (unat (h_session_chunk_size h)) i)] \<and>
    (if Suc i < nchunks img (unat (h_session_chunk_size h))
     then dev_expects img (h_session_id h) (h_session_target h) (h_session_chunk_size h) (Suc i) d2
     else d_session_status d2 = FINISHED)"
proof -
  obtain d1 s1 l1 where 1: "fwUpdate_processBuffer_dev (log_app test_app) junk (host_message img h j) (d, s, l) =
      Some (False, d1, s1, l1)"
      "dev_expects img (h_session_id h) (h_session_target h) (h_session_chunk_size h) i d1"
      "writes l1 = writes l" "payload_bytes \<lparr>target_device = TARGET_HOST,
        data = REQ_RESEND_CHUNK (h_session_id h) (of_nat i) REASON_INVALID_SEQID\<rparr> \<in> set (l_sent s1)"
    using td.processBuffer_wrong_chunk [OF d ij, of junk "(s, l)"] by auto
  obtain r h1 u1 where 2: "fwUpdate_processBuffer_host (isfu_io link_env) (isfu_handlers link_env)
      (payload_bytes \<lparr>target_device = TARGET_HOST,
        data = REQ_RESEND_CHUNK (h_session_id h) (of_nat i) REASON_INVALID_SEQID\<rparr>) (h, u) = Some (r, h1, u1)"
      "host_ready img h1" "h_next_chunk_id h1 = of_nat (Suc i)" "isfu_sent u1 = isfu_sent u @ [host_message img h i]"
    using host_resends [OF h ij(1) u] by blast
  obtain d2 s2 l2 where 3: "fwUpdate_processBuffer_dev (log_app test_app) junk (host_message img h i) (d1, s1, l1) =
      Some (True, d2, s2, l2)"
      "writes l2 = writes l1 @ [(i * unat (h_session_chunk_size h), piece img (unat (h_session_chunk_size h)) i)]"
      "if Suc i < nchunks img (unat (h_session_chunk_size h))
       then dev_expects img (h_session_id h) (h_session_target h) (h_session_chunk_size h) (Suc i) d2
       else d_session_status d2 = FINISHED"
    using td.processBuffer_chunk [OF 1(2) ij(1), of junk "(s1, l1)"] ij(1) by auto
  show ?thesis using 1 2 3(1,3) 3(2) [unfolded 1(3)] by blast
qed

text \<open>A session over an image of three bytes in chunks of two: the device expects chunk 0 and
  receives chunk 1.\<close>

theorem resend_recovers_witness:
  "\<exists>d h u l2. dev_expects [1, 2, 3] 77 TARGET_IMX5 2 0 d \<and> host_ready [1, 2, 3] h \<and>
    (\<exists>d1 s1 l1 req r h1 u1 msg d2 s2.
      fwUpdate_processBuffer_dev (log_app test_app) demo_junk (chunk_message 77 TARGET_IMX5 [1, 2, 3] 2 1)
        (d, \<lparr>l_clock = 0, l_seed = 0, l_sent = []\<rparr>, []) = Some (False, d1, s1, l1) \<and>
      req \<in> set (l_sent s1) \<and>
      fwUpdate_processBuffer_host (isfu_io link_env) (isfu_handlers link_env) req (h, u) = Some (r, h1, u1) \<and>
      isfu_sent u1 = isfu_sent u @ [msg] \<and>
      fwUpdate_processBuffer_dev (log_app test_app) demo_junk msg (d1, s1, l1) = Some (True, d2, s2, l2)) \<and>
    writes l2 = [(0, [1, 2])]"
proof -
  define h where "h = (FirmwareUpdateHost (replicate 604 0))\<lparr>h_session_target := TARGET_IMX5,
     h_session_id := 77, h_session_chunk_size := 2, h_session_image_size := 3, h_session_total_chunks := 2\<rparr>"
  define d where "d = demo_device\<lparr>d_session_id := 77, d_session_chunk_size := 2, d_session_image_size := 3,
     d_session_total_chunks := 2, d_session_md5 := md5_spec [1, 2, 3]\<rparr>"
  define u where "u = (snd demo_host)\<lparr>srcFile := Some (demo_file\<lparr>is_bytes := [1, 2, 3]\<rparr>),
     last_resent_chunk := 5\<rparr>"
  have s: "h_session_id h = 77" "h_session_target h = TARGET_IMX5" "h_session_chunk_size h = 2"
    by (simp_all add: h_def)
  have n: "nchunks [1, 2, 3 :: u8] 2 = 2" by (simp add: nchunks_def)
  have r: "md5_rep (md5_init (d_md5Context demo_device)) []"
    by (rule md5_init_rep) (simp add: demo_device_def FirmwareUpdateDevice_def fwUpdate_resetEngine_dev_def)
  have i: "md5_init (d_md5Context demo_device) = d_md5Context demo_device"
    by (simp add: demo_device_def FirmwareUpdateDevice_def fwUpdate_resetEngine_dev_def md5_init_def)
  have de: "dev_expects [1, 2, 3] 77 TARGET_IMX5 2 0 d"
    using r n unfolding i
    by (simp add: d_def dev_expects_def)
       (simp add: demo_device_def FirmwareUpdateDevice_def fwUpdate_resetEngine_dev_def)
  have hr: "host_ready [1, 2, 3] h" by (simp add: h_def host_ready_def n FirmwareUpdateHost_def)
  have uf: "isfu_fine [1, 2, 3] u" "of_nat 0 \<noteq> last_resent_chunk u \<or> resent_chunkid_count u < 10"
    by (simp_all add: u_def isfu_fine_def demo_file_def is_good_def demo_host_def ISFirmwareUpdater_def
        old_firmware_def dev_info_zero_def)
  have p: "piece [1, 2, 3 :: u8] 2 0 = [1, 2]" by (simp add: piece_def)
  have u2: "unat (2 :: u16) = 2" by simp
  have c: "(0 :: nat) < 2" "(1 :: nat) < 2" "(1 :: nat) \<noteq> 0" by simp_all
  obtain d1 s1 l1 req r h1 u1 msg d2 s2 l2 where
    "fwUpdate_processBuffer_dev (log_app test_app) demo_junk (chunk_message 77 TARGET_IMX5 [1, 2, 3] 2 1)
       (d, \<lparr>l_clock = 0, l_seed = 0, l_sent = []\<rparr>, []) = Some (False, d1, s1, l1)"
    "writes l1 = writes []" "dev_expects [1, 2, 3] 77 TARGET_IMX5 2 0 d1" "req \<in> set (l_sent s1)"
    "fwUpdate_processBuffer_host (isfu_io link_env) (isfu_handlers link_env) req (h, u) = Some (r, h1, u1)"
    "isfu_sent u1 = isfu_sent u @ [msg]" "h_next_chunk_id h1 = of_nat (Suc 0)" "host_ready [1, 2, 3] h1"
    "fwUpdate_processBuffer_dev (log_app test_app) demo_junk msg (d1, s1, l1) = Some (True, d2, s2, l2)"
    "writes l2 = writes [] @ [(0 * 2, [1, 2])]"
    "if Suc 0 < 2 then dev_expects [1, 2, 3] 77 TARGET_IMX5 2 (Suc 0) d2 else d_session_status d2 = FINISHED"
    using resend_recovers [OF de [folded s] hr, unfolded s u2 n, of 1 u demo_junk
        "\<lparr>l_clock = 0, l_seed = 0, l_sent = []\<rparr>" "[]", OF c uf, unfolded p]
    unfolding s u2 by (elim exE conjE) (rule that)
  moreover from this have "writes l2 = [(0, [1, 2])]" by simp
  ultimately show ?thesis using de hr by blast
qed

end
