(* ===== verification/Spec2Isabelle.thy ===== *)
theory Spec2Isabelle
  imports RingBuffer ComRequest ComLink LinkedList DataSets SerialPort Ihex FwSystem
begin

text \<open>
  \<^bold>\<open>The core of the Inertial Sense SDK.\<close>

  The SDK connects applications to inertial sensors over serial links. Its C core, under
  \<^verbatim>\<open>src/src\<close>, finds the packets of six protocols in a byte stream (\<^verbatim>\<open>ISComm.c\<close>), encodes and sends
  packets, and on top of that runs a communication manager (\<^verbatim>\<open>com_manager.c\<close>) which receives data
  into registered structures, answers requests and broadcasts data sets periodically. Beside it are
  the message-id and byte-order routines of \<^verbatim>\<open>data_sets.c\<close>, a ring buffer, a linked list, the
  portable part of the serial port driver and a reader of firmware images. On top of the manager, in
  C++, firmware is updated: a host (\<^verbatim>\<open>ISFirmwareUpdater.cpp\<close>) sends an image in chunks to a device,
  both subclasses of the protocol engine \<^verbatim>\<open>protocol/FirmwareUpdate.cpp\<close>, and the MD5 hash of
  \<^verbatim>\<open>util/md5.cpp\<close> tells whether the image arrived.

  \<^bold>\<open>Theories and sources.\<close>
  \<^item> \<^verbatim>\<open>Prelude\<close>: machine integers (\<^verbatim>\<open>u8\<close> to \<^verbatim>\<open>u64\<close>), pointers as object number and offset, the memory of
    byte objects, reads and writes that return \<open>None\<close> outside an object; shared lemmas and collections.
  \<^item> \<^verbatim>\<open>Checksums\<close>: CRC-24Q, Fletcher-16, XOR-16, CRC-4, bit-field readers (\<^verbatim>\<open>ISComm.c\<close>, \<^verbatim>\<open>data_sets.c\<close>)
    with their tables. The table-driven CRCs equal bit-serial division, the Fletcher sum its closed
    form; which single changes of a message each detects.
  \<^item> \<^verbatim>\<open>RingBuffer\<close> (\<^verbatim>\<open>ring_buffer.c\<close>): refinement of a byte queue, stated through the locale
    \<open>byte_fifo\<close>, and the defect of \<^verbatim>\<open>ringBufWrite\<close> at the wrap.
  \<^item> \<^verbatim>\<open>NmeaIds\<close> (\<^verbatim>\<open>data_sets.c\<close>): recognising and printing the ids of NMEA sentences.
  \<^item> \<^verbatim>\<open>CommTypes\<close>, \<^verbatim>\<open>CommParser\<close> (\<^verbatim>\<open>ISComm.h\<close>, \<^verbatim>\<open>ISComm.c\<close>): the instance, its operations, the parsers
    \<^verbatim>\<open>processIsbPkt\<close>, \<^verbatim>\<open>processNmeaPkt\<close>, \<^verbatim>\<open>processUbloxPkt\<close>, \<^verbatim>\<open>processRtcm3Pkt\<close>, \<^verbatim>\<open>processSpartnByte\<close>,
    \<^verbatim>\<open>processSonyByte\<close>, the byte loop, buffer management and dispatch.
  \<^item> \<^verbatim>\<open>CommSafety\<close>: the locale \<open>packet_parser\<close>, the contract of one parser, interpreted on all six; from
    it, that receiving returns, makes no access outside the object of the receive buffer and keeps its
    invariants as long as the bytes in the buffer are safe (\<open>safe_stream\<close>); and that every packet found is
    handed to its handlers. The length of an ISB packet wraps at 16 bits; the theorems say where.
  \<^item> \<^verbatim>\<open>CommTx\<close> (\<^verbatim>\<open>ISComm.c\<close>): header encoding, writing to buffers and ports, and the copies between
    packets and structures through the locale \<open>struct_writer\<close>; the round trip from the writer to the
    receive loop.
  \<^item> \<^verbatim>\<open>ComManager\<close> (\<^verbatim>\<open>com_manager.c\<close>): all instance operations. \<^verbatim>\<open>ComBroadcast\<close>: what transmit steps send
    over time and what silences a port. \<^verbatim>\<open>ComRequest\<close>: what a request sends and leaves in a slot.
    \<^verbatim>\<open>ComReceive\<close>: initialisation and what a received data packet may change. \<^verbatim>\<open>ComLink\<close>: a data packet
    followed from one manager over a lossless link into the structure registered at another; the
    theorem \<open>data_end_to_end\<close> below puts the transmit path, the receive path and the manager together.
  \<^item> \<^verbatim>\<open>LinkedList\<close> (\<^verbatim>\<open>linked_list.c\<close>): refinement of sequences, through the locale \<open>linked_sequence\<close>.
  \<^item> \<^verbatim>\<open>DataSets\<close> (\<^verbatim>\<open>data_sets.c\<close>): byte order of messages, message-controller bits, satellite numbers,
    profiler.
  \<^item> \<^verbatim>\<open>SerialPort\<close> (\<^verbatim>\<open>serialPort.c\<close>): reading lines and the round trip of ASCII messages.
  \<^item> \<^verbatim>\<open>Ihex\<close> (\<^verbatim>\<open>ihex.c\<close>): records are read back, well-formed files are loaded completely, and at which
    address a section claims to lie.
  \<^item> \<^verbatim>\<open>Md5\<close>, \<^verbatim>\<open>Md5Files\<close> (\<^verbatim>\<open>util/md5.cpp\<close>): the streaming MD5, the second implementation kept for old
    firmware, the hash of a file and of its text form. Both compute \<open>md5_spec\<close>, for any split of the
    message; the second only in one call.
  \<^item> \<^verbatim>\<open>FwPayload\<close> (\<^verbatim>\<open>protocol/FirmwareUpdate.h\<close>, \<^verbatim>\<open>FirmwareUpdate.cpp\<close>): the messages of the protocol and
    their round trip over the wire. \<^verbatim>\<open>FwUpdate\<close>: every method of \<^verbatim>\<open>FirmwareUpdateDevice\<close> and
    \<^verbatim>\<open>FirmwareUpdateHost\<close>, and the chunk count, computed in single precision by the code.
  \<^item> \<^verbatim>\<open>FwDevice\<close>: a log of what a device does to its flash, the invariant that relates it to the
    members, and that every sequence of received messages keeps it. \<^verbatim>\<open>FwHost\<close> (\<^verbatim>\<open>ISFirmwareUpdater.cpp\<close>):
    the handlers of the host of the SDK.
  \<^item> \<^verbatim>\<open>FwTransfer\<close>: the locales \<open>image_source\<close> and \<open>flash_device\<close>, what each side of a transfer needs of its
    subclass, and the transfer loop proved from them. \<^verbatim>\<open>FwSystem\<close>: their interpretations on
    \<^verbatim>\<open>ISFirmwareUpdater\<close> and on the device of \<^verbatim>\<open>src/tests/test_ISFirmwareUpdate.cpp\<close>, a complete
    update from a file to the flash, and the recovery from a chunk out of order.

  \<^bold>\<open>Conventions.\<close> Integers have the width of the source; \<^verbatim>\<open>int\<close> values that cannot overflow are
  mathematical integers. The one floating-point computation modelled, the number of chunks of an
  image, is written as the correctly rounded operations of IEEE single precision on integers. A definition returns \<open>None\<close> where the C code has undefined behaviour (an
  access outside an object, a null function pointer, a variable that was never set) or does not return,
  so a property of the form \<open>f x = Some y\<close> also states that the code is defined and terminates.
  Errors the code reports are values. Functions the application supplies (port reads and writes,
  handlers, the platform functions of a serial port, \<^verbatim>\<open>malloc\<close>) are arguments, or fields of the
  records that hold the function pointers, and act on a state \<open>'s\<close> of the application.

  \<^bold>\<open>Loops.\<close> Loops that depend on the data are \<^verbatim>\<open>partial_function (option)\<close> and their termination is a
  theorem of \<^verbatim>\<open>CommSafety\<close> or \<^verbatim>\<open>RingBuffer\<close>, as is that of \<^verbatim>\<open>md5_file_details\<close> in \<^verbatim>\<open>Md5Files\<close>. Loops
  with a bound in the code take it as an argument: \<^verbatim>\<open>parse_bytes\<close> runs at most 256 rounds, the size of
  the byte array; \<^verbatim>\<open>open_retries\<close> 30; \<^verbatim>\<open>find_dollar\<close> the length of the buffer; \<^verbatim>\<open>load_sections_loop\<close>
  one more than the number of slots, since the loop runs once even with none. The reading of lines in
  \<^verbatim>\<open>load_lines\<close> terminates because every line takes bytes from the file.

  \<^bold>\<open>Not modelled.\<close> \<^verbatim>\<open>ISEarth.c\<close>, \<^verbatim>\<open>ISPose.c\<close>, \<^verbatim>\<open>ISMatrix.c\<close>, \<^verbatim>\<open>ISPolynomial.c\<close> and \<^verbatim>\<open>filters.h\<close> compute in
  floating point, which the real numbers of the logic do not represent, and \<^verbatim>\<open>imx_defaults.c\<close> only sets
  such values; \<^verbatim>\<open>serialPortPlatform.c\<close> consists of system calls; \<^verbatim>\<open>miniz.c\<close> and \<^verbatim>\<open>printf.c\<close> are
  third-party; \<^verbatim>\<open>rtos.c\<close> and \<^verbatim>\<open>bootloaderApp.c\<close> need headers outside the repository; the rest of
  the C++ host library, the ROS nodes and the tools are built on the C core. Of \<^verbatim>\<open>ISFirmwareUpdater\<close>,
  the interpreter of update scripts and packages, the time-driven step and the DFU transport are left
  out, and of the protocol engine \<^verbatim>\<open>fwUpdate_payloadToString\<close>, which formats for debugging. Of \<^verbatim>\<open>data_sets.c\<close>, the tables of
  offsets of \<^verbatim>\<open>getDoubleOffsets\<close> and \<^verbatim>\<open>getStringOffsetsLengths\<close> are arguments of the routines that use
  them, and the time conversions are floating point. Of \<^verbatim>\<open>com_manager.c\<close>, the code for the IMX-5
  firmware is left out, and the functions on the global instance only forward to those modelled.
\<close>

section \<open>End to end\<close>

text \<open>C1: data sent by one manager arrives in the structure registered at another. With a lossless link
  that holds nothing, a sender whose port writes to it and a receiver with one waiting port that reads
  from it, \<^verbatim>\<open>comManagerSend\<close> of a data or set-data packet returns 0, and one receive step of the other
  manager returns, having written the packet to its receive buffer and the data, at the given offset,
  to the registered structure, and nothing else. The packet is counted, the port waits for the next
  packet, and exactly set-data packets are acknowledged.\<close>

theorem data_end_to_end:
  fixes cmA cmB :: "'s com_manager_t"
  assumes link: "lossless_link w p r 0 flight" "flight s = []"
    and A: "portWrite cmA = Some w" "p < length (ports cmA)" "rd_ptr mA ptr (length dat) = Some dat"
    and dat: "dat \<noteq> []" "length dat \<le> 1024" "fl = PKT_TYPE_DATA \<or> fl = PKT_TYPE_SET_DATA"
    and B: "portRead cmB = Some r" "ports cmB = [c]" "numPorts cmB = 1"
      "port_waits mB c (length (isb_frame fl did off dat) + 2)"
      "receives_at cmB (unat did) ob i mB" "ob \<noteq> rx_obj (rxBuf c)"
      "unat off + length dat \<le> unat (ds_size (dataSet (regData cmB (unat did))))"
  shows "\<exists>cmA' s1 cmB' c' s2.
     comManagerSendInstance cmA (int p) fl ptr did (of_nat (length dat)) off mA s = Some (0, cmA', s1) \<and>
     comManagerStepRxInstance stk cmB t mB s1 =
       Some (cmB', put_bytes (put_bytes mB (rx_obj (rxBuf c)) (rx_tail (rxBuf c)) (isb_frame fl did off dat))
                     ob (i + unat off) dat, s2) \<and>
     ports cmB' = [c'] \<and> regData cmB' = regData cmB \<and> broadcastMessages cmB' = broadcastMessages cmB \<and>
     rxPktCount c' = rxPktCount c + 1 \<and> processPkt c' = None \<and> rx_scan (rxBuf c') = rx_tail (rxBuf c') \<and>
     txPktCount c' = txPktCount c + (if fl = PKT_TYPE_SET_DATA then 1 else 0)"
proof -
  obtain cmA' s1 where send: "comManagerSendInstance cmA (int p) fl ptr did (of_nat (length dat)) off mA s = Some (0, cmA', s1)"
    "flight s1 = isb_frame fl did off dat"
    using send_on_link [OF link(1) A dat(2), of fl did off s] link(2) by auto
  have "int (length (flight s1)) \<le> int (rx_end (rxBuf c)) - int (rx_tail (rxBuf c))"
    using B(4) by (simp add: send(2) port_waits_def del: length_isb_frame)
  then obtain s' where rd: "r 0 (int (rx_end (rxBuf c)) - int (rx_tail (rxBuf c))) s1 =
      (int (length (isb_frame fl did off dat)), isb_frame fl did off dat, s')"
    using link(1) send(2) unfolding lossless_link_def by metis
  obtain c2 c3 cm' s2 where rcv: "is_comm_port_parse_messages (lift_read r) 0 mB c (cm_callbacks stk (callbacks cmB)) (cmB, s1) =
     Some (put_bytes (put_bytes mB (rx_obj (rxBuf c)) (rx_tail (rxBuf c)) (isb_frame fl did off dat)) ob (i + unat off) dat,
           c3, cm', s2)"
    "cm' = (if fl = PKT_TYPE_SET_DATA then bump (cmB\<lparr>ports := (ports cmB)[0 := c2]\<rparr>) 0 else cmB\<lparr>ports := (ports cmB)[0 := c2]\<rparr>)"
    "c3 = c2\<lparr>txPktCount := txPktCount c2 + (if fl = PKT_TYPE_SET_DATA then 1 else 0)\<rparr>"
    "data_received (put_bytes mB (rx_obj (rxBuf c)) (rx_tail (rxBuf c)) (isb_frame fl did off dat))
       (c\<lparr>rxBuf := (rxBuf c)\<lparr>rx_tail := rx_tail (rxBuf c) + length (isb_frame fl did off dat)\<rparr>\<rparr>) c2 fl did off dat"
    using port_receives [where rd = r and h = 0 and s = s1 and stk = stk, OF B(4) dat(3,1,2) B(5-7) _ rd] B(2) by auto
  have "comManagerStepRxInstance stk cmB t mB s1 =
      Some (cm'\<lparr>ports := (ports cm')[0 := c3]\<rparr>,
        put_bytes (put_bytes mB (rx_obj (rxBuf c)) (rx_tail (rxBuf c)) (isb_frame fl did off dat)) ob (i + unat off) dat, s2)"
    using rcv(1) B(1-3) by (simp add: comManagerStepRxInstance_def)
  moreover have "ports (cm'\<lparr>ports := (ports cm')[0 := c3]\<rparr>) = [c3]" "regData cm' = regData cmB"
    "broadcastMessages cm' = broadcastMessages cmB"
    using rcv(2) B(2) by (simp_all add: bump_def)
  moreover have "rxPktCount c3 = rxPktCount c + 1" "processPkt c3 = None" "rx_scan (rxBuf c3) = rx_tail (rxBuf c3)"
    "txPktCount c3 = txPktCount c + (if fl = PKT_TYPE_SET_DATA then 1 else 0)"
    using rcv(3,4) B(4) by (simp_all add: data_received_def port_waits_def)
  ultimately show ?thesis using send(1) by auto
qed

definition demo_link_comm :: is_comm_instance_t where
  "demo_link_comm = demo_comm\<lparr>rxBuf := (rxBuf demo_comm)\<lparr>rx_obj := 7, rx_end := 64, rx_tail := 0\<rparr>\<rparr>"

definition demo_link_cm :: "u8 list com_manager_t" where
  "demo_link_cm = demo_rx_cm\<lparr>portRead := Some (\<lambda>_ n s. (int (length s), s, [])), ports := [demo_link_comm]\<rparr>"

lemma data_end_to_end_witness:
  "\<exists>cmA' s1 cmB' c' s2.
     comManagerSendInstance demo_cm (int 0) 5 (Ptr 1 0) 4 (of_nat 3) 2 (\<lambda>_. [9, 8, 7]) [] = Some (0, cmA', s1) \<and>
     comManagerStepRxInstance 6 demo_link_cm 0 (\<lambda>_. replicate 64 0) s1 =
       Some (cmB', put_bytes (put_bytes (\<lambda>_. replicate 64 0) 7 0 (isb_frame 5 4 2 [9, 8, 7])) 3 3 [9, 8, 7], s2) \<and>
     ports cmB' = [c'] \<and> rxPktCount c' = 1 \<and> txPktCount c' = 1"
proof -
  have l: "lossless_link (\<lambda>_ bs s. (int (length bs), s @ bs)) 0 (\<lambda>_ n s. (int (length s), s, [])) 0 (\<lambda>s. s)"
    by (simp add: lossless_link_def)
  have A: "portWrite demo_cm = Some (\<lambda>_ bs s. (int (length bs), s @ bs))" "0 < length (ports demo_cm)"
    "rd_ptr (\<lambda>_. [9, 8, 7]) (Ptr 1 0) (length [9, 8, 7 :: u8]) = Some [9, 8, 7]"
    by (simp_all add: demo_cm_def rd_ptr_def rd_bytes_def)
  have B: "portRead demo_link_cm = Some (\<lambda>_ n s. (int (length s), s, []))" "ports demo_link_cm = [demo_link_comm]"
    "numPorts demo_link_cm = 1"
    by (simp_all add: demo_link_cm_def demo_rx_cm_def demo_cm_def comManagerRegisterInstance_def)
  have W: "port_waits (\<lambda>_. replicate 64 0) demo_link_comm (length (isb_frame 5 4 2 [9, 8, 7]) + 2)"
    by (simp add: port_waits_def demo_link_comm_def demo_comm_def default_mask_def)
  have R: "receives_at demo_link_cm (unat (4 :: u16)) 3 1 (\<lambda>_. replicate 64 0)"
    "3 \<noteq> rx_obj (rxBuf demo_link_comm)"
    "unat (2 :: u16) + length [9, 8, 7 :: u8] \<le> unat (ds_size (dataSet (regData demo_link_cm (unat (4 :: u16)))))"
    by (simp_all add: receives_at_def demo_link_cm_def demo_rx_cm_def demo_cm_def comManagerRegisterInstance_def
        demo_link_comm_def com_manager_zero_def callbacks_zero_def)
  have z: "rx_obj (rxBuf demo_link_comm) = 7" "rx_tail (rxBuf demo_link_comm) = 0" "rxPktCount demo_link_comm = 0" "txPktCount demo_link_comm = 0"
    by (simp_all add: demo_link_comm_def demo_comm_def)
  show ?thesis
    using data_end_to_end [OF l refl A _ _ _ B W R, of 6 0] unfolding z by (auto simp: numeral_3_eq_3)
qed

end
